(* ===== verification/Prelude.thy ===== *)
theory Prelude
  imports Main "HOL-Library.Word" "HOL-Library.Sublist"
begin

text \<open>
  Shared vocabulary of the development: the faults a C program can run into, the result type of
  code that may fault, and generic facts about lists and searches that the components use.
\<close>

named_theorems clib \<open>evaluation rules of the C library model\<close>
named_theorems frame \<open>what an operation leaves unchanged\<close>

section \<open>Faults\<close>

text \<open>
  A fault is undefined behaviour that the code does not guard against: a null pointer handed to a
  string function, a write or a read past the end of an array, a read of an uninitialised buffer, a
  format string that comes from data, a second release of the same memory.
\<close>

datatype fault = NullPointer | BufferOverflow | UninitRead | FormatFault | UseAfterFree | OutOfBoundsRead

type_synonym 'a res = "fault + 'a"

definition bindE :: "'a res \<Rightarrow> ('a \<Rightarrow> 'b res) \<Rightarrow> 'b res" where
  "bindE m k = (case m of Inl f \<Rightarrow> Inl f | Inr x \<Rightarrow> k x)"

lemma bindE_Inl [simp]: "bindE (Inl f) k = Inl f"
  by (simp add: bindE_def)

lemma bindE_Inr [simp]: "bindE (Inr x) k = k x"
  by (simp add: bindE_def)

lemma bindE_assoc: "bindE (bindE m f) k = bindE m (\<lambda>x. bindE (f x) k)"
  by (cases m) simp_all

lemma bindE_eq_Inr_iff: "bindE m k = Inr y \<longleftrightarrow> (\<exists>x. m = Inr x \<and> k x = Inr y)"
  by (cases m) auto

lemma bindE_eq_Inl_iff: "bindE m k = Inl f \<longleftrightarrow> m = Inl f \<or> (\<exists>x. m = Inr x \<and> k x = Inl f)"
  by (cases m) auto

lemma bindE_split:
  "P (bindE m k) \<longleftrightarrow> (\<forall>f. m = Inl f \<longrightarrow> P (Inl f)) \<and> (\<forall>x. m = Inr x \<longrightarrow> P (k x))"
  by (cases m) auto

lemma bindE_cong [fundef_cong]:
  "m = m' \<Longrightarrow> (\<And>x. m' = Inr x \<Longrightarrow> k x = k' x) \<Longrightarrow> bindE m k = bindE m' k'"
  by (cases m') auto

text \<open>A pointer argument: the code dereferences it, so a null pointer is a fault.\<close>

definition deref :: "'a option \<Rightarrow> 'a res" where
  "deref p = (case p of None \<Rightarrow> Inl NullPointer | Some x \<Rightarrow> Inr x)"

lemma deref_simps [simp]: "deref None = Inl NullPointer" "deref (Some x) = Inr x"
  by (simp_all add: deref_def)

lemma deref_eq_Inr_iff [simp]: "deref p = Inr x \<longleftrightarrow> p = Some x"
  by (cases p) auto

lemma deref_eq_Inl_iff [simp]: "deref p = Inl f \<longleftrightarrow> p = None \<and> f = NullPointer"
  by (cases p) auto

section \<open>Searching an array from the front\<close>

primrec first_idx :: "('a \<Rightarrow> bool) \<Rightarrow> 'a list \<Rightarrow> nat option" where
  "first_idx P [] = None"
| "first_idx P (x # xs) = (if P x then Some 0 else map_option Suc (first_idx P xs))"

lemma first_idx_None_iff: "first_idx P xs = None \<longleftrightarrow> (\<forall>x \<in> set xs. \<not> P x)"
  by (induction xs) auto

lemma first_idx_SomeD:
  "first_idx P xs = Some i \<Longrightarrow> i < length xs \<and> P (xs ! i) \<and> (\<forall>j < i. \<not> P (xs ! j))"
proof (induction xs arbitrary: i)
  case Nil
  then show ?case by simp
next
  case (Cons x xs)
  show ?case
  proof (cases "P x")
    case True
    with Cons.prems show ?thesis by simp
  next
    case False
    with Cons.prems obtain k where k: "first_idx P xs = Some k" "i = Suc k" by auto
    with Cons.IH [of k] False show ?thesis
      by (auto simp: nth_Cons split: nat.splits)
  qed
qed

lemma first_idx_SomeI:
  assumes "i < length xs" "P (xs ! i)" "\<forall>j < i. \<not> P (xs ! j)"
  shows "first_idx P xs = Some i"
proof (cases "first_idx P xs")
  case None
  with assms show ?thesis by (auto simp: first_idx_None_iff)
next
  case (Some k)
  then have "k < length xs" "P (xs ! k)" "\<forall>j < k. \<not> P (xs ! j)"
    by (auto dest: first_idx_SomeD)
  with assms have "k = i" by (metis linorder_neqE_nat)
  with Some show ?thesis by simp
qed

lemma first_idx_map_cong:
  "length xs = length ys \<Longrightarrow> (\<forall>i < length xs. P (xs ! i) = Q (ys ! i)) \<Longrightarrow>
   first_idx P xs = first_idx Q ys"
proof (induction xs ys rule: list_induct2)
  case Nil
  then show ?case by simp
next
  case (Cons x xs y ys)
  from Cons.prems have "P x = Q y" by fastforce
  moreover from Cons.prems have "\<forall>i < length xs. P (xs ! i) = Q (ys ! i)" by fastforce
  ultimately show ?case using Cons.IH by simp
qed

section \<open>Lists\<close>

lemma takeWhile_append_stop:
  "(\<forall>x \<in> set xs. P x) \<Longrightarrow> \<not> P y \<Longrightarrow> takeWhile P (xs @ y # ys) = xs"
  by (induction xs) auto

lemma dropWhile_append_stop:
  "(\<forall>x \<in> set xs. P x) \<Longrightarrow> \<not> P y \<Longrightarrow> dropWhile P (xs @ y # ys) = y # ys"
  by (induction xs) auto

lemma takeWhile_all: "(\<forall>x \<in> set xs. P x) \<Longrightarrow> takeWhile P xs = xs"
  by (induction xs) auto

lemma dropWhile_all: "(\<forall>x \<in> set xs. P x) \<Longrightarrow> dropWhile P xs = []"
  by (induction xs) auto

lemma take_update_ge: "n \<le> i \<Longrightarrow> take n (xs[i := x]) = take n xs"
  by simp

lemma take_Suc_update: "i < length xs \<Longrightarrow> take (Suc i) (xs[i := x]) = take i xs @ [x]"
  by (simp add: take_Suc_conv_app_nth)

lemma nth_list_update_iff:
  "i < length xs \<Longrightarrow> xs[i := x] ! j = (if j = i then x else xs ! j)"
  by simp

section \<open>32-bit words\<close>

lemma unat32_less: "unat d < 4294967296" for d :: "32 word"
  using unsigned_less [of d, where ?'a = nat] by simp

lemma uint32_range: "0 \<le> uint d" "uint d < 4294967296" for d :: "32 word"
  using uint_bounded [of d] by simp_all

text \<open>The signed reading of a 32-bit value.\<close>

lemma sint32: "sint d = (if uint d < 2147483648 then uint d else uint d - 4294967296)" for d :: "32 word"
proof -
  note r = uint32_range [of d]
  have "sint d = (uint d + 2147483648) mod 4294967296 - 2147483648"
    by (simp add: sint_uint signed_take_bit_eq_take_bit_shift take_bit_eq_mod add.commute)
  moreover have "(uint d + 2147483648) mod 4294967296 =
      (if uint d < 2147483648 then uint d + 2147483648 else uint d - 2147483648)"
  proof (cases "uint d < 2147483648")
    case False
    have "(uint d + 2147483648) mod 4294967296 = (uint d - 2147483648 + 4294967296) mod 4294967296"
      by (simp add: add.commute)
    also have "\<dots> = (uint d - 2147483648) mod 4294967296" by (rule mod_add_self2)
    also have "\<dots> = uint d - 2147483648" using False r by (intro mod_pos_pos_trivial) auto
    finally show ?thesis using False by simp
  qed (use r in simp)
  ultimately show ?thesis by simp
qed

lemma sint_small:
  assumes "0 \<le> x" "x < 2147483648"
  shows "sint (word_of_int x :: 32 word) = x"
proof -
  have "uint (word_of_int x :: 32 word) = x" using assms by (simp add: uint_word_of_int)
  with assms show ?thesis by (simp add: sint32)
qed

lemma sint_wrapped:
  assumes "2147483648 \<le> x" "x < 4294967296"
  shows "sint (word_of_int x :: 32 word) = x - 4294967296"
proof -
  have "uint (word_of_int x :: 32 word) = x" using assms by (simp add: uint_word_of_int)
  with assms show ?thesis by (simp add: sint32)
qed

section \<open>Runs that may not end\<close>

text \<open>\<open>None\<close> is a run that never returns.\<close>

type_synonym 'a run = "'a res option"

definition bindR :: "'a run \<Rightarrow> ('a \<Rightarrow> 'b run) \<Rightarrow> 'b run" where
  "bindR m k = (case m of None \<Rightarrow> None | Some (Inl f) \<Rightarrow> Some (Inl f) | Some (Inr x) \<Rightarrow> k x)"

lemma bindR_simps [simp]:
  "bindR None k = None" "bindR (Some (Inl f)) k = Some (Inl f)" "bindR (Some (Inr x)) k = k x"
  by (simp_all add: bindR_def)

lemma bindR_eq_Inr_iff: "bindR m k = Some (Inr y) \<longleftrightarrow> (\<exists>x. m = Some (Inr x) \<and> k x = Some (Inr y))"
  by (cases m; cases "the m") auto

section \<open>Loops that run for ever, as repeated turns\<close>

text \<open>
  \<open>while (1)\<close> loops are modelled by their body; \<open>turns n\<close> runs the body \<open>n\<close> times. The locale says
  that the body follows a transition relation on an abstraction of the state, and gives the
  consequences for any number of turns.
\<close>

primrec turns :: "nat \<Rightarrow> ('c \<Rightarrow> 'c res) \<Rightarrow> 'c \<Rightarrow> 'c res" where
  "turns 0 f c = Inr c"
| "turns (Suc n) f c = bindE (f c) (turns n f)"

lemma turns_add: "turns (m + n) f c = bindE (turns m f c) (turns n f)"
  by (induction m arbitrary: c) (auto simp: bindE_def split: sum.split)

locale simulation =
  fixes body :: "'c \<Rightarrow> 'c res"
    and abs :: "'c \<Rightarrow> 's"
    and step :: "'s \<Rightarrow> 's \<Rightarrow> bool"
  assumes sim: "body c = Inr c' \<Longrightarrow> step (abs c) (abs c')"
begin

lemma turns_steps: "turns n body c = Inr c' \<Longrightarrow> (step ^^ n) (abs c) (abs c')"
proof (induction n arbitrary: c)
  case 0
  then show ?case by simp
next
  case (Suc n)
  then obtain d where "body c = Inr d" "turns n body d = Inr c'" by (auto simp: bindE_eq_Inr_iff)
  with sim Suc.IH show ?case by (meson relpowp_Suc_I2)
qed

lemma turns_invariant:
  assumes "\<And>s s'. P s \<Longrightarrow> step s s' \<Longrightarrow> P s'" "P (abs c)" "turns n body c = Inr c'"
  shows "P (abs c')"
proof -
  have "P s'" if "(step ^^ k) s s'" "P s" for k s s'
    using that by (induction k arbitrary: s') (auto intro: assms(1))
  with turns_steps [OF assms(3)] assms(2) show ?thesis by blast
qed

end

section \<open>Named entries\<close>

text \<open>What the users of a list of named entries rely on when they replace and look up entries.\<close>

locale entry_map =
  fixes put :: "'n \<Rightarrow> 'v \<Rightarrow> 's \<Rightarrow> 's"
    and get :: "'s \<Rightarrow> 'n \<Rightarrow> 'v option"
  assumes get_put: "get (put n v s) m = (if m = n then Some v else get s m)"
begin

lemma get_put_put: "get (put n v (put n' v' s)) m = (if m = n then Some v else if m = n' then Some v' else get s m)"
  by (simp add: get_put)

lemma put_unchanged: "get s n = Some v \<Longrightarrow> get (put n v s) = get s"
  by (auto simp: get_put)

lemma get_puts: "get (fold (\<lambda>(n, v). put n v) xs s) m = (case map_of (rev xs) m of None \<Rightarrow> get s m | Some v \<Rightarrow> Some v)"
  by (induction xs arbitrary: s) (auto simp: get_put map_add_def split: option.splits)

end

end
