(* ===== verification/Clib.thy ===== *)
theory Clib
  imports Prelude
begin

text \<open>
  The part of the C library the sources use, on strings as character lists: character classes,
  \<open>%s\<close> and \<open>%d\<close> conversions of \<open>sscanf\<close>/\<open>fscanf\<close>, \<open>fgets\<close>, \<open>atoi\<close>, \<open>strncpy\<close>, \<open>strstr\<close> and the
  conversions of \<open>printf\<close>. A destination array has its size as an argument, so that a conversion
  that does not fit is the fault the C program would run into.
\<close>

section \<open>Characters and C strings\<close>

abbreviation nul :: char where "nul \<equiv> CHR 0x00"
abbreviation nl :: char where "nl \<equiv> CHR 0x0A"
abbreviation cr :: char where "cr \<equiv> CHR 0x0D"

definition isspace :: "char \<Rightarrow> bool" where
  "isspace c \<longleftrightarrow> c = CHR '' '' \<or> c = CHR 0x09 \<or> c = nl \<or> c = CHR 0x0B \<or> c = CHR 0x0C \<or> c = cr"

definition isdigit :: "char \<Rightarrow> bool" where
  "isdigit c \<longleftrightarrow> 48 \<le> (of_char c :: nat) \<and> (of_char c :: nat) \<le> 57"

definition digit_val :: "char \<Rightarrow> nat" where
  "digit_val c = of_char c - 48"

text \<open>The C string that starts at a buffer: the bytes before the first null byte.\<close>

definition cstr :: "string \<Rightarrow> string" where
  "cstr s = takeWhile (\<lambda>c. c \<noteq> nul) s"

lemma cstr_no_nul: "nul \<notin> set (cstr s)"
  unfolding cstr_def by (auto dest: set_takeWhileD)

lemma cstr_id: "nul \<notin> set s \<Longrightarrow> cstr s = s"
  unfolding cstr_def by (rule takeWhile_all) auto

lemma cstr_append_nul: "nul \<notin> set s \<Longrightarrow> cstr (s @ nul # t) = s"
  unfolding cstr_def by (rule takeWhile_append_stop) auto

lemma cstr_Nil [simp]: "cstr [] = []"
  by (simp add: cstr_def)

lemma length_cstr_le: "length (cstr s) \<le> length s"
  by (simp add: cstr_def length_takeWhile_le)

section \<open>Scanning words\<close>

definition scan_tok :: "string \<Rightarrow> (string \<times> string) option" where
  "scan_tok s = (let t = dropWhile isspace s in
     if t = [] then None
     else Some (takeWhile (\<lambda>c. \<not> isspace c) t, dropWhile (\<lambda>c. \<not> isspace c) t))"

text \<open>
  \<open>scanf_s n s\<close> is one \<open>%s\<close> conversion into an array of \<open>n\<close> bytes: \<open>Inr None\<close> at the end of the
  input, a fault when the word and its terminator do not fit.
\<close>

definition scanf_s :: "nat \<Rightarrow> string \<Rightarrow> (string \<times> string) option res" where
  "scanf_s n s = (case scan_tok s of
      None \<Rightarrow> Inr None
    | Some (t, r) \<Rightarrow> if length t < n then Inr (Some (t, r)) else Inl BufferOverflow)"

text \<open>\<open>fscanf(fp, "%s", buf)\<close> with no test of its result, and a use of \<open>buf\<close> afterwards.\<close>

definition fscanf_word :: "nat \<Rightarrow> string \<Rightarrow> string res" where
  "fscanf_word n s = bindE (scanf_s n s) (\<lambda>r. case r of None \<Rightarrow> Inl UninitRead | Some (t, _) \<Rightarrow> Inr t)"

lemma scan_tok_word:
  assumes "w \<noteq> []" "\<forall>c \<in> set w. \<not> isspace c"
  shows "scan_tok (w @ r) = Some (w @ takeWhile (\<lambda>c. \<not> isspace c) r, dropWhile (\<lambda>c. \<not> isspace c) r)"
proof -
  from assms obtain c u where w: "w = c # u" "\<not> isspace c" by (cases w) auto
  have "dropWhile isspace (w @ r) = w @ r" using w by simp
  moreover have "takeWhile (\<lambda>c. \<not> isspace c) (w @ r) = w @ takeWhile (\<lambda>c. \<not> isspace c) r"
    using assms(2) by (simp add: takeWhile_append2)
  moreover have "dropWhile (\<lambda>c. \<not> isspace c) (w @ r) = dropWhile (\<lambda>c. \<not> isspace c) r"
    using assms(2) by (simp add: dropWhile_append2)
  ultimately show ?thesis using assms(1) by (simp add: scan_tok_def Let_def)
qed

lemma scan_tok_word_sp:
  assumes "w \<noteq> []" "\<forall>c \<in> set w. \<not> isspace c" "isspace d"
  shows "scan_tok (w @ d # r) = Some (w, d # r)"
  using scan_tok_word [OF assms(1,2), of "d # r"] assms(3) by simp

lemma scan_tok_exact:
  assumes "w \<noteq> []" "\<forall>c \<in> set w. \<not> isspace c"
  shows "scan_tok w = Some (w, [])"
  using scan_tok_word [OF assms, of "[]"] by simp

lemma scan_tok_skip: "isspace c \<Longrightarrow> scan_tok (c # s) = scan_tok s"
  by (simp add: scan_tok_def)

lemma scan_tok_SomeD:
  assumes "scan_tok s = Some (t, r)"
  shows "t \<noteq> [] \<and> (\<forall>c \<in> set t. \<not> isspace c) \<and> length t + length r \<le> length s"
proof -
  let ?d = "dropWhile isspace s"
  from assms have d: "?d \<noteq> []" and t: "t = takeWhile (\<lambda>c. \<not> isspace c) ?d"
    and r: "r = dropWhile (\<lambda>c. \<not> isspace c) ?d"
    by (auto simp: scan_tok_def Let_def split: if_splits)
  from d have "\<not> isspace (hd ?d)" by (rule hd_dropWhile)
  with d t have "t \<noteq> []" by (cases ?d) auto
  moreover have "\<forall>c \<in> set t. \<not> isspace c" using t by (auto dest: set_takeWhileD)
  moreover have "length t + length r = length ?d"
    using t r by (metis length_append takeWhile_dropWhile_id)
  moreover have "length ?d \<le> length s" by (rule length_dropWhile_le)
  ultimately show ?thesis by simp
qed

text \<open>The first two words of a line: \<open>sscanf(s, "%s %s", a, b)\<close> with arrays of the given sizes.\<close>

definition sscanf_ss :: "nat \<Rightarrow> nat \<Rightarrow> string \<Rightarrow> (string \<times> string) option res" where
  "sscanf_ss n m s = bindE (scanf_s n s) (\<lambda>x. case x of
      None \<Rightarrow> Inr None
    | Some (a, r) \<Rightarrow> bindE (scanf_s m r) (\<lambda>y. case y of
        None \<Rightarrow> Inr None
      | Some (b, _) \<Rightarrow> Inr (Some (a, b))))"

section \<open>Reading a stream by lines\<close>

text \<open>
  One \<open>fgets(buf, n, fp)\<close> takes at most \<open>n - 1\<close> bytes and stops after a newline;
  \<open>fgets_all\<close> is the sequence of buffers a \<open>while (fgets(...))\<close> loop sees.
\<close>

definition fgets_chunk :: "nat \<Rightarrow> string \<Rightarrow> string" where
  "fgets_chunk n s = (let t = take (n - 1) s; l = takeWhile (\<lambda>c. c \<noteq> nl) t
     in if length l < length t then l @ [nl] else l)"

lemma fgets_chunk_nonempty: "s \<noteq> [] \<Longrightarrow> 2 \<le> n \<Longrightarrow> fgets_chunk n s \<noteq> []"
  by (cases s; cases "n - 1") (auto simp: fgets_chunk_def Let_def)

lemma fgets_chunk_prefix: "fgets_chunk n s = take (length (fgets_chunk n s)) s"
proof -
  let ?t = "take (n - 1) s"
  let ?l = "takeWhile (\<lambda>c. c \<noteq> nl) ?t"
  have l: "?l = take (length ?l) ?t" by (metis takeWhile_eq_take)
  show ?thesis
  proof (cases "length ?l < length ?t")
    case True
    then have "?t ! length ?l = nl" using nth_length_takeWhile by blast
    with True l have "?l @ [nl] = take (Suc (length ?l)) ?t"
      by (simp add: take_Suc_conv_app_nth)
    with True show ?thesis by (simp add: fgets_chunk_def Let_def min_def)
  next
    case False
    with l show ?thesis by (simp add: fgets_chunk_def Let_def min_def split: if_splits)
  qed
qed

lemma length_fgets_chunk: "length (fgets_chunk n s) \<le> n - 1"
  by (auto simp: fgets_chunk_def Let_def intro: order_trans [OF length_takeWhile_le])

function fgets_all :: "nat \<Rightarrow> string \<Rightarrow> string list" where
  "fgets_all n s = (if s = [] \<or> n < 2 then []
     else fgets_chunk n s # fgets_all n (drop (length (fgets_chunk n s)) s))"
  by pat_completeness auto
termination
  by (relation "measure (\<lambda>(n, s). length s)") (auto simp: fgets_chunk_nonempty)

declare fgets_all.simps [simp del]

lemma fgets_all_Nil [simp]: "fgets_all n [] = []"
  by (simp add: fgets_all.simps)

lemma concat_fgets_all: "2 \<le> n \<Longrightarrow> concat (fgets_all n s) = s"
proof (induction n s rule: fgets_all.induct)
  case (1 n s)
  show ?case
  proof (cases "s = []")
    case False
    with "1" have "concat (fgets_all n (drop (length (fgets_chunk n s)) s)) =
        drop (length (fgets_chunk n s)) s" by simp
    with False "1.prems" show ?thesis
      using fgets_chunk_prefix [of n s]
      by (simp add: fgets_all.simps [of n s]) (metis append_take_drop_id)
  qed simp
qed

lemma fgets_all_length: "c \<in> set (fgets_all n s) \<Longrightarrow> length c < n"
proof (induction n s rule: fgets_all.induct)
  case (1 n s)
  from "1.prems" have ne: "s \<noteq> []" "\<not> n < 2" by (auto simp: fgets_all.simps [of n s] split: if_splits)
  with "1.prems" consider "c = fgets_chunk n s"
    | "c \<in> set (fgets_all n (drop (length (fgets_chunk n s)) s))"
    by (auto simp: fgets_all.simps [of n s])
  then show ?case
  proof cases
    case 1
    then show ?thesis using length_fgets_chunk [of n s] ne by simp
  next
    case 2
    with "1.IH" ne show ?thesis by simp
  qed
qed

lemma fgets_chunk_line:
  assumes "nl \<notin> set l" "length l + 1 < n"
  shows "fgets_chunk n (l @ nl # r) = l @ [nl]"
proof -
  have "take (n - 1) (l @ nl # r) = l @ nl # take (n - 2 - length l) r"
    using assms(2)
    by (cases "n - 1 - length l")
      (auto simp: numeral_2_eq_2 intro!: arg_cong [where f = "\<lambda>k. take k r"])
  moreover have "takeWhile (\<lambda>c. c \<noteq> nl) (l @ nl # take (n - 2 - length l) r) = l"
    by (rule takeWhile_append_stop) (use assms(1) in auto)
  ultimately show ?thesis by (simp add: fgets_chunk_def Let_def)
qed

text \<open>A line that fits in the buffer is read whole, so a text of such lines is read line by line.\<close>

lemma fgets_all_line:
  assumes "nl \<notin> set l" "length l + 1 < n"
  shows "fgets_all n (l @ nl # r) = (l @ [nl]) # fgets_all n r"
  using fgets_chunk_line [OF assms, of r] assms(2) by (simp add: fgets_all.simps [of n "l @ nl # r"])

section \<open>Numbers\<close>

text \<open>
  \<open>strtol(s, NULL, 10)\<close> on a 32-bit \<open>long\<close>: white space, an optional sign, digits, and saturation
  at the limits of the type; \<open>atoi\<close> is \<open>strtol\<close> cast to \<open>int\<close>.
\<close>

definition digits_val :: "string \<Rightarrow> nat" where
  "digits_val ds = foldl (\<lambda>v c. 10 * v + digit_val c) 0 ds"

definition clamp32 :: "int \<Rightarrow> int" where
  "clamp32 n = max (- 2147483648) (min 2147483647 n)"

definition atoi :: "string \<Rightarrow> int" where
  "atoi s = (let t = dropWhile isspace s in
     case t of
       [] \<Rightarrow> 0
     | c # u \<Rightarrow>
        if c = CHR ''-'' then clamp32 (- int (digits_val (takeWhile isdigit u)))
        else if c = CHR ''+'' then clamp32 (int (digits_val (takeWhile isdigit u)))
        else clamp32 (int (digits_val (takeWhile isdigit t))))"

text \<open>A \<open>%d\<close> conversion: \<open>None\<close> when the input has no number at that place.\<close>

definition scanf_d :: "string \<Rightarrow> (int \<times> string) option" where
  "scanf_d s = (let t = dropWhile isspace s;
       u = (if t \<noteq> [] \<and> hd t \<in> set ''+-'' then tl t else t);
       ds = takeWhile isdigit u in
     if ds = [] then None else Some (atoi t, dropWhile isdigit u))"

fun show_nat :: "nat \<Rightarrow> string" where
  "show_nat n = (if n < 10 then [char_of (48 + n)] else show_nat (n div 10) @ [char_of (48 + n mod 10)])"

declare show_nat.simps [simp del]

definition show_int :: "int \<Rightarrow> string" where
  "show_int i = (if i < 0 then CHR ''-'' # show_nat (nat (- i)) else show_nat (nat i))"

lemma digit_char:
  assumes "n < 10"
  shows "isdigit (char_of (48 + n))" "digit_val (char_of (48 + n)) = n"
  using assms by (simp_all add: isdigit_def digit_val_def)

lemma isdigit_not_space: "isdigit c \<Longrightarrow> \<not> isspace c \<and> c \<noteq> CHR ''-'' \<and> c \<noteq> CHR ''+'' \<and> c \<noteq> nul"
  by (auto simp: isdigit_def isspace_def)

lemma digits_val_snoc: "digits_val (ds @ [c]) = 10 * digits_val ds + digit_val c"
  by (simp add: digits_val_def)

lemma show_nat_nonempty: "show_nat n \<noteq> []"
  by (subst show_nat.simps) simp

lemma show_nat_digits: "c \<in> set (show_nat n) \<Longrightarrow> isdigit c"
proof (induction n rule: show_nat.induct)
  case (1 n)
  then show ?case
    by (cases "n < 10") (auto simp: show_nat.simps [of n] digit_char)
qed

lemma digits_val_show_nat: "digits_val (show_nat n) = n"
proof (induction n rule: show_nat.induct)
  case (1 n)
  show ?case
  proof (cases "n < 10")
    case True
    then show ?thesis by (simp add: show_nat.simps [of n] digits_val_def digit_char)
  next
    case False
    with "1.IH" have "digits_val (show_nat (n div 10)) = n div 10" by simp
    with False show ?thesis
      by (simp add: show_nat.simps [of n] digits_val_snoc digit_char)
  qed
qed

lemma takeWhile_show_nat: "\<forall>c \<in> set (take 1 r). \<not> isdigit c \<Longrightarrow> takeWhile isdigit (show_nat n @ r) = show_nat n"
  by (cases r) (auto simp: takeWhile_append2 takeWhile_all show_nat_digits)

lemma show_nat_hd: "\<exists>d u. show_nat n = d # u \<and> isdigit d"
  using show_nat_nonempty [of n] show_nat_digits [of _ n] by (cases "show_nat n") auto

text \<open>Printing a number with \<open>%d\<close> and reading it back with \<open>atoi\<close> gives the number.\<close>

lemma atoi_show_int:
  assumes "- 2147483648 \<le> i" "i \<le> 2147483647" "\<forall>c \<in> set (take 1 r). \<not> isdigit c"
  shows "atoi (show_int i @ r) = i"
proof -
  obtain d u where d: "show_nat (nat i) = d # u" "isdigit d" using show_nat_hd by blast
  show ?thesis
  proof (cases "i < 0")
    case True
    with assms show ?thesis
      by (simp add: atoi_def show_int_def isspace_def takeWhile_show_nat digits_val_show_nat clamp32_def)
  next
    case False
    have "dropWhile isspace (show_nat (nat i) @ r) = show_nat (nat i) @ r"
      using d isdigit_not_space [OF d(2)] by simp
    moreover have "d \<noteq> CHR ''-''" "d \<noteq> CHR ''+''" using isdigit_not_space [OF d(2)] by auto
    moreover have "takeWhile isdigit (show_nat (nat i) @ r) = show_nat (nat i)"
      using assms(3) by (rule takeWhile_show_nat)
    ultimately have "atoi (show_int i @ r) = clamp32 (int (digits_val (show_nat (nat i))))"
      using False d(1) by (simp add: atoi_def show_int_def Let_def)
    with False assms show ?thesis by (simp add: digits_val_show_nat clamp32_def)
  qed
qed

lemma length_show_nat: "n < 10 ^ k \<Longrightarrow> 0 < k \<Longrightarrow> length (show_nat n) \<le> k"
proof (induction n arbitrary: k rule: show_nat.induct)
  case (1 n)
  show ?case
  proof (cases "n < 10")
    case True
    with "1.prems" show ?thesis by (simp add: show_nat.simps [of n])
  next
    case False
    with "1.prems" obtain j where j: "k = Suc j" "0 < j" by (cases k; cases "k - 1") auto
    with "1.prems" have "n div 10 < 10 ^ j" by (simp add: less_mult_imp_div_less mult.commute)
    with "1.IH" [OF False _ j(2)] j False show ?thesis by (simp add: show_nat.simps [of n])
  qed
qed

lemma show_int_chars:
  assumes "c \<in> set (show_int i)"
  shows "c \<noteq> nl \<and> c \<noteq> nul \<and> \<not> isspace c"
proof -
  from assms have "isdigit c \<or> c = CHR ''-''"
    using show_nat_digits by (auto simp: show_int_def split: if_splits)
  moreover have "\<not> isdigit nl" by (simp add: isdigit_def)
  ultimately show ?thesis using isdigit_not_space [of c] by (auto simp: isspace_def)
qed

lemma length_show_int:
  assumes "- 2147483648 \<le> i" "i \<le> 2147483647"
  shows "length (show_int i) \<le> 11"
proof -
  have "nat i < 10 ^ 10" "nat (- i) < 10 ^ 10" using assms by auto
  from this [THEN length_show_nat] show ?thesis by (simp add: show_int_def)
qed

lemma scanf_d_show_int:
  assumes "- 2147483648 \<le> i" "i \<le> 2147483647"
  shows "\<exists>r. scanf_d (CHR '' '' # show_int i @ [nl]) = Some (i, r)"
proof -
  obtain d u where d: "show_nat (nat (abs i)) = d # u" "isdigit d" using show_nat_hd by blast
  have dd: "\<not> isspace d" "d \<noteq> CHR ''-''" "d \<noteq> CHR ''+''" using isdigit_not_space [OF d(2)] by auto
  have eq: "show_int i @ [nl] = (if i < 0 then CHR ''-'' # d # u @ [nl] else d # u @ [nl])"
    using d(1) by (cases "i < 0") (simp_all add: show_int_def)
  have sp: "dropWhile isspace (CHR '' '' # show_int i @ [nl]) = show_int i @ [nl]"
    using dd(1) unfolding eq by (simp add: isspace_def)
  have "atoi (show_int i @ [nl]) = i" using assms by (rule atoi_show_int) (simp add: isdigit_def)
  then show ?thesis using sp d(2) dd unfolding eq by (auto simp: scanf_d_def Let_def)
qed

section \<open>Copying and searching strings\<close>

text \<open>
  \<open>strncpy(dst, src, n)\<close> writes exactly \<open>n\<close> bytes: the string, cut at \<open>n\<close>, and null bytes up to
  \<open>n\<close>; \<open>strcpy\<close> writes the string and one null byte.
\<close>

definition strncpy_bytes :: "nat \<Rightarrow> string \<Rightarrow> string" where
  "strncpy_bytes n s = take n (cstr s) @ replicate (n - length (cstr s)) nul"

definition strcpy_bytes :: "string \<Rightarrow> string" where
  "strcpy_bytes s = cstr s @ [nul]"

lemma length_strncpy_bytes [simp]: "length (strncpy_bytes n s) = n"
  by (simp add: strncpy_bytes_def)

text \<open>Writing bytes into a flat memory at an offset.\<close>

definition poke :: "nat \<Rightarrow> string \<Rightarrow> string \<Rightarrow> string" where
  "poke off bs mem = take off mem @ bs @ drop (off + length bs) mem"

lemma length_poke [simp]: "off + length bs \<le> length mem \<Longrightarrow> length (poke off bs mem) = length mem"
  by (simp add: poke_def)

lemma nth_poke:
  assumes "off + length bs \<le> length mem" "k < length mem"
  shows "poke off bs mem ! k = (if off \<le> k \<and> k < off + length bs then bs ! (k - off) else mem ! k)"
  using assms by (auto simp: poke_def nth_append min_def)

text \<open>\<open>strstr(hay, needle) != NULL\<close>.\<close>

fun strstr :: "string \<Rightarrow> string \<Rightarrow> bool" where
  "strstr [] needle = (needle = [])"
| "strstr (c # hay) needle = (prefix needle (c # hay) \<or> strstr hay needle)"

lemma strstr_iff_sublist: "strstr hay needle \<longleftrightarrow> sublist needle hay"
  by (induction hay) (auto simp: sublist_Cons_right)

text \<open>The rest of a string from the first place where a word occurs.\<close>

fun strstr_from :: "string \<Rightarrow> string \<Rightarrow> string option" where
  "strstr_from hay needle = (if prefix needle hay then Some hay
     else case hay of [] \<Rightarrow> None | _ # t \<Rightarrow> strstr_from t needle)"

declare strstr_from.simps [simp del]

lemma strstr_from_skip:
  assumes "\<And>k. k < length a \<Longrightarrow> \<not> prefix needle (drop k a @ needle @ r)"
  shows "strstr_from (a @ needle @ r) needle = Some (needle @ r)"
  using assms
proof (induction a)
  case Nil
  then show ?case by (subst strstr_from.simps) simp
next
  case (Cons c a)
  from Cons.prems [of 0] have "\<not> prefix needle (c # a @ needle @ r)" by simp
  moreover have "strstr_from (a @ needle @ r) needle = Some (needle @ r)"
    using Cons.prems [of "Suc _"] by (intro Cons.IH) auto
  ultimately show ?case by (subst strstr_from.simps) simp
qed

text \<open>\<open>sprintf\<close> into an array of \<open>n\<close> bytes, and \<open>strncmp(a, b, n) == 0\<close>.\<close>

definition sprintf :: "nat \<Rightarrow> string \<Rightarrow> string res" where
  "sprintf n s = (if length s < n then Inr s else Inl BufferOverflow)"

definition strncmp_eq :: "string \<Rightarrow> string \<Rightarrow> nat \<Rightarrow> bool" where
  "strncmp_eq a b n \<longleftrightarrow> take n a = take n b"

lemma sprintf_fits [simp]: "length s < n \<Longrightarrow> sprintf n s = Inr s"
  by (simp add: sprintf_def)

section \<open>Trimming\<close>

definition ltrim :: "string \<Rightarrow> string" where
  "ltrim s = dropWhile isspace s"

definition rtrim :: "string \<Rightarrow> string" where
  "rtrim s = rev (dropWhile isspace (rev s))"

lemma rtrim_snoc_space: "isspace c \<Longrightarrow> rtrim (s @ [c]) = rtrim s"
  by (simp add: rtrim_def)

lemma rtrim_id: "s = [] \<or> \<not> isspace (last s) \<Longrightarrow> rtrim s = s"
  by (cases s rule: rev_cases) (auto simp: rtrim_def)

lemma ltrim_id: "s = [] \<or> \<not> isspace (hd s) \<Longrightarrow> ltrim s = s"
  by (cases s) (auto simp: ltrim_def)

lemma ltrim_space: "isspace c \<Longrightarrow> ltrim (c # s) = ltrim s"
  by (simp add: ltrim_def)

end
