(* ===== verification/Os.thy ===== *)
theory Os
  imports Clib
begin

text \<open>
  The operating system as the programs see it: files, the commands they start, what they print and
  the time they sleep. Programs that are not part of the sources (\<open>/usr/bin/service\<close>, the scripts of
  \<open>cgi-bin\<close>, \<open>cp\<close>, \<open>uptime\<close>) are a parameter of type \<open>shell\<close>: given a command line, the time and
  the files, it yields the text on its standard output and the files it leaves, or \<open>None\<close> when
  \<open>popen\<close> itself fails and returns a null pointer.
\<close>

type_synonym files = "string \<Rightarrow> string option"
type_synonym shell = "string \<Rightarrow> nat \<Rightarrow> files \<Rightarrow> (string \<times> files) option"

text \<open>
  A file or device that is written to: of a write of \<open>n\<close> bytes at position \<open>pos\<close> it takes \<open>taken pos n\<close> bytes, fewer
  than \<open>n\<close> when the write is short and none when it fails.
\<close>

type_synonym sink = "nat \<Rightarrow> nat \<Rightarrow> nat"

record os =
  files :: files
  wperm :: "string \<Rightarrow> bool"   \<comment> \<open>paths that can be opened for writing\<close>
  cmds :: "string list"       \<comment> \<open>command lines started so far, oldest first\<close>
  out :: string               \<comment> \<open>standard output\<close>
  clock :: nat                \<comment> \<open>seconds slept so far\<close>

definition popen :: "shell \<Rightarrow> string \<Rightarrow> 'a os_scheme \<Rightarrow> string option \<times> 'a os_scheme" where
  "popen sh cmd w = (let w1 = w\<lparr>cmds := cmds w @ [cmd]\<rparr> in
     case sh cmd (clock w) (files w) of
       None \<Rightarrow> (None, w1)
     | Some (txt, fs) \<Rightarrow> (Some txt, w1\<lparr>files := fs\<rparr>))"

text \<open>\<open>fp = popen(cmd, "r"); pclose(fp);\<close> with no test for a null pointer in between.\<close>

definition system_wait :: "shell \<Rightarrow> string \<Rightarrow> 'a os_scheme \<Rightarrow> 'a os_scheme res" where
  "system_wait sh cmd w = (case popen sh cmd w of
      (None, _) \<Rightarrow> Inl NullPointer
    | (Some _, w1) \<Rightarrow> Inr w1)"

definition puts :: "string \<Rightarrow> 'a os_scheme \<Rightarrow> 'a os_scheme" where
  "puts s w = w\<lparr>out := out w @ s\<rparr>"

definition sleep :: "nat \<Rightarrow> 'a os_scheme \<Rightarrow> 'a os_scheme" where
  "sleep n w = w\<lparr>clock := clock w + n\<rparr>"

definition write_file :: "string \<Rightarrow> string \<Rightarrow> 'a os_scheme \<Rightarrow> 'a os_scheme" where
  "write_file path txt w = w\<lparr>files := (files w)(path \<mapsto> txt)\<rparr>"

text \<open>\<open>printf(buf)\<close>: the data itself is the format, so a conversion in it has no argument to print.\<close>

fun printf_fmt :: "string \<Rightarrow> string res" where
  "printf_fmt [] = Inr []"
| "printf_fmt (c # s) =
     (if c \<noteq> CHR ''%'' then map_sum id (Cons c) (printf_fmt s)
      else case s of
        [] \<Rightarrow> Inl FormatFault
      | d # t \<Rightarrow> if d = CHR ''%'' then map_sum id (Cons d) (printf_fmt t) else Inl FormatFault)"

lemma printf_fmt_plain: "CHR ''%'' \<notin> set s \<Longrightarrow> printf_fmt s = Inr s"
  by (induction s) auto

section \<open>Frame facts\<close>

lemma popen_cmds [frame]: "popen sh cmd w = (r, w') \<Longrightarrow> cmds w' = cmds w @ [cmd]"
  by (auto simp: popen_def Let_def split: option.splits prod.splits)

lemma popen_clock [frame]: "popen sh cmd w = (r, w') \<Longrightarrow> clock w' = clock w"
  by (auto simp: popen_def Let_def split: option.splits prod.splits)

lemma popen_out [frame]: "popen sh cmd w = (r, w') \<Longrightarrow> out w' = out w"
  by (auto simp: popen_def Let_def split: option.splits prod.splits)

lemma popen_wperm [frame]: "popen sh cmd w = (r, w') \<Longrightarrow> wperm w' = wperm w"
  by (auto simp: popen_def Let_def split: option.splits prod.splits)

lemma popen_more [frame]: "popen sh cmd w = (r, w') \<Longrightarrow> os.more w' = os.more w"
  by (auto simp: popen_def Let_def split: option.splits prod.splits)

lemma system_wait_cmds [frame]: "system_wait sh cmd w = Inr w' \<Longrightarrow> cmds w' = cmds w @ [cmd]"
  by (cases "popen sh cmd w"; cases "fst (popen sh cmd w)") (auto simp: system_wait_def dest: popen_cmds)

lemma popen_SomeI:
  "sh cmd (clock w) (files w) = Some (txt, fs) \<Longrightarrow>
   popen sh cmd w = (Some txt, w\<lparr>cmds := cmds w @ [cmd], files := fs\<rparr>)"
  by (simp add: popen_def Let_def)

lemma puts_simps [simp]:
  "files (puts s w) = files w" "wperm (puts s w) = wperm w" "cmds (puts s w) = cmds w"
  "out (puts s w) = out w @ s" "clock (puts s w) = clock w" "os.more (puts s w) = os.more w"
  by (simp_all add: puts_def)

lemma sleep_simps [simp]:
  "files (sleep n w) = files w" "wperm (sleep n w) = wperm w" "cmds (sleep n w) = cmds w"
  "out (sleep n w) = out w" "clock (sleep n w) = clock w + n" "os.more (sleep n w) = os.more w"
  by (simp_all add: sleep_def)

lemma write_file_simps [simp]:
  "files (write_file p t w) = (files w)(p \<mapsto> t)" "wperm (write_file p t w) = wperm w"
  "cmds (write_file p t w) = cmds w" "out (write_file p t w) = out w"
  "clock (write_file p t w) = clock w" "os.more (write_file p t w) = os.more w"
  by (simp_all add: write_file_def)

lemma puts_puts: "puts t (puts s w) = puts (s @ t) w"
  by (simp add: puts_def)

text \<open>
  A shell that answers every command, the documented behaviour of \<open>popen\<close> when a process can be
  started.
\<close>

definition shell_up :: "shell \<Rightarrow> bool" where
  "shell_up sh \<longleftrightarrow> (\<forall>cmd t fs. sh cmd t fs \<noteq> None)"

lemma shell_up_popen:
  assumes "shell_up sh"
  obtains ans w' where "popen sh cmd w = (Some ans, w')"
proof -
  from assms obtain a fs where "sh cmd (clock w) (files w) = Some (a, fs)"
    unfolding shell_up_def by (metis not_None_eq surj_pair)
  then show thesis by (rule that [OF popen_SomeI])
qed

lemma shell_up_system_wait: "shell_up sh \<Longrightarrow> \<exists>w'. system_wait sh cmd w = Inr w'"
  by (erule shell_up_popen [where cmd = cmd and w = w]) (auto simp: system_wait_def)

text \<open>A command that answers one line and changes no file.\<close>

definition answers :: "shell \<Rightarrow> string \<Rightarrow> string \<Rightarrow> bool" where
  "answers sh cmd v \<longleftrightarrow> (\<forall>t fs. sh cmd t fs = Some (v @ [nl], fs))"

lemma popen_answers: "answers sh cmd v \<Longrightarrow> popen sh cmd w = (Some (v @ [nl]), w\<lparr>cmds := cmds w @ [cmd]\<rparr>)"
  by (simp add: popen_def Let_def answers_def)

lemma scanf_word_line:
  "v \<noteq> [] \<Longrightarrow> \<forall>c \<in> set v. \<not> isspace c \<Longrightarrow> length v < n \<Longrightarrow> scanf_s n (v @ [nl]) = Inr (Some (v, [nl]))"
  using scan_tok_word_sp [of v nl "[]"] by (simp add: scanf_s_def isspace_def)

end
