(* ===== verification/Tty.thy ===== *)
theory Tty
  imports Os
begin

text \<open>
  Terminal settings, as the programs that talk to the modem make them: \<open>struct termios\<close> with the flags of the
  Linux headers. A field that the code leaves as it was on the stack has no value.
\<close>

unbundle bit_operations_syntax

record termios =
  c_iflag :: "32 word option"
  c_oflag :: "32 word option"
  c_cflag :: "32 word option"
  c_lflag :: "32 word option"
  c_vmin :: "nat option"
  c_vtime :: "nat option"

definition CS8 :: "32 word" where "CS8 = 0x30"
definition CSIZE :: "32 word" where "CSIZE = 0x30"
definition CSTOPB :: "32 word" where "CSTOPB = 0x40"
definition CREAD :: "32 word" where "CREAD = 0x80"
definition PARENB :: "32 word" where "PARENB = 0x100"
definition CLOCAL :: "32 word" where "CLOCAL = 0x800"
definition CRTSCTS :: "32 word" where "CRTSCTS = 0x80000000"
definition CBAUD :: "32 word" where "CBAUD = 0x100F"

definition IGNPAR :: "32 word" where "IGNPAR = 0x4"
definition PARMRK :: "32 word" where "PARMRK = 0x8"
definition INLCR :: "32 word" where "INLCR = 0x40"
definition IGNCR :: "32 word" where "IGNCR = 0x80"
definition ICRNL :: "32 word" where "ICRNL = 0x100"
definition IXON :: "32 word" where "IXON = 0x400"
definition IXANY :: "32 word" where "IXANY = 0x800"
definition IXOFF :: "32 word" where "IXOFF = 0x1000"

definition OPOST :: "32 word" where "OPOST = 0x1"

definition ISIG :: "32 word" where "ISIG = 0x1"
definition ICANON :: "32 word" where "ICANON = 0x2"
definition ECHO :: "32 word" where "ECHO = 0x8"
definition ECHOE :: "32 word" where "ECHOE = 0x10"

definition O_RDWR :: "32 word" where "O_RDWR = 0x2"
definition O_NONBLOCK :: "32 word" where "O_NONBLOCK = 0x800"
definition FASYNC :: "32 word" where "FASYNC = 0x2000"

lemmas tty_flags = CS8_def CSIZE_def CSTOPB_def CREAD_def PARENB_def CLOCAL_def CRTSCTS_def CBAUD_def IGNPAR_def PARMRK_def
  INLCR_def IGNCR_def ICRNL_def IXON_def IXANY_def IXOFF_def OPOST_def ISIG_def ICANON_def ECHO_def ECHOE_def
  O_RDWR_def O_NONBLOCK_def FASYNC_def

text \<open>The flag of a speed, by its number of bits per second.\<close>

definition speed_flags :: "(int \<times> 32 word) list" where
  "speed_flags = [(0, 0), (50, 1), (75, 2), (110, 3), (134, 4), (150, 5), (200, 6), (300, 7), (600, 8), (1200, 9),
     (1800, 0xA), (2400, 0xB), (4800, 0xC), (9600, 0xD), (19200, 0xE), (38400, 0xF), (57600, 0x1001), (115200, 0x1002),
     (230400, 0x1003)]"

definition B115200 :: "32 word" where "B115200 = 0x1002"

text \<open>\<open>cfsetispeed\<close> and \<open>cfsetospeed\<close> for a speed other than zero.\<close>

definition cfsetspeed :: "32 word \<Rightarrow> termios \<Rightarrow> termios" where
  "cfsetspeed speed t = t\<lparr>c_cflag := map_option (\<lambda>f. (f AND NOT CBAUD) OR speed) (c_cflag t)\<rparr>"

definition indeterminate :: termios where
  "indeterminate = \<lparr>c_iflag = None, c_oflag = None, c_cflag = None, c_lflag = None, c_vmin = None, c_vtime = None\<rparr>"

definition zero_termios :: termios where
  "zero_termios = \<lparr>c_iflag = Some 0, c_oflag = Some 0, c_cflag = Some 0, c_lflag = Some 0, c_vmin = Some 0, c_vtime = Some 0\<rparr>"

lemma speed_flag_115200: "map_of speed_flags 115200 = Some B115200"
  by (simp add: speed_flags_def B115200_def)

end
