(* ===== verification/Md5.thy ===== *)
theory Md5
  imports Clib
begin

unbundle bit_operations_syntax

text \<open>
  \<open>www/cgi-src/md5.c\<close>: the message digest behind the session identifiers. The context structure,
  the round macros, the unrolled \<open>Transform\<close>, the streaming \<open>MD5Update\<close> and the padding \<open>MD5Final\<close>
  are translated on 32-bit words (\<open>UINT4\<close> is \<open>unsigned long\<close>, 32 bits on the ARM target). The
  reference definition \<open>md5_spec\<close> pads the whole message first and folds the compression function
  over its 64-byte blocks; the streaming code computes it for every way of cutting the message.
\<close>

type_synonym word32 = "32 word"
type_synonym byte = "8 word"
type_synonym md_state = "word32 \<times> word32 \<times> word32 \<times> word32"

record MD5_CTX =
  md_i0 :: word32
  md_i1 :: word32
  md_buf :: md_state
  md_in :: "byte list"
  md_digest :: "byte list"

section \<open>The code\<close>

definition md5_PADDING :: "byte list" where
  "md5_PADDING = 0x80 # replicate 63 0"

definition md_F :: "word32 \<Rightarrow> word32 \<Rightarrow> word32 \<Rightarrow> word32" where
  "md_F x y z = (x AND y) OR (NOT x AND z)"

definition md_G :: "word32 \<Rightarrow> word32 \<Rightarrow> word32 \<Rightarrow> word32" where
  "md_G x y z = (x AND z) OR (y AND NOT z)"

definition md_H :: "word32 \<Rightarrow> word32 \<Rightarrow> word32 \<Rightarrow> word32" where
  "md_H x y z = x XOR y XOR z"

definition md_I :: "word32 \<Rightarrow> word32 \<Rightarrow> word32 \<Rightarrow> word32" where
  "md_I x y z = y XOR (x OR NOT z)"

definition ROTATE_LEFT :: "word32 \<Rightarrow> nat \<Rightarrow> word32" where
  "ROTATE_LEFT x n = push_bit n x OR drop_bit (32 - n) x"

definition FF :: "word32 \<Rightarrow> word32 \<Rightarrow> word32 \<Rightarrow> word32 \<Rightarrow> word32 \<Rightarrow> nat \<Rightarrow> word32 \<Rightarrow> word32" where
  "FF a b c d x s ac = ROTATE_LEFT (a + (md_F b c d + x + ac)) s + b"

definition GG :: "word32 \<Rightarrow> word32 \<Rightarrow> word32 \<Rightarrow> word32 \<Rightarrow> word32 \<Rightarrow> nat \<Rightarrow> word32 \<Rightarrow> word32" where
  "GG a b c d x s ac = ROTATE_LEFT (a + (md_G b c d + x + ac)) s + b"

definition HH :: "word32 \<Rightarrow> word32 \<Rightarrow> word32 \<Rightarrow> word32 \<Rightarrow> word32 \<Rightarrow> nat \<Rightarrow> word32 \<Rightarrow> word32" where
  "HH a b c d x s ac = ROTATE_LEFT (a + (md_H b c d + x + ac)) s + b"

definition II :: "word32 \<Rightarrow> word32 \<Rightarrow> word32 \<Rightarrow> word32 \<Rightarrow> word32 \<Rightarrow> nat \<Rightarrow> word32 \<Rightarrow> word32" where
  "II a b c d x s ac = ROTATE_LEFT (a + (md_I b c d + x + ac)) s + b"

definition Transform :: "md_state \<Rightarrow> word32 list \<Rightarrow> md_state" where
  "Transform st x = (case st of (b0, b1, b2, b3) \<Rightarrow>
     (let a = b0; b = b1; c = b2; d = b3;
       a = FF a b c d (x ! 0) 7 3614090360;
       d = FF d a b c (x ! 1) 12 3905402710;
       c = FF c d a b (x ! 2) 17 606105819;
       b = FF b c d a (x ! 3) 22 3250441966;
       a = FF a b c d (x ! 4) 7 4118548399;
       d = FF d a b c (x ! 5) 12 1200080426;
       c = FF c d a b (x ! 6) 17 2821735955;
       b = FF b c d a (x ! 7) 22 4249261313;
       a = FF a b c d (x ! 8) 7 1770035416;
       d = FF d a b c (x ! 9) 12 2336552879;
       c = FF c d a b (x ! 10) 17 4294925233;
       b = FF b c d a (x ! 11) 22 2304563134;
       a = FF a b c d (x ! 12) 7 1804603682;
       d = FF d a b c (x ! 13) 12 4254626195;
       c = FF c d a b (x ! 14) 17 2792965006;
       b = FF b c d a (x ! 15) 22 1236535329;
       a = GG a b c d (x ! 1) 5 4129170786;
       d = GG d a b c (x ! 6) 9 3225465664;
       c = GG c d a b (x ! 11) 14 643717713;
       b = GG b c d a (x ! 0) 20 3921069994;
       a = GG a b c d (x ! 5) 5 3593408605;
       d = GG d a b c (x ! 10) 9 38016083;
       c = GG c d a b (x ! 15) 14 3634488961;
       b = GG b c d a (x ! 4) 20 3889429448;
       a = GG a b c d (x ! 9) 5 568446438;
       d = GG d a b c (x ! 14) 9 3275163606;
       c = GG c d a b (x ! 3) 14 4107603335;
       b = GG b c d a (x ! 8) 20 1163531501;
       a = GG a b c d (x ! 13) 5 2850285829;
       d = GG d a b c (x ! 2) 9 4243563512;
       c = GG c d a b (x ! 7) 14 1735328473;
       b = GG b c d a (x ! 12) 20 2368359562;
       a = HH a b c d (x ! 5) 4 4294588738;
       d = HH d a b c (x ! 8) 11 2272392833;
       c = HH c d a b (x ! 11) 16 1839030562;
       b = HH b c d a (x ! 14) 23 4259657740;
       a = HH a b c d (x ! 1) 4 2763975236;
       d = HH d a b c (x ! 4) 11 1272893353;
       c = HH c d a b (x ! 7) 16 4139469664;
       b = HH b c d a (x ! 10) 23 3200236656;
       a = HH a b c d (x ! 13) 4 681279174;
       d = HH d a b c (x ! 0) 11 3936430074;
       c = HH c d a b (x ! 3) 16 3572445317;
       b = HH b c d a (x ! 6) 23 76029189;
       a = HH a b c d (x ! 9) 4 3654602809;
       d = HH d a b c (x ! 12) 11 3873151461;
       c = HH c d a b (x ! 15) 16 530742520;
       b = HH b c d a (x ! 2) 23 3299628645;
       a = II a b c d (x ! 0) 6 4096336452;
       d = II d a b c (x ! 7) 10 1126891415;
       c = II c d a b (x ! 14) 15 2878612391;
       b = II b c d a (x ! 5) 21 4237533241;
       a = II a b c d (x ! 12) 6 1700485571;
       d = II d a b c (x ! 3) 10 2399980690;
       c = II c d a b (x ! 10) 15 4293915773;
       b = II b c d a (x ! 1) 21 2240044497;
       a = II a b c d (x ! 8) 6 1873313359;
       d = II d a b c (x ! 15) 10 4264355552;
       c = II c d a b (x ! 6) 15 2734768916;
       b = II b c d a (x ! 13) 21 1309151649;
       a = II a b c d (x ! 4) 6 4149444226;
       d = II d a b c (x ! 11) 10 3174756917;
       c = II c d a b (x ! 2) 15 718787259;
       b = II b c d a (x ! 9) 21 3951481745
      in (b0 + a, b1 + b, b2 + c, b3 + d)))"

definition MD5Init :: "MD5_CTX \<Rightarrow> MD5_CTX" where
  "MD5Init ctx = ctx\<lparr>md_i0 := 0, md_i1 := 0,
     md_buf := (0x67452301, 0xefcdab89, 0x98badcfe, 0x10325476)\<rparr>"

text \<open>Words of the input buffer, least significant byte first.\<close>

definition decode_word :: "byte list \<Rightarrow> nat \<Rightarrow> word32" where
  "decode_word bs ii = push_bit 24 (ucast (bs ! (ii + 3))) OR push_bit 16 (ucast (bs ! (ii + 2)))
     OR push_bit 8 (ucast (bs ! (ii + 1))) OR ucast (bs ! ii)"

definition decode_block :: "nat \<Rightarrow> byte list \<Rightarrow> word32 list" where
  "decode_block n bs = map (\<lambda>i. decode_word bs (4 * i)) [0..<n]"

fun update_loop :: "MD5_CTX \<Rightarrow> nat \<Rightarrow> byte list \<Rightarrow> MD5_CTX" where
  "update_loop ctx mdi [] = ctx"
| "update_loop ctx mdi (c # cs) =
     (let ctx = ctx\<lparr>md_in := (md_in ctx)[mdi := c]\<rparr>; mdi = mdi + 1 in
      if mdi = 0x40
      then update_loop (ctx\<lparr>md_buf := Transform (md_buf ctx) (decode_block 16 (md_in ctx))\<rparr>) 0 cs
      else update_loop ctx mdi cs)"

definition MD5Update :: "MD5_CTX \<Rightarrow> byte list \<Rightarrow> word32 \<Rightarrow> MD5_CTX" where
  "MD5Update ctx inBuf inLen =
     (let mdi = unat (drop_bit 3 (md_i0 ctx) AND 0x3F);
          i0 = md_i0 ctx;
          i1 = (if i0 + push_bit 3 inLen < i0 then md_i1 ctx + 1 else md_i1 ctx);
          ctx = ctx\<lparr>md_i0 := i0 + push_bit 3 inLen, md_i1 := i1 + drop_bit 29 inLen\<rparr>
      in update_loop ctx mdi (take (unat inLen) inBuf))"

definition encode_word :: "word32 \<Rightarrow> byte list" where
  "encode_word w = [ucast (w AND 0xFF), ucast (drop_bit 8 w AND 0xFF),
     ucast (drop_bit 16 w AND 0xFF), ucast (drop_bit 24 w AND 0xFF)]"

definition encode_state :: "md_state \<Rightarrow> byte list" where
  "encode_state st = (case st of (a, b, c, d) \<Rightarrow>
     encode_word a @ encode_word b @ encode_word c @ encode_word d)"

definition MD5Final :: "MD5_CTX \<Rightarrow> MD5_CTX" where
  "MD5Final ctx =
     (let in14 = md_i0 ctx; in15 = md_i1 ctx;
          mdi = unat (drop_bit 3 (md_i0 ctx) AND 0x3F);
          padLen = (if mdi < 56 then 56 - mdi else 120 - mdi);
          ctx = MD5Update ctx md5_PADDING (word_of_nat padLen);
          buf = Transform (md_buf ctx) (decode_block 14 (md_in ctx) @ [in14, in15])
      in ctx\<lparr>md_buf := buf, md_digest := encode_state buf\<rparr>)"

section \<open>Reference definition\<close>

definition md5_IV :: md_state where
  "md5_IV = (0x67452301, 0xefcdab89, 0x98badcfe, 0x10325476)"

function absorb :: "md_state \<Rightarrow> byte list \<Rightarrow> md_state \<times> byte list" where
  "absorb st m = (if length m < 64 then (st, m)
     else absorb (Transform st (decode_block 16 (take 64 m))) (drop 64 m))"
  by pat_completeness auto
termination
  by (relation "measure (\<lambda>(st, m). length m)") auto

declare absorb.simps [simp del]

definition pad_len :: "nat \<Rightarrow> nat" where
  "pad_len n = (if n mod 64 < 56 then 56 - n mod 64 else 120 - n mod 64)"

definition md5_pad :: "byte list \<Rightarrow> byte list" where
  "md5_pad m = m @ take (pad_len (length m)) md5_PADDING @
     encode_word (word_of_nat (8 * length m)) @ encode_word (word_of_nat (8 * length m div 2 ^ 32))"

definition md5_spec :: "byte list \<Rightarrow> byte list" where
  "md5_spec m = encode_state (fst (absorb md5_IV (md5_pad m)))"

section \<open>Streaming\<close>

lemma absorb_short [simp]: "length m < 64 \<Longrightarrow> absorb st m = (st, m)"
  by (simp add: absorb.simps)

lemma absorb_block:
  "64 \<le> length m \<Longrightarrow> absorb st m = absorb (Transform st (decode_block 16 (take 64 m))) (drop 64 m)"
  by (subst absorb.simps) simp

lemma absorb_rest_length: "length (snd (absorb st m)) = length m mod 64"
proof (induction st m rule: absorb.induct)
  case (1 st m)
  show ?case
  proof (cases "length m < 64")
    case False
    with "1.IH" have "length (snd (absorb st m)) = (length m - 64) mod 64"
      by (simp add: absorb_block)
    also have "\<dots> = length m mod 64" using False by (simp add: le_mod_geq)
    finally show ?thesis .
  qed simp
qed

lemma absorb_append: "absorb st (m @ xs) = (case absorb st m of (s, r) \<Rightarrow> absorb s (r @ xs))"
proof (induction st m rule: absorb.induct)
  case (1 st m)
  show ?case
  proof (cases "length m < 64")
    case False
    have "absorb st (m @ xs) = absorb (Transform st (decode_block 16 (take 64 m))) (drop 64 m @ xs)"
      using False by (subst absorb_block) auto
    also have "\<dots> = (case absorb (Transform st (decode_block 16 (take 64 m))) (drop 64 m) of
        (s, r) \<Rightarrow> absorb s (r @ xs))" using "1.IH" False by simp
    finally show ?thesis using False by (simp add: absorb_block [of m])
  qed simp
qed

lemma decode_block_take: "4 * n \<le> k \<Longrightarrow> decode_block n (take k bs) = decode_block n bs"
  by (auto simp: decode_block_def decode_word_def)

text \<open>
  The input loop holds the bytes that do not fill a block yet at the front of its buffer; the rest
  of the buffer is stale.
\<close>

lemma update_loop_frame [simp]:
  "md_i0 (update_loop ctx mdi cs) = md_i0 ctx" "md_i1 (update_loop ctx mdi cs) = md_i1 ctx"
  by (induction ctx mdi cs rule: update_loop.induct) (auto simp: Let_def)

lemma update_loop_absorb:
  assumes "length (md_in ctx) = 64" "mdi < 64"
  shows "length (md_in (update_loop ctx mdi cs)) = 64 \<and>
    (case absorb (md_buf ctx) (take mdi (md_in ctx) @ cs) of (s, r) \<Rightarrow>
       md_buf (update_loop ctx mdi cs) = s \<and> take (length r) (md_in (update_loop ctx mdi cs)) = r)"
  using assms
proof (induction ctx mdi cs rule: update_loop.induct)
  case (1 ctx mdi)
  then show ?case by simp
next
  case (2 ctx mdi c cs)
  let ?ctx = "ctx\<lparr>md_in := (md_in ctx)[mdi := c]\<rparr>"
  have tk: "take (Suc mdi) (md_in ?ctx) = take mdi (md_in ctx) @ [c]"
    using "2.prems" by (simp add: take_Suc_update)
  show ?case
  proof (cases "mdi + 1 = 0x40")
    case True
    let ?st = "Transform (md_buf ctx) (decode_block 16 (md_in ?ctx))"
    have full: "take mdi (md_in ctx) @ [c] = md_in ?ctx" using True "2.prems" tk by simp
    have "absorb (md_buf ctx) (take mdi (md_in ctx) @ c # cs) = absorb (md_buf ctx) (md_in ?ctx @ cs)"
      by (simp flip: full)
    also have "\<dots> = absorb ?st cs"
      using "2.prems" by (subst absorb_block) auto
    finally show ?thesis using "2.IH"(1) [OF refl refl True] "2.prems" True by (simp add: Let_def)
  next
    case False
    have "take (Suc mdi) ((md_in ctx)[mdi := c]) = take mdi (md_in ctx) @ [c]" using tk by simp
    then show ?thesis using "2.IH"(2) [OF refl refl False] "2.prems" False by (simp add: Let_def)
  qed
qed

section \<open>The bit counter\<close>

lemma unat_word32_of_nat: "unat (word_of_nat n :: word32) = n mod 2 ^ 32"
  by (simp add: unat_of_nat)

lemma push3_of_nat: "push_bit 3 (word_of_nat n :: word32) = word_of_nat (8 * n)"
  by (simp add: push_bit_eq_mult)

lemma unat_byte_count: "unat (drop_bit 3 w AND 0x3F) = unat w div 8 mod 64" for w :: word32
proof -
  have "drop_bit 3 w AND 0x3F = take_bit 6 (drop_bit 3 w)"
    by (simp add: take_bit_eq_mask mask_eq_exp_minus_1)
  then have "unat (drop_bit 3 w AND 0x3F) = take_bit 6 (drop_bit 3 (unat w))"
    by (simp only: unsigned_take_bit_eq unat_drop_bit_eq)
  then show ?thesis by (simp add: take_bit_eq_mod drop_bit_eq_div)
qed

lemma drop3_counter: "unat (drop_bit 3 (word_of_nat (8 * n) :: word32) AND 0x3F) = n mod 64"
proof -
  have "8 * n mod 2 ^ 32 = 8 * (n mod 2 ^ 29)" using mult_mod_right [of 8 n "2 ^ 29"] by simp
  then show ?thesis
    unfolding unat_byte_count unat_word32_of_nat by (simp add: mod_mod_cancel)
qed

lemma drop29_of_nat:
  "n < 2 ^ 32 \<Longrightarrow> drop_bit 29 (word_of_nat n :: word32) = word_of_nat (8 * n div 2 ^ 32)"
proof -
  assume n: "n < 2 ^ 32"
  have "8 * n div 2 ^ 32 = n div 2 ^ 29" by simp
  moreover have "unat (drop_bit 29 (word_of_nat n :: word32)) = n div 2 ^ 29"
    using n by (simp only: unat_drop_bit_eq) (simp add: drop_bit_eq_div unat_word32_of_nat)
  ultimately show ?thesis using n by (simp only: word_unat_eq_iff unat_word32_of_nat) simp
qed

lemma nat_add_mod_less_iff:
  assumes "a < m" "b < (m :: nat)"
  shows "(a + b) mod m < a \<longleftrightarrow> m \<le> a + b"
proof (cases "a + b < m")
  case False
  then have "(a + b) mod m = a + b - m" using assms by (simp add: mod_if)
  with False assms show ?thesis by simp
qed simp

lemma counter_carry:
  "(word_of_nat a + word_of_nat b < (word_of_nat a :: word32)) \<longleftrightarrow> 2 ^ 32 \<le> a mod 2 ^ 32 + b mod 2 ^ 32"
  unfolding word_less_nat_alt unat_word_ariths unat_word32_of_nat
  by (simp add: nat_add_mod_less_iff)

lemma counter_high:
  assumes "n < 2 ^ 32"
  shows "(if word_of_nat (8 * k) + push_bit 3 (word_of_nat n) < (word_of_nat (8 * k) :: word32)
      then word_of_nat (8 * k div 2 ^ 32) + 1 else word_of_nat (8 * k div 2 ^ 32)) +
      drop_bit 29 (word_of_nat n) = (word_of_nat (8 * (k + n) div 2 ^ 32) :: word32)"
proof -
  let ?c = "if 2 ^ 32 \<le> 8 * k mod 2 ^ 32 + 8 * n mod 2 ^ 32 then 1 else 0 :: nat"
  have "8 * (k + n) div 2 ^ 32 = 8 * k div 2 ^ 32 + 8 * n div 2 ^ 32 + ?c"
    by (simp add: distrib_left div_add1_eq [of "8 * k"]) (auto simp: div_if)
  then have "(word_of_nat (8 * (k + n) div 2 ^ 32) :: word32) =
      word_of_nat (8 * k div 2 ^ 32) + word_of_nat (8 * n div 2 ^ 32) + word_of_nat ?c"
    by (simp only: of_nat_add)
  then show ?thesis unfolding push3_of_nat counter_carry drop29_of_nat [OF assms]
    by (cases "2 ^ 32 \<le> 8 * k mod 2 ^ 32 + 8 * n mod 2 ^ 32")
      (simp_all only: if_True if_False of_nat_1 semiring_1_class.of_nat_simps(1) ac_simps add_0_right add_0_left)
qed

section \<open>What a context represents\<close>

definition md5_repr :: "MD5_CTX \<Rightarrow> byte list \<Rightarrow> bool" where
  "md5_repr ctx m \<longleftrightarrow>
     md_i0 ctx = word_of_nat (8 * length m) \<and> md_i1 ctx = word_of_nat (8 * length m div 2 ^ 32) \<and>
     length (md_in ctx) = 64 \<and>
     (case absorb md5_IV m of (s, r) \<Rightarrow> md_buf ctx = s \<and> take (length r) (md_in ctx) = r)"

lemma md5_repr_init: "length (md_in ctx) = 64 \<Longrightarrow> md5_repr (MD5Init ctx) []"
  by (simp add: md5_repr_def MD5Init_def md5_IV_def)

lemma md5_repr_update:
  assumes "md5_repr ctx m" "length xs < 2 ^ 32"
  shows "md5_repr (MD5Update ctx xs (word_of_nat (length xs))) (m @ xs)"
proof -
  let ?k = "length m" and ?n = "length xs"
  obtain s r where ab: "absorb md5_IV m = (s, r)" by fastforce
  with assms(1) have c: "md_i0 ctx = word_of_nat (8 * ?k)" "md_i1 ctx = word_of_nat (8 * ?k div 2 ^ 32)"
    "length (md_in ctx) = 64" "md_buf ctx = s" "take (length r) (md_in ctx) = r"
    by (auto simp: md5_repr_def)
  have r: "length r = ?k mod 64" using absorb_rest_length [of md5_IV m] ab by simp
  define ctx1 where "ctx1 = ctx\<lparr>md_i0 := word_of_nat (8 * (?k + ?n)), md_i1 := word_of_nat (8 * (?k + ?n) div 2 ^ 32)\<rparr>"
  have i1: "(if md_i0 ctx + push_bit 3 (word_of_nat ?n) < md_i0 ctx then md_i1 ctx + 1 else md_i1 ctx) +
      drop_bit 29 (word_of_nat ?n) = (word_of_nat (8 * (?k + ?n) div 2 ^ 32) :: word32)"
    unfolding c using assms(2) by (rule counter_high)
  have i0: "md_i0 ctx + push_bit 3 (word_of_nat ?n) = word_of_nat (8 * (?k + ?n))"
    unfolding c push3_of_nat by (simp add: distrib_left)
  have mdi: "unat (drop_bit 3 (md_i0 ctx) AND 0x3F) = ?k mod 64"
    unfolding c(1) by (rule drop3_counter)
  have tk: "take (unat (word_of_nat ?n :: word32)) xs = xs"
    using assms(2) by (simp add: unat_word32_of_nat)
  have upd: "MD5Update ctx xs (word_of_nat ?n) = update_loop ctx1 (?k mod 64) xs"
    unfolding MD5Update_def Let_def i0 i1 [unfolded i0] mdi tk ctx1_def by (rule refl)
  have ctx1: "length (md_in ctx1) = 64" "md_buf ctx1 = s" "take (?k mod 64) (md_in ctx1) = r"
    using c r by (simp_all add: ctx1_def)
  show ?thesis
    unfolding md5_repr_def upd absorb_append [of md5_IV m xs] ab
    using update_loop_absorb [of ctx1 "?k mod 64" xs] ctx1 by (simp add: ctx1_def)
qed

section \<open>Padding and the digest\<close>

lemma length_encode_word [simp]: "length (encode_word w) = 4"
  by (simp add: encode_word_def)

lemma ucast_low_byte: "ucast (ucast (x AND 0xFF) :: byte) = take_bit 8 x" for x :: word32
proof -
  have "x AND 0xFF = take_bit 8 x" by (simp add: take_bit_eq_mask mask_eq_exp_minus_1)
  moreover have "ucast (ucast (take_bit 8 x) :: byte) = take_bit 8 x"
    by (rule bit_word_eqI) (auto simp: bit_unsigned_iff bit_take_bit_iff)
  ultimately show ?thesis by (simp only:)
qed

lemma word_from_bytes:
  "push_bit 24 (take_bit 8 (drop_bit 24 w)) OR push_bit 16 (take_bit 8 (drop_bit 16 w)) OR
   push_bit 8 (take_bit 8 (drop_bit 8 w)) OR take_bit 8 w = w" for w :: word32
proof (rule bit_word_eqI)
  fix n :: nat
  assume "n < LENGTH(32)"
  then consider "n < 8" | "8 \<le> n \<and> n < 16" | "16 \<le> n \<and> n < 24" | "24 \<le> n \<and> n < 32" by fastforce
  then show "bit (push_bit 24 (take_bit 8 (drop_bit 24 w)) OR push_bit 16 (take_bit 8 (drop_bit 16 w)) OR
      push_bit 8 (take_bit 8 (drop_bit 8 w)) OR take_bit 8 w) n = bit w n"
    by cases (auto simp: bit_or_iff bit_push_bit_iff bit_take_bit_iff bit_drop_bit_eq)
qed

lemma decode_encode_word: "decode_word (encode_word w) 0 = w"
proof -
  have "decode_word (encode_word w) 0 =
      push_bit 24 (ucast (ucast (drop_bit 24 w AND 0xFF) :: byte)) OR
      push_bit 16 (ucast (ucast (drop_bit 16 w AND 0xFF) :: byte)) OR
      push_bit 8 (ucast (ucast (drop_bit 8 w AND 0xFF) :: byte)) OR ucast (ucast (w AND 0xFF) :: byte)"
    by (simp add: decode_word_def encode_word_def)
  then show ?thesis unfolding ucast_low_byte word_from_bytes .
qed

lemma decode_word_append:
  "decode_word (xs @ ys) (length xs + k) = decode_word ys k"
  by (simp add: decode_word_def nth_append)

lemma decode_block_append:
  assumes "length xs = 4 * n"
  shows "decode_block (n + k) (xs @ ys) = decode_block n xs @ decode_block k ys"
proof -
  have "decode_block (n + k) (xs @ ys) =
      map (\<lambda>i. decode_word (xs @ ys) (4 * i)) [0..<n] @ map (\<lambda>i. decode_word (xs @ ys) (4 * i)) [n..<n + k]"
    unfolding decode_block_def by (simp only: upt_add_eq_append [OF le0] map_append)
  moreover have "map (\<lambda>i. decode_word (xs @ ys) (4 * i)) [0..<n] = decode_block n xs"
    using assms by (auto simp: decode_block_def decode_word_def nth_append)
  moreover have "map (\<lambda>i. decode_word (xs @ ys) (4 * i)) [n..<n + k] = decode_block k ys"
  proof (rule nth_equalityI)
    fix i assume "i < length (map (\<lambda>i. decode_word (xs @ ys) (4 * i)) [n..<n + k])"
    then show "map (\<lambda>i. decode_word (xs @ ys) (4 * i)) [n..<n + k] ! i = decode_block k ys ! i"
      using decode_word_append [of xs ys "4 * i"] assms by (simp add: decode_block_def distrib_left)
  qed (simp add: decode_block_def)
  ultimately show ?thesis by simp
qed

lemma decode_block_words: "decode_block 2 (encode_word a @ encode_word b) = [a, b]"
proof -
  have "decode_word (encode_word a @ encode_word b) 0 = decode_word (encode_word a) 0"
    unfolding decode_word_def by (simp only: nth_append length_encode_word) simp
  moreover have "decode_word (encode_word a @ encode_word b) 4 = decode_word (encode_word b) 0"
    using decode_word_append [of "encode_word a" "encode_word b" 0] by simp
  moreover have "decode_block 2 bs = [decode_word bs 0, decode_word bs 4]" for bs
    by (simp add: decode_block_def numeral_2_eq_2)
  ultimately show ?thesis by (simp only: decode_encode_word)
qed

lemma pad_len_bounds: "0 < pad_len n" "pad_len n \<le> 64"
  by (auto simp: pad_len_def)

lemma pad_len_mod: "(n + pad_len n) mod 64 = 56"
proof -
  define q r where "q = n div 64" and "r = n mod 64"
  then have n: "r < 64" "n = 64 * q + r" by simp_all
  show ?thesis
  proof (cases "r < 56")
    case True
    then have "n + pad_len n = 56 + 64 * q" using n(2) by (simp add: pad_len_def r_def [symmetric])
    then show ?thesis by simp
  next
    case False
    then have "n + pad_len n = 56 + 64 * (q + 1)"
      using n by (simp add: pad_len_def r_def [symmetric])
    then show ?thesis by (simp only: mod_mult_self2) simp
  qed
qed

lemma md5_final_spec:
  assumes "md5_repr ctx m"
  shows "md_digest (MD5Final ctx) = md5_spec m"
proof -
  let ?n = "length m" and ?p = "take (pad_len (length m)) md5_PADDING"
  have lp: "length ?p = pad_len ?n" using pad_len_bounds [of ?n] by (simp add: md5_PADDING_def)
  have mdi: "unat (drop_bit 3 (md_i0 ctx) AND 0x3F) = ?n mod 64"
    using assms drop3_counter [of ?n] by (simp add: md5_repr_def)
  define ctx' where "ctx' = MD5Update ctx md5_PADDING (word_of_nat (pad_len ?n))"
  have len: "length ?p < 2 ^ 32" using lp pad_len_bounds(2) [of ?n] by simp
  have "ctx' = MD5Update ctx ?p (word_of_nat (length ?p))"
    using len unfolding ctx'_def lp MD5Update_def by (simp add: unat_word32_of_nat)
  with md5_repr_update [OF assms len] have rep: "md5_repr ctx' (m @ ?p)" by simp
  obtain s r where ab: "absorb md5_IV (m @ ?p) = (s, r)" by fastforce
  with rep have c: "md_buf ctx' = s" "take (length r) (md_in ctx') = r" by (auto simp: md5_repr_def)
  have r: "length r = 56"
    using absorb_rest_length [of md5_IV "m @ ?p"] ab pad_len_mod [of ?n]
    by (simp only: length_append lp snd_conv)
  let ?w0 = "word_of_nat (8 * ?n) :: word32" and ?w1 = "word_of_nat (8 * ?n div 2 ^ 32) :: word32"
  let ?tail = "encode_word ?w0 @ encode_word ?w1"
  have blk: "decode_block 16 (r @ ?tail) = decode_block 14 (md_in ctx') @ [?w0, ?w1]"
    using decode_block_append [of r 14 2 ?tail] r c(2) decode_block_take [of 14 56 "md_in ctx'"]
    by (simp add: decode_block_words)
  have "absorb md5_IV (md5_pad m) = absorb s (r @ ?tail)"
    unfolding md5_pad_def using absorb_append [of md5_IV "m @ ?p" ?tail] ab by simp
  also have "\<dots> = (Transform s (decode_block 16 (r @ ?tail)), [])"
    using r by (subst absorb_block) auto
  finally have "md5_spec m = encode_state (Transform (md_buf ctx') (decode_block 14 (md_in ctx') @ [?w0, ?w1]))"
    unfolding md5_spec_def blk c(1) by simp
  moreover have "md_i0 ctx = ?w0" "md_i1 ctx = ?w1" using assms by (auto simp: md5_repr_def)
  moreover have "MD5Update ctx md5_PADDING (word_of_nat (if ?n mod 64 < 56 then 56 - ?n mod 64 else 120 - ?n mod 64)) = ctx'"
    by (simp only: ctx'_def pad_len_def)
  ultimately show ?thesis unfolding MD5Final_def Let_def mdi by (simp only:) simp
qed

section \<open>The compression function as tables\<close>

text \<open>
  The reference form of the four rounds: one operation indexed by the step number, with the table of
  additive constants, the shift amounts of each round and the order in which a round reads the block.
\<close>

definition md5_T :: "word32 list" where
  "md5_T = [
     3614090360, 3905402710, 606105819, 3250441966, 4118548399, 1200080426, 2821735955, 4249261313,
     1770035416, 2336552879, 4294925233, 2304563134, 1804603682, 4254626195, 2792965006, 1236535329,
     4129170786, 3225465664, 643717713, 3921069994, 3593408605, 38016083, 3634488961, 3889429448,
     568446438, 3275163606, 4107603335, 1163531501, 2850285829, 4243563512, 1735328473, 2368359562,
     4294588738, 2272392833, 1839030562, 4259657740, 2763975236, 1272893353, 4139469664, 3200236656,
     681279174, 3936430074, 3572445317, 76029189, 3654602809, 3873151461, 530742520, 3299628645,
     4096336452, 1126891415, 2878612391, 4237533241, 1700485571, 2399980690, 4293915773, 2240044497,
     1873313359, 4264355552, 2734768916, 1309151649, 4149444226, 3174756917, 718787259, 3951481745]"

definition md5_shifts :: "nat list list" where
  "md5_shifts = [[7, 12, 17, 22], [5, 9, 14, 20], [4, 11, 16, 23], [6, 10, 15, 21]]"

definition md5_index :: "nat \<Rightarrow> nat" where
  "md5_index i = (if i < 16 then i else if i < 32 then (5 * i + 1) mod 16
     else if i < 48 then (3 * i + 5) mod 16 else 7 * i mod 16)"

definition md5_aux :: "nat \<Rightarrow> word32 \<Rightarrow> word32 \<Rightarrow> word32 \<Rightarrow> word32" where
  "md5_aux i = (if i < 16 then md_F else if i < 32 then md_G else if i < 48 then md_H else md_I)"

definition md5_op :: "word32 list \<Rightarrow> nat \<Rightarrow> md_state \<Rightarrow> md_state" where
  "md5_op x i st = (case st of (a, b, c, d) \<Rightarrow>
     (d, ROTATE_LEFT (a + (md5_aux i b c d + x ! md5_index i + md5_T ! i)) (md5_shifts ! (i div 16) ! (i mod 4)) + b, b, c))"

definition md5_run :: "word32 list \<Rightarrow> nat \<Rightarrow> md_state \<Rightarrow> md_state" where
  "md5_run x i st = fold (md5_op x) [i..<64] st"

definition md5_compress :: "md_state \<Rightarrow> word32 list \<Rightarrow> md_state" where
  "md5_compress st x = (case st of (b0, b1, b2, b3) \<Rightarrow>
     (case md5_run x 0 st of (a, b, c, d) \<Rightarrow> (b0 + a, b1 + b, b2 + c, b3 + d)))"

lemma md5_run_four:
  assumes "i + 4 \<le> 64"
  shows "md5_run x i st =
    md5_run x (i + 4) (md5_op x (i + 3) (md5_op x (i + 2) (md5_op x (i + 1) (md5_op x i st))))"
proof -
  have "[i..<64] = i # (i + 1) # (i + 2) # (i + 3) # [i + 4..<64]"
    using assms by (simp add: upt_conv_Cons numeral_eq_Suc)
  then show ?thesis by (simp only: md5_run_def fold.simps o_apply)
qed

lemma md5_op_rounds:
  "i < 16 \<Longrightarrow> md5_op x i (a, b, c, d) = (d, FF a b c d (x ! md5_index i) (md5_shifts ! (i div 16) ! (i mod 4)) (md5_T ! i), b, c)"
  "16 \<le> i \<Longrightarrow> i < 32 \<Longrightarrow> md5_op x i (a, b, c, d) = (d, GG a b c d (x ! md5_index i) (md5_shifts ! (i div 16) ! (i mod 4)) (md5_T ! i), b, c)"
  "32 \<le> i \<Longrightarrow> i < 48 \<Longrightarrow> md5_op x i (a, b, c, d) = (d, HH a b c d (x ! md5_index i) (md5_shifts ! (i div 16) ! (i mod 4)) (md5_T ! i), b, c)"
  "48 \<le> i \<Longrightarrow> md5_op x i (a, b, c, d) = (d, II a b c d (x ! md5_index i) (md5_shifts ! (i div 16) ! (i mod 4)) (md5_T ! i), b, c)"
  by (simp_all add: md5_op_def md5_aux_def FF_def GG_def HH_def II_def)

lemmas md5_tables = md5_index_def md5_shifts_def md5_T_def

lemma md5_group0: "md5_run x 0 (a, b, c, d) = (let
      a = FF a b c d (x ! 0) 7 3614090360;
      d = FF d a b c (x ! 1) 12 3905402710;
      c = FF c d a b (x ! 2) 17 606105819;
      b = FF b c d a (x ! 3) 22 3250441966
      in md5_run x 4 (a, b, c, d))"
  by (subst md5_run_four) (simp_all add: md5_op_rounds md5_tables Let_def numeral_2_eq_2 [symmetric])

lemma md5_group1: "md5_run x 4 (a, b, c, d) = (let
      a = FF a b c d (x ! 4) 7 4118548399;
      d = FF d a b c (x ! 5) 12 1200080426;
      c = FF c d a b (x ! 6) 17 2821735955;
      b = FF b c d a (x ! 7) 22 4249261313
      in md5_run x 8 (a, b, c, d))"
  by (subst md5_run_four) (simp_all add: md5_op_rounds md5_tables Let_def numeral_2_eq_2 [symmetric])

lemma md5_group2: "md5_run x 8 (a, b, c, d) = (let
      a = FF a b c d (x ! 8) 7 1770035416;
      d = FF d a b c (x ! 9) 12 2336552879;
      c = FF c d a b (x ! 10) 17 4294925233;
      b = FF b c d a (x ! 11) 22 2304563134
      in md5_run x 12 (a, b, c, d))"
  by (subst md5_run_four) (simp_all add: md5_op_rounds md5_tables Let_def numeral_2_eq_2 [symmetric])

lemma md5_group3: "md5_run x 12 (a, b, c, d) = (let
      a = FF a b c d (x ! 12) 7 1804603682;
      d = FF d a b c (x ! 13) 12 4254626195;
      c = FF c d a b (x ! 14) 17 2792965006;
      b = FF b c d a (x ! 15) 22 1236535329
      in md5_run x 16 (a, b, c, d))"
  by (subst md5_run_four) (simp_all add: md5_op_rounds md5_tables Let_def numeral_2_eq_2 [symmetric])

lemma md5_group4: "md5_run x 16 (a, b, c, d) = (let
      a = GG a b c d (x ! 1) 5 4129170786;
      d = GG d a b c (x ! 6) 9 3225465664;
      c = GG c d a b (x ! 11) 14 643717713;
      b = GG b c d a (x ! 0) 20 3921069994
      in md5_run x 20 (a, b, c, d))"
  by (subst md5_run_four) (simp_all add: md5_op_rounds md5_tables Let_def numeral_2_eq_2 [symmetric])

lemma md5_group5: "md5_run x 20 (a, b, c, d) = (let
      a = GG a b c d (x ! 5) 5 3593408605;
      d = GG d a b c (x ! 10) 9 38016083;
      c = GG c d a b (x ! 15) 14 3634488961;
      b = GG b c d a (x ! 4) 20 3889429448
      in md5_run x 24 (a, b, c, d))"
  by (subst md5_run_four) (simp_all add: md5_op_rounds md5_tables Let_def numeral_2_eq_2 [symmetric])

lemma md5_group6: "md5_run x 24 (a, b, c, d) = (let
      a = GG a b c d (x ! 9) 5 568446438;
      d = GG d a b c (x ! 14) 9 3275163606;
      c = GG c d a b (x ! 3) 14 4107603335;
      b = GG b c d a (x ! 8) 20 1163531501
      in md5_run x 28 (a, b, c, d))"
  by (subst md5_run_four) (simp_all add: md5_op_rounds md5_tables Let_def numeral_2_eq_2 [symmetric])

lemma md5_group7: "md5_run x 28 (a, b, c, d) = (let
      a = GG a b c d (x ! 13) 5 2850285829;
      d = GG d a b c (x ! 2) 9 4243563512;
      c = GG c d a b (x ! 7) 14 1735328473;
      b = GG b c d a (x ! 12) 20 2368359562
      in md5_run x 32 (a, b, c, d))"
  by (subst md5_run_four) (simp_all add: md5_op_rounds md5_tables Let_def numeral_2_eq_2 [symmetric])

lemma md5_group8: "md5_run x 32 (a, b, c, d) = (let
      a = HH a b c d (x ! 5) 4 4294588738;
      d = HH d a b c (x ! 8) 11 2272392833;
      c = HH c d a b (x ! 11) 16 1839030562;
      b = HH b c d a (x ! 14) 23 4259657740
      in md5_run x 36 (a, b, c, d))"
  by (subst md5_run_four) (simp_all add: md5_op_rounds md5_tables Let_def numeral_2_eq_2 [symmetric])

lemma md5_group9: "md5_run x 36 (a, b, c, d) = (let
      a = HH a b c d (x ! 1) 4 2763975236;
      d = HH d a b c (x ! 4) 11 1272893353;
      c = HH c d a b (x ! 7) 16 4139469664;
      b = HH b c d a (x ! 10) 23 3200236656
      in md5_run x 40 (a, b, c, d))"
  by (subst md5_run_four) (simp_all add: md5_op_rounds md5_tables Let_def numeral_2_eq_2 [symmetric])

lemma md5_group10: "md5_run x 40 (a, b, c, d) = (let
      a = HH a b c d (x ! 13) 4 681279174;
      d = HH d a b c (x ! 0) 11 3936430074;
      c = HH c d a b (x ! 3) 16 3572445317;
      b = HH b c d a (x ! 6) 23 76029189
      in md5_run x 44 (a, b, c, d))"
  by (subst md5_run_four) (simp_all add: md5_op_rounds md5_tables Let_def numeral_2_eq_2 [symmetric])

lemma md5_group11: "md5_run x 44 (a, b, c, d) = (let
      a = HH a b c d (x ! 9) 4 3654602809;
      d = HH d a b c (x ! 12) 11 3873151461;
      c = HH c d a b (x ! 15) 16 530742520;
      b = HH b c d a (x ! 2) 23 3299628645
      in md5_run x 48 (a, b, c, d))"
  by (subst md5_run_four) (simp_all add: md5_op_rounds md5_tables Let_def numeral_2_eq_2 [symmetric])

lemma md5_group12: "md5_run x 48 (a, b, c, d) = (let
      a = II a b c d (x ! 0) 6 4096336452;
      d = II d a b c (x ! 7) 10 1126891415;
      c = II c d a b (x ! 14) 15 2878612391;
      b = II b c d a (x ! 5) 21 4237533241
      in md5_run x 52 (a, b, c, d))"
  by (subst md5_run_four) (simp_all add: md5_op_rounds md5_tables Let_def numeral_2_eq_2 [symmetric])

lemma md5_group13: "md5_run x 52 (a, b, c, d) = (let
      a = II a b c d (x ! 12) 6 1700485571;
      d = II d a b c (x ! 3) 10 2399980690;
      c = II c d a b (x ! 10) 15 4293915773;
      b = II b c d a (x ! 1) 21 2240044497
      in md5_run x 56 (a, b, c, d))"
  by (subst md5_run_four) (simp_all add: md5_op_rounds md5_tables Let_def numeral_2_eq_2 [symmetric])

lemma md5_group14: "md5_run x 56 (a, b, c, d) = (let
      a = II a b c d (x ! 8) 6 1873313359;
      d = II d a b c (x ! 15) 10 4264355552;
      c = II c d a b (x ! 6) 15 2734768916;
      b = II b c d a (x ! 13) 21 1309151649
      in md5_run x 60 (a, b, c, d))"
  by (subst md5_run_four) (simp_all add: md5_op_rounds md5_tables Let_def numeral_2_eq_2 [symmetric])

lemma md5_group15: "md5_run x 60 (a, b, c, d) = (let
      a = II a b c d (x ! 4) 6 4149444226;
      d = II d a b c (x ! 11) 10 3174756917;
      c = II c d a b (x ! 2) 15 718787259;
      b = II b c d a (x ! 9) 21 3951481745
      in md5_run x 64 (a, b, c, d))"
  by (subst md5_run_four) (simp_all add: md5_op_rounds md5_tables Let_def numeral_2_eq_2 [symmetric])

lemmas md5_run_groups = md5_group0 md5_group1 md5_group2 md5_group3 md5_group4 md5_group5 md5_group6 md5_group7 md5_group8 md5_group9 md5_group10 md5_group11 md5_group12 md5_group13 md5_group14 md5_group15

lemma md5_run_end: "md5_run x 64 st = st"
  by (simp add: md5_run_def)

lemma push_Let: "Let v (\<lambda>y. h (f y)) = h (Let v f)"
  by (simp add: Let_def)

section \<open>The digest as an interface\<close>

text \<open>
  What a client of a streaming digest relies on: a context represents the bytes given to it so far,
  and the digest depends on these bytes only.
\<close>

locale message_digest =
  fixes init :: "'c \<Rightarrow> 'c"
    and update :: "'c \<Rightarrow> byte list \<Rightarrow> 'c"
    and final :: "'c \<Rightarrow> byte list"
    and repr :: "'c \<Rightarrow> byte list \<Rightarrow> bool"
    and ok :: "'c \<Rightarrow> bool"
    and digest :: "byte list \<Rightarrow> byte list"
  assumes repr_init: "ok c \<Longrightarrow> repr (init c) []"
    and repr_update: "repr c m \<Longrightarrow> length xs < 2 ^ 32 \<Longrightarrow> repr (update c xs) (m @ xs)"
    and final_digest: "repr c m \<Longrightarrow> final c = digest m"
begin

lemma repr_updates:
  "repr c m \<Longrightarrow> \<forall>p \<in> set ps. length p < 2 ^ 32 \<Longrightarrow> repr (foldl update c ps) (m @ concat ps)"
proof (induction ps arbitrary: c m)
  case Nil
  then show ?case by simp
next
  case (Cons p ps)
  then have "repr (update c p) (m @ p)" by (simp add: repr_update)
  from Cons.IH [OF this] Cons.prems show ?case by simp
qed

lemma digest_of_parts:
  assumes "ok c" "\<forall>p \<in> set ps. length p < 2 ^ 32"
  shows "final (foldl update (init c) ps) = digest (concat ps)"
  using repr_updates [OF repr_init [OF assms(1)] assms(2)] by (simp add: final_digest)

end

interpretation md5: message_digest MD5Init "\<lambda>c xs. MD5Update c xs (word_of_nat (length xs))"
  "\<lambda>c. md_digest (MD5Final c)" md5_repr "\<lambda>c. length (md_in c) = 64" md5_spec
  by unfold_locales (simp_all add: md5_repr_init md5_repr_update md5_final_spec)

lemma length_encode_state [simp]: "length (encode_state st) = 16"
  by (cases st) (simp add: encode_state_def)

lemma length_md5_spec [simp]: "length (md5_spec m) = 16"
  by (simp add: md5_spec_def)

section \<open>Properties\<close>

text \<open>
  C5. However a message is cut into pieces, feeding the pieces to \<open>MD5Update\<close> one after the other
  and finishing with \<open>MD5Final\<close> stores the reference digest of the whole message: the block buffer,
  the 64-bit bit counter with its carry between two words, and the padding are handled correctly.
\<close>

theorem md5_stream:
  assumes "length (md_in c) = 64" "\<forall>p \<in> set ps. length p < 2 ^ 32"
  shows "md_digest (MD5Final (foldl (\<lambda>c p. MD5Update c p (word_of_nat (length p))) (MD5Init c) ps)) =
    md5_spec (concat ps)"
  using assms by (rule md5.digest_of_parts)

theorem md5_stream_witness:
  "length (md_in \<lparr>md_i0 = 7, md_i1 = 9, md_buf = (1, 2, 3, 4), md_in = replicate 64 5, md_digest = []\<rparr>) = 64 \<and>
   md_digest (MD5Final (foldl (\<lambda>c p. MD5Update c p (word_of_nat (length p)))
     (MD5Init \<lparr>md_i0 = 7, md_i1 = 9, md_buf = (1, 2, 3, 4), md_in = replicate 64 5, md_digest = []\<rparr>)
     [[0x61], [0x62, 0x63]])) = md5_spec [0x61, 0x62, 0x63]"
  using md5_stream [of "\<lparr>md_i0 = 7, md_i1 = 9, md_buf = (1, 2, 3, 4), md_in = replicate 64 5, md_digest = []\<rparr>"
      "[[0x61], [0x62, 0x63]]"]
  by (simp only: concat.simps append.simps list.set length_replicate MD5_CTX.simps) simp

text \<open>
  C21. The 64 unrolled macro calls of \<open>Transform\<close> are the table-driven compression function of the
  MD5 definition: every additive constant, rotation amount, message word and rotation of the four
  registers is the one the tables give for its step.
\<close>

theorem Transform_eq_compress: "Transform st x = md5_compress st x"
proof -
  obtain b0 b1 b2 b3 where st: "st = (b0, b1, b2, b3)" by (cases st) auto
  define h where "h = (\<lambda>(a, b, c, d). (b0 + a, b1 + b, b2 + c, b3 + d))"
  have h: "(b0 + a, b1 + b, b2 + c, b3 + d) = h (md5_run x 64 (a, b, c, d))" for a b c d
    by (simp add: h_def md5_run_end)
  have push: "Let v (\<lambda>y. h (f y)) = h (Let v f)" for v :: "'c" and f
    by (rule push_Let)
  have "Transform st x = h (md5_run x 0 st)"
    unfolding st Transform_def prod.case h
    by (simp only: push md5_run_groups [symmetric]) (simp only: Let_def)
  then show ?thesis by (simp only: st md5_compress_def h_def prod.case)
qed

end
