(* ===== verification/Ssid.thy ===== *)
theory Ssid
  imports Md5
begin

text \<open>
  \<open>www/cgi-src/ssid.c\<close>: the pool of web sessions in shared memory. A pool has 100 buckets; a bucket
  holds a 32-byte session identifier and the time at which it expires. Times and their differences
  are 32-bit values (\<open>time_t\<close> on the target), compared signed or unsigned as the code casts them.
  The segment either does not exist yet (\<open>None\<close>) or holds a pool.
\<close>

abbreviation (input) MAX_BUCKETS :: nat where "MAX_BUCKETS \<equiv> 100"

definition VALID_TIME :: word32 where "VALID_TIME = 600"

record SSID =
  bValid :: int
  szTag :: string
  xExpiredDate :: word32

record SSID_POOL =
  nValidTime :: word32
  xBuckets :: "SSID list"

type_synonym shm = "SSID_POOL option"

definition zero_bucket :: SSID where
  "zero_bucket = \<lparr>bValid = 0, szTag = replicate 32 nul, xExpiredDate = 0\<rparr>"

definition zero_pool :: SSID_POOL where
  "zero_pool = \<lparr>nValidTime = 0, xBuckets = replicate 100 zero_bucket\<rparr>"

section \<open>The operations\<close>

text \<open>\<open>create\<close> tells whether \<open>shmget\<close> with \<open>IPC_CREAT\<close> succeeds when the segment does not exist.\<close>

definition FTMC_GetPool :: "bool \<Rightarrow> shm \<Rightarrow> shm" where
  "FTMC_GetPool create shm = (case shm of
      None \<Rightarrow> if create then Some (zero_pool\<lparr>nValidTime := VALID_TIME\<rparr>) else None
    | Some p \<Rightarrow> Some (p\<lparr>nValidTime := VALID_TIME\<rparr>))"

text \<open>\<open>bValid == 1 && memcmp(szTag, tag, 32) == 0\<close>.\<close>

definition bucket_hit :: "string \<Rightarrow> SSID \<Rightarrow> bool" where
  "bucket_hit tag b \<longleftrightarrow> bValid b = 1 \<and> szTag b = take 32 tag"

text \<open>
  The second loop of \<open>FTMC_SaveSSID\<close>: \<open>Inl i\<close> is the first free bucket, \<open>Inr n\<close> the value of
  \<open>nOldestSSID\<close> after the loop; \<open>u\<close> is \<open>uOldestExpiredTime\<close>.
\<close>

fun save_scan :: "nat \<Rightarrow> SSID list \<Rightarrow> word32 \<Rightarrow> nat \<Rightarrow> nat + nat" where
  "save_scan i [] u n = Inr n"
| "save_scan i (b # bs) u n =
     (if bValid b = 0 then Inl i
      else if xExpiredDate b < u then save_scan (i + 1) bs (xExpiredDate b) i
      else save_scan (i + 1) bs u n)"

definition save_slot :: "SSID list \<Rightarrow> nat" where
  "save_slot bs = (case save_scan 0 bs 0 0 of Inl i \<Rightarrow> i | Inr n \<Rightarrow> n)"

definition save_buckets :: "string \<Rightarrow> word32 \<Rightarrow> SSID list \<Rightarrow> SSID list" where
  "save_buckets tag e bs = (case first_idx (bucket_hit tag) bs of
      Some i \<Rightarrow> bs[i := (bs ! i)\<lparr>xExpiredDate := e\<rparr>]
    | None \<Rightarrow> bs[save_slot bs := \<lparr>bValid = 1, szTag = take 32 tag, xExpiredDate = e\<rparr>])"

definition FTMC_SaveSSID :: "bool \<Rightarrow> string \<Rightarrow> word32 \<Rightarrow> shm \<Rightarrow> int \<times> shm" where
  "FTMC_SaveSSID create szNewSSID xTime shm = (case FTMC_GetPool create shm of
      None \<Rightarrow> (- 1, shm)
    | Some p \<Rightarrow> (0, Some (p\<lparr>xBuckets := save_buckets szNewSSID (xTime + nValidTime p) (xBuckets p)\<rparr>)))"

text \<open>
  \<open>FTMC_DeleteSSID\<close> clears \<open>sizeof(pxPool[i])\<close> bytes from bucket \<open>i\<close> on: the size of the whole
  pool. The last component is the number of bytes it writes past the end of the pool.
\<close>

definition sizeof_SSID :: nat where "sizeof_SSID = 40"
definition sizeof_POOL :: nat where "sizeof_POOL = 4 + MAX_BUCKETS * sizeof_SSID"

definition memset_from :: "nat \<Rightarrow> SSID list \<Rightarrow> SSID list" where
  "memset_from i bs = take i bs @
     map (\<lambda>k. if sizeof_SSID * (Suc k - i) \<le> sizeof_POOL then zero_bucket else bs ! k) [i..<length bs]"

definition FTMC_DeleteSSID :: "string \<Rightarrow> shm \<Rightarrow> int \<times> shm \<times> nat" where
  "FTMC_DeleteSSID tag shm = (case shm of
      None \<Rightarrow> (0, None, 0)
    | Some p \<Rightarrow> (case first_idx (bucket_hit tag) (xBuckets p) of
        None \<Rightarrow> (0, Some p, 0)
      | Some i \<Rightarrow> (0, Some (p\<lparr>xBuckets := memset_from i (xBuckets p)\<rparr>),
          (4 + sizeof_SSID * i + sizeof_POOL) - sizeof_POOL)))"

definition purge_bucket :: "word32 \<Rightarrow> word32 \<Rightarrow> SSID \<Rightarrow> SSID" where
  "purge_bucket vt xTime b =
     (if bValid b = 1 \<and> xExpiredDate b - xTime > vt
      then b\<lparr>bValid := 0, szTag := replicate 32 nul, xExpiredDate := 0\<rparr> else b)"

definition FTMC_IsValidSSID :: "string \<Rightarrow> word32 \<Rightarrow> shm \<Rightarrow> int \<times> shm" where
  "FTMC_IsValidSSID tag xTime shm = (case shm of
      None \<Rightarrow> (0, None)
    | Some p \<Rightarrow>
       (let purged = Some (p\<lparr>xBuckets := map (purge_bucket (nValidTime p) xTime) (xBuckets p)\<rparr>) in
        case first_idx (bucket_hit tag) (xBuckets p) of
          None \<Rightarrow> (0, purged)
        | Some i \<Rightarrow>
           (let diff = xExpiredDate (xBuckets p ! i) - xTime in
            if 0 \<le> sint diff \<and> sint diff \<le> sint (nValidTime p) then (1, shm) else (0, purged))))"

definition FTMC_TouchSSID :: "string \<Rightarrow> word32 \<Rightarrow> shm \<Rightarrow> int \<times> shm" where
  "FTMC_TouchSSID tag xTime shm = (case shm of
      None \<Rightarrow> (0, None)
    | Some p \<Rightarrow> (case first_idx (bucket_hit tag) (xBuckets p) of
        None \<Rightarrow> (0, shm)
      | Some i \<Rightarrow> (1, Some (p\<lparr>xBuckets := (xBuckets p)[i :=
            (xBuckets p ! i)\<lparr>xExpiredDate := xTime + nValidTime p\<rparr>]\<rparr>))))"

text \<open>The comparison of \<open>FTMC_UpdateSSID\<close> has no cast, so it is signed.\<close>

definition update_bucket :: "word32 \<Rightarrow> word32 \<Rightarrow> SSID \<Rightarrow> SSID" where
  "update_bucket vt xTime b =
     (if bValid b = 1 \<and> sint (xExpiredDate b - xTime) > sint vt then zero_bucket else b)"

definition FTMC_UpdateSSID :: "word32 \<Rightarrow> shm \<Rightarrow> int \<times> shm" where
  "FTMC_UpdateSSID xTime shm = (case shm of
      None \<Rightarrow> (- 1, None)
    | Some p \<Rightarrow> (0, Some (p\<lparr>xBuckets := map (update_bucket (nValidTime p) xTime) (xBuckets p)\<rparr>)))"

section \<open>Abstraction and invariant\<close>

text \<open>A pool stands for a partial map from identifiers to expiry times.\<close>

definition sessions :: "SSID list \<Rightarrow> string \<Rightarrow> word32 option" where
  "sessions bs tag = map_option (\<lambda>i. xExpiredDate (bs ! i)) (first_idx (bucket_hit tag) bs)"

definition bucket_ok :: "SSID \<Rightarrow> bool" where
  "bucket_ok b \<longleftrightarrow> bValid b \<in> {0, 1} \<and> length (szTag b) = 32"

definition buckets_wf :: "SSID list \<Rightarrow> bool" where
  "buckets_wf bs \<longleftrightarrow> length bs = MAX_BUCKETS \<and> (\<forall>b \<in> set bs. bucket_ok b) \<and>
     (\<forall>i < length bs. \<forall>j < length bs. bValid (bs ! i) = 1 \<longrightarrow> bValid (bs ! j) = 1 \<longrightarrow>
        szTag (bs ! i) = szTag (bs ! j) \<longrightarrow> i = j)"

definition pool_wf :: "SSID_POOL \<Rightarrow> bool" where
  "pool_wf p \<longleftrightarrow> nValidTime p = VALID_TIME \<and> buckets_wf (xBuckets p)"

lemma buckets_wfD:
  "buckets_wf bs \<Longrightarrow> length bs = MAX_BUCKETS"
  "buckets_wf bs \<Longrightarrow> b \<in> set bs \<Longrightarrow> bucket_ok b"
  "buckets_wf bs \<Longrightarrow> i < length bs \<Longrightarrow> j < length bs \<Longrightarrow> bucket_hit tag (bs ! i) \<Longrightarrow>
   bucket_hit tag (bs ! j) \<Longrightarrow> i = j"
  by (auto simp: buckets_wf_def bucket_hit_def)

lemma hit_first_idx:
  assumes "buckets_wf bs" "i < length bs" "bucket_hit tag (bs ! i)"
  shows "first_idx (bucket_hit tag) bs = Some i"
proof (rule first_idx_SomeI)
  show "\<forall>j < i. \<not> bucket_hit tag (bs ! j)"
  proof (intro allI impI notI)
    fix j assume "j < i" "bucket_hit tag (bs ! j)"
    with buckets_wfD(3) [OF assms(1), of i j tag] assms show False by simp
  qed
qed (use assms in auto)

lemma sessions_eq_Some_iff:
  assumes "buckets_wf bs"
  shows "sessions bs tag = Some e \<longleftrightarrow>
    (\<exists>i < length bs. bucket_hit tag (bs ! i) \<and> xExpiredDate (bs ! i) = e)"
  using hit_first_idx [OF assms]
  by (fastforce simp: sessions_def dest: first_idx_SomeD)

lemma sessions_eq_None_iff: "sessions bs tag = None \<longleftrightarrow> (\<forall>b \<in> set bs. \<not> bucket_hit tag b)"
  by (simp add: sessions_def first_idx_None_iff)

lemma sessions_hit:
  "buckets_wf bs \<Longrightarrow> i < length bs \<Longrightarrow> bucket_hit tag (bs ! i) \<Longrightarrow>
   sessions bs tag = Some (xExpiredDate (bs ! i))"
  by (simp add: sessions_def hit_first_idx)

lemma sessions_update:
  assumes wf: "buckets_wf bs" and j: "j < length bs" and wf': "buckets_wf (bs[j := b])"
  shows "sessions (bs[j := b]) tag =
    (if bucket_hit tag b then Some (xExpiredDate b)
     else if bucket_hit tag (bs ! j) then None else sessions bs tag)"
proof (cases "bucket_hit tag b")
  case True
  with sessions_hit [OF wf', of j tag] j show ?thesis by simp
next
  case nb: False
  show ?thesis
  proof (cases "\<exists>i < length bs. i \<noteq> j \<and> bucket_hit tag (bs ! i)")
    case True
    then obtain i where i: "i < length bs" "i \<noteq> j" "bucket_hit tag (bs ! i)" by blast
    with buckets_wfD(3) [OF wf, of i j tag] j have "\<not> bucket_hit tag (bs ! j)" by blast
    with i nb sessions_hit [OF wf, of i tag] sessions_hit [OF wf', of i tag] show ?thesis by simp
  next
    case False
    then have "\<not> bucket_hit tag (bs[j := b] ! i)" if "i < length bs" for i
      using nb j that by (cases "i = j") auto
    then have "sessions (bs[j := b]) tag = None"
      by (auto simp: sessions_eq_None_iff in_set_conv_nth)
    moreover have "\<not> bucket_hit tag (bs ! j) \<Longrightarrow> sessions bs tag = None"
      using False by (auto simp: sessions_eq_None_iff in_set_conv_nth)
    ultimately show ?thesis using nb by simp
  qed
qed

lemma buckets_wf_update:
  assumes wf: "buckets_wf bs" and "j < length bs" and "bucket_ok b"
    and fresh: "\<And>i. i < length bs \<Longrightarrow> i \<noteq> j \<Longrightarrow> bValid b = 1 \<Longrightarrow> bValid (bs ! i) = 1 \<Longrightarrow>
      szTag (bs ! i) \<noteq> szTag b"
  shows "buckets_wf (bs[j := b])"
  using assms(1,2,3) fresh
  by (auto simp: buckets_wf_def nth_list_update dest: set_update_subset_insert [THEN subsetD]) metis+

text \<open>Clearing some buckets and keeping the others keeps the invariant and forgets their sessions.\<close>

lemma buckets_wf_map:
  assumes "buckets_wf bs" "\<And>b. f b = b \<or> (bValid (f b) = 0 \<and> length (szTag (f b)) = 32)"
  shows "buckets_wf (map f bs)"
proof -
  have "bucket_ok (f b)" if "b \<in> set bs" for b
    using assms(2) [of b] buckets_wfD(2) [OF assms(1) that] by (auto simp: bucket_ok_def)
  moreover have "f b = b" if "bValid (f b) = 1" for b using assms(2) [of b] that by auto
  ultimately show ?thesis using assms(1) unfolding buckets_wf_def by auto metis
qed

lemma sessions_map:
  assumes wf: "buckets_wf bs" and f: "\<And>b. f b = b \<or> (bValid (f b) = 0 \<and> length (szTag (f b)) = 32)"
    and keep: "\<And>b. bValid b = 1 \<Longrightarrow> (bValid (f b) = 1) = K (xExpiredDate b)"
  shows "sessions (map f bs) tag = (case sessions bs tag of
      None \<Rightarrow> None | Some e \<Rightarrow> if K e then Some e else None)"
proof -
  have wf': "buckets_wf (map f bs)" using wf f by (rule buckets_wf_map)
  have hit: "bucket_hit tag (f b) \<longleftrightarrow> bucket_hit tag b \<and> K (xExpiredDate b)" for b
    using f [of b] keep [of b] by (auto simp: bucket_hit_def)
  show ?thesis
  proof (cases "\<exists>i < length bs. bucket_hit tag (bs ! i)")
    case True
    then obtain i where i: "i < length bs" "bucket_hit tag (bs ! i)" by blast
    then have old: "sessions bs tag = Some (xExpiredDate (bs ! i))" by (rule sessions_hit [OF wf])
    show ?thesis
    proof (cases "K (xExpiredDate (bs ! i))")
      case True
      with i hit have "bucket_hit tag (map f bs ! i)" by simp
      moreover have "f (bs ! i) = bs ! i"
        using f [of "bs ! i"] keep [of "bs ! i"] True i by (auto simp: bucket_hit_def)
      ultimately show ?thesis using sessions_hit [OF wf', of i tag] i old True by simp
    next
      case False
      have "\<not> bucket_hit tag (f (bs ! k))" if "k < length bs" for k
        using hit buckets_wfD(3) [OF wf, of i k tag] i that False by auto
      then have "sessions (map f bs) tag = None"
        by (auto simp: sessions_eq_None_iff in_set_conv_nth)
      with old False show ?thesis by simp
    qed
  next
    case False
    then have "sessions bs tag = None" "sessions (map f bs) tag = None"
      using hit by (auto simp: sessions_eq_None_iff in_set_conv_nth)
    then show ?thesis by simp
  qed
qed

section \<open>What the operations do to the sessions\<close>

lemma save_scan_zero:
  "save_scan i bs 0 n = (case first_idx (\<lambda>b. bValid b = 0) bs of Some k \<Rightarrow> Inl (i + k) | None \<Rightarrow> Inr n)"
  by (induction bs arbitrary: i) (auto split: option.splits)

lemma save_slot_eq:
  "save_slot bs = (case first_idx (\<lambda>b. bValid b = 0) bs of Some k \<Rightarrow> k | None \<Rightarrow> 0)"
  by (simp add: save_slot_def save_scan_zero split: option.splits)

lemma save_slot_less: "buckets_wf bs \<Longrightarrow> save_slot bs < length bs"
  by (auto simp: save_slot_eq buckets_wf_def split: option.splits dest: first_idx_SomeD)

lemma buckets_wf_save:
  assumes wf: "buckets_wf bs" and tag: "32 \<le> length tag"
  shows "buckets_wf (save_buckets tag e bs)"
proof (cases "first_idx (bucket_hit tag) bs")
  case None
  then have no: "\<not> bucket_hit tag (bs ! i)" if "i < length bs" for i
    using that by (simp add: first_idx_None_iff)
  have "buckets_wf (bs[save_slot bs := \<lparr>bValid = 1, szTag = take 32 tag, xExpiredDate = e\<rparr>])"
    using wf save_slot_less [OF wf]
    by (rule buckets_wf_update) (use tag no in \<open>auto simp: bucket_ok_def bucket_hit_def\<close>)
  with None show ?thesis by (simp add: save_buckets_def)
next
  case (Some i)
  then have i: "i < length bs" "bucket_hit tag (bs ! i)" by (auto dest: first_idx_SomeD)
  have ok: "bucket_ok (bs ! i)" using buckets_wfD(2) [OF wf] i(1) by simp
  have "buckets_wf (bs[i := (bs ! i)\<lparr>xExpiredDate := e\<rparr>])"
    using wf i(1)
  proof (rule buckets_wf_update)
    fix k assume "k < length bs" "k \<noteq> i" "bValid ((bs ! i)\<lparr>xExpiredDate := e\<rparr>) = 1" "bValid (bs ! k) = 1"
    then show "szTag (bs ! k) \<noteq> szTag ((bs ! i)\<lparr>xExpiredDate := e\<rparr>)"
      using buckets_wfD(3) [OF wf, of i k tag] i by (auto simp: bucket_hit_def)
  qed (use ok in \<open>simp add: bucket_ok_def\<close>)
  with Some show ?thesis by (simp add: save_buckets_def)
qed

text \<open>The bucket whose session a save gives up: none while the session is known or a bucket is free.\<close>

definition evicted :: "string \<Rightarrow> SSID list \<Rightarrow> string option" where
  "evicted tag bs = (if sessions bs tag \<noteq> None \<or> (\<exists>b \<in> set bs. bValid b = 0) then None
     else Some (szTag (hd bs)))"

lemma sessions_save:
  assumes wf: "buckets_wf bs" and tag: "length tag = 32" and tag': "length tag' = 32"
  shows "sessions (save_buckets tag e bs) tag' =
    (if tag' = tag then Some e
     else if evicted tag bs = Some tag' then None else sessions bs tag')"
proof (cases "first_idx (bucket_hit tag) bs")
  case (Some i)
  then have i: "i < length bs" "bucket_hit tag (bs ! i)" by (auto dest: first_idx_SomeD)
  have sv: "save_buckets tag e bs = bs[i := (bs ! i)\<lparr>xExpiredDate := e\<rparr>]"
    using Some by (simp add: save_buckets_def)
  have "sessions bs tag \<noteq> None" using sessions_hit [OF wf i] by simp
  then have "evicted tag bs = None" by (simp add: evicted_def)
  with sessions_update [OF wf i(1), of "(bs ! i)\<lparr>xExpiredDate := e\<rparr>" tag'] buckets_wf_save [OF wf, of tag e]
    i(2) tag tag' show ?thesis by (auto simp: sv bucket_hit_def)
next
  case None
  let ?j = "save_slot bs"
  let ?b = "\<lparr>bValid = 1, szTag = take 32 tag, xExpiredDate = e\<rparr>"
  have sv: "save_buckets tag e bs = bs[?j := ?b]" using None by (simp add: save_buckets_def)
  have upd: "sessions (bs[?j := ?b]) tag' = (if bucket_hit tag' ?b then Some e
      else if bucket_hit tag' (bs ! ?j) then None else sessions bs tag')"
    using sessions_update [OF wf save_slot_less [OF wf], of ?b tag'] buckets_wf_save [OF wf, of tag e]
      tag by (simp add: sv)
  have s: "sessions bs tag = None" using None by (simp add: sessions_def)
  show ?thesis
  proof (cases "first_idx (\<lambda>b. bValid b = 0) bs")
    case free: (Some k)
    then have "k < length bs" "bValid (bs ! k) = 0" "?j = k"
      by (auto dest: first_idx_SomeD simp: save_slot_eq)
    then have "\<not> bucket_hit tag' (bs ! ?j)" "evicted tag bs = None"
      by (auto simp: bucket_hit_def evicted_def)
    with upd sv tag tag' show ?thesis by (auto simp: bucket_hit_def)
  next
    case full: None
    then have nz: "\<forall>b \<in> set bs. bValid b \<noteq> 0" by (simp add: first_idx_None_iff)
    have j: "?j = 0" using full by (simp add: save_slot_eq)
    have ne: "bs \<noteq> []" using wf by (auto simp: buckets_wf_def)
    then have "bucket_ok (hd bs)" "bValid (hd bs) \<noteq> 0"
      using wf nz by (auto simp: buckets_wf_def)
    then have "bucket_hit tag' (bs ! ?j) \<longleftrightarrow> szTag (hd bs) = tag'"
      using ne j tag' by (auto simp: bucket_hit_def bucket_ok_def hd_conv_nth)
    moreover have "evicted tag bs = Some (szTag (hd bs))" using nz s by (auto simp: evicted_def)
    ultimately show ?thesis using upd sv tag tag' by (auto simp: bucket_hit_def)
  qed
qed

section \<open>Expiry\<close>

text \<open>The signed test of the lookup and the unsigned test of the purge are complements.\<close>

lemma live_iff: "(0 \<le> sint d \<and> sint d \<le> sint VALID_TIME) \<longleftrightarrow> d \<le> VALID_TIME"
proof -
  have v: "uint VALID_TIME = 600" "sint VALID_TIME = 600" by (simp_all add: VALID_TIME_def)
  show ?thesis using uint32_range [of d] unfolding v word_le_def sint32 by auto
qed

lemma expiry_swap: "t + v - t' \<le> v \<longleftrightarrow> t' - t \<le> v" for t t' v :: word32
proof -
  define d where "d = t' - t"
  have "t + v - t' = v - d" by (simp add: d_def algebra_simps)
  moreover have "v - d \<le> v \<longleftrightarrow> d \<le> v"
    unfolding word_le_nat_alt unat_sub_if' using unat32_less [of d] unat32_less [of v] by auto
  ultimately show ?thesis by (simp only: d_def)
qed

lemma purge_bucket_cases:
  "purge_bucket vt t b = b \<or> (bValid (purge_bucket vt t b) = 0 \<and> length (szTag (purge_bucket vt t b)) = 32)"
  by (simp add: purge_bucket_def)

lemma buckets_wf_purge: "buckets_wf bs \<Longrightarrow> buckets_wf (map (purge_bucket vt t) bs)"
  by (rule buckets_wf_map) (use purge_bucket_cases in auto)

lemma sessions_purge:
  assumes "buckets_wf bs"
  shows "sessions (map (purge_bucket vt t) bs) tag =
    (case sessions bs tag of None \<Rightarrow> None | Some e \<Rightarrow> if e - t \<le> vt then Some e else None)"
  using assms purge_bucket_cases by (rule sessions_map) (auto simp: purge_bucket_def)

text \<open>
  The lookup as a specification: accepted exactly when the identifier is known and expires within
  the validity time from now; a refused lookup drops every expired session and no other.
\<close>

lemma IsValid_result:
  assumes "pool_wf p"
  shows "fst (FTMC_IsValidSSID tag t (Some p)) =
    (case sessions (xBuckets p) tag of None \<Rightarrow> 0 | Some e \<Rightarrow> if e - t \<le> VALID_TIME then 1 else 0)"
  using assms live_iff
  by (auto simp: FTMC_IsValidSSID_def pool_wf_def sessions_def Let_def split: option.splits)

lemma IsValid_pool:
  assumes "pool_wf p"
  obtains p' where "snd (FTMC_IsValidSSID tag t (Some p)) = Some p'" "pool_wf p'"
    "fst (FTMC_IsValidSSID tag t (Some p)) = 1 \<Longrightarrow> p' = p"
    "\<And>u. fst (FTMC_IsValidSSID tag t (Some p)) = 0 \<Longrightarrow> sessions (xBuckets p') u =
      (case sessions (xBuckets p) u of None \<Rightarrow> None | Some e \<Rightarrow> if e - t \<le> VALID_TIME then Some e else None)"
proof -
  let ?q = "p\<lparr>xBuckets := map (purge_bucket (nValidTime p) t) (xBuckets p)\<rparr>"
  have vt: "nValidTime p = VALID_TIME" and wf: "buckets_wf (xBuckets p)"
    using assms by (auto simp: pool_wf_def)
  have q: "pool_wf ?q" using vt wf by (simp add: pool_wf_def buckets_wf_purge)
  have qs: "sessions (xBuckets ?q) u = (case sessions (xBuckets p) u of None \<Rightarrow> None
      | Some e \<Rightarrow> if e - t \<le> VALID_TIME then Some e else None)" for u
    using sessions_purge [OF wf, of VALID_TIME t u] vt by simp
  have "FTMC_IsValidSSID tag t (Some p) = (1, Some p) \<or> FTMC_IsValidSSID tag t (Some p) = (0, Some ?q)"
    by (simp add: FTMC_IsValidSSID_def Let_def split: option.splits)
  then show thesis
  proof
    assume "FTMC_IsValidSSID tag t (Some p) = (1, Some p)"
    with assms show ?thesis by (intro that [of p]) auto
  next
    assume "FTMC_IsValidSSID tag t (Some p) = (0, Some ?q)"
    with q qs show ?thesis by (intro that [of ?q]) auto
  qed
qed

section \<open>Deletion\<close>

lemma memset_from_eq:
  assumes "length bs = MAX_BUCKETS" "i \<le> length bs"
  shows "memset_from i bs = take i bs @ replicate (length bs - i) zero_bucket"
proof -
  have "map (\<lambda>k. if sizeof_SSID * (Suc k - i) \<le> sizeof_POOL then zero_bucket else bs ! k) [i..<length bs] =
      map (\<lambda>k. zero_bucket) [i..<length bs]"
    using assms by (intro map_cong) (auto simp: sizeof_SSID_def sizeof_POOL_def)
  then show ?thesis by (simp add: memset_from_def map_replicate_const)
qed

lemma sessions_memset:
  assumes wf: "buckets_wf bs" and i: "i \<le> length bs"
  shows "sessions (memset_from i bs) tag =
    (case first_idx (bucket_hit tag) bs of None \<Rightarrow> None
     | Some k \<Rightarrow> if k < i then Some (xExpiredDate (bs ! k)) else None)"
proof -
  have len: "length bs = MAX_BUCKETS" using wf by (simp add: buckets_wf_def)
  let ?ms = "take i bs @ replicate (length bs - i) zero_bucket"
  have nth: "?ms ! k = (if k < i then bs ! k else zero_bucket)" if "k < length bs" for k
    using that i by (simp add: nth_append)
  have ms: "memset_from i bs = ?ms" using memset_from_eq [OF len i] .
  have hit: "bucket_hit tag (?ms ! k) \<longleftrightarrow> k < i \<and> bucket_hit tag (bs ! k)" if "k < length bs" for k
    using nth [OF that] by (auto simp: bucket_hit_def zero_bucket_def)
  have lenms: "length ?ms = length bs" using i by simp
  show ?thesis
  proof (cases "first_idx (bucket_hit tag) bs")
    case None
    then have "\<not> bucket_hit tag (?ms ! k)" if "k < length bs" for k
      using hit [OF that] that by (auto simp: first_idx_None_iff)
    then have "sessions ?ms tag = None"
      using lenms by (simp only: sessions_eq_None_iff) (metis in_set_conv_nth)
    with None ms show ?thesis by simp
  next
    case (Some k)
    then have k: "k < length bs" "bucket_hit tag (bs ! k)" "\<forall>j < k. \<not> bucket_hit tag (bs ! j)"
      by (auto dest: first_idx_SomeD)
    show ?thesis
    proof (cases "k < i")
      case True
      have "first_idx (bucket_hit tag) ?ms = Some k"
        by (rule first_idx_SomeI) (use k hit True lenms in auto)
      with True Some nth [OF k(1)] ms show ?thesis by (simp add: sessions_def)
    next
      case False
      have "\<not> bucket_hit tag (?ms ! j)" if "j < length bs" for j
        using hit [OF that] k False that by auto
      then have "sessions ?ms tag = None"
        using lenms by (simp only: sessions_eq_None_iff) (metis in_set_conv_nth)
      with False Some ms show ?thesis by simp
    qed
  qed
qed

lemma buckets_wf_memset:
  assumes wf: "buckets_wf bs" and i: "i \<le> length bs"
  shows "buckets_wf (memset_from i bs)"
proof -
  let ?ms = "take i bs @ replicate (length bs - i) zero_bucket"
  have len: "length bs = MAX_BUCKETS" using wf by (simp add: buckets_wf_def)
  have nth: "?ms ! k = (if k < i then bs ! k else zero_bucket)" if "k < length bs" for k
    using that i by (simp add: nth_append)
  have ok: "bucket_ok b" if "b \<in> set ?ms" for b
    using that wf i by (auto simp: buckets_wf_def zero_bucket_def bucket_ok_def dest: in_set_takeD)
  have low: "k < i" if "k < length bs" "bValid (?ms ! k) = 1" for k
    using that(2) unfolding nth [OF that(1)] by (simp add: zero_bucket_def split: if_splits)
  have uniq: "j = k" if "j < length bs" "k < length bs" "bValid (?ms ! j) = 1" "bValid (?ms ! k) = 1"
    "szTag (?ms ! j) = szTag (?ms ! k)" for j k
  proof -
    have "?ms ! j = bs ! j" "?ms ! k = bs ! k"
      using nth [OF that(1)] nth [OF that(2)] low [OF that(1,3)] low [OF that(2,4)] by simp_all
    with that have "bucket_hit (szTag (bs ! j)) (bs ! j)" "bucket_hit (szTag (bs ! j)) (bs ! k)"
      using buckets_wfD(2) [OF wf, of "bs ! j"] by (auto simp: bucket_hit_def bucket_ok_def)
    with that buckets_wfD(3) [OF wf] show "j = k" by blast
  qed
  have lenms: "length ?ms = length bs" using i by simp
  show ?thesis
    unfolding memset_from_eq [OF len i] buckets_wf_def lenms
    by (intro conjI ballI allI impI) (erule ok uniq len | assumption | rule len)+
qed

section \<open>A session store as an interface\<close>

text \<open>
  The request handler of the web server relies on these laws only. \<open>room s tag\<close> says that saving
  \<open>tag\<close> gives up no other session.
\<close>

locale session_store =
  fixes save :: "string \<Rightarrow> word32 \<Rightarrow> 's \<Rightarrow> 's"
    and check :: "string \<Rightarrow> word32 \<Rightarrow> 's \<Rightarrow> bool \<times> 's"
    and lookup :: "'s \<Rightarrow> string \<Rightarrow> word32 option"
    and room :: "'s \<Rightarrow> string \<Rightarrow> bool"
    and invar :: "'s \<Rightarrow> bool"
    and ttl :: word32
  assumes invar_save: "invar s \<Longrightarrow> length tag = 32 \<Longrightarrow> invar (save tag t s)"
    and invar_check: "invar s \<Longrightarrow> invar (snd (check tag t s))"
    and lookup_save_same: "invar s \<Longrightarrow> length tag = 32 \<Longrightarrow> lookup (save tag t s) tag = Some (t + ttl)"
    and lookup_save_other: "invar s \<Longrightarrow> length tag = 32 \<Longrightarrow> length u = 32 \<Longrightarrow> u \<noteq> tag \<Longrightarrow> room s tag \<Longrightarrow>
      lookup (save tag t s) u = lookup s u"
    and room_known: "lookup s tag \<noteq> None \<Longrightarrow> room s tag"
    and check_iff: "invar s \<Longrightarrow> fst (check tag t s) \<longleftrightarrow> (\<exists>e. lookup s tag = Some e \<and> e - t \<le> ttl)"
    and check_keeps: "invar s \<Longrightarrow> lookup s u = Some e \<Longrightarrow> e - t \<le> ttl \<Longrightarrow>
      lookup (snd (check tag t s)) u = Some e"
    and check_only: "invar s \<Longrightarrow> lookup s u = None \<Longrightarrow> lookup (snd (check tag t s)) u = None"

context session_store
begin

lemma save_check_iff:
  assumes "invar s" "length tag = 32"
  shows "fst (check tag t' (save tag t s)) \<longleftrightarrow> t' - t \<le> ttl"
  using check_iff [OF invar_save [OF assms], of tag t' t] lookup_save_same [OF assms, of t]
    expiry_swap [of t ttl t'] by simp

lemma unknown_refused: "invar s \<Longrightarrow> lookup s tag = None \<Longrightarrow> \<not> fst (check tag t s)"
  by (simp add: check_iff)

text \<open>A request: the identifier is checked and, when accepted, saved again with a new expiry.\<close>

lemma own_request:
  assumes "invar s" "length tag = 32" "lookup s tag = Some (t + ttl)" "t' - t \<le> ttl"
  shows "fst (check tag t' s) \<and> lookup (save tag t' (snd (check tag t' s))) tag = Some (t' + ttl)"
  using check_iff [OF assms(1), of tag t'] lookup_save_same [OF invar_check [OF assms(1)] assms(2)] assms(3,4)
    expiry_swap [of t ttl t'] by simp

lemma other_request:
  assumes "invar s" "length tag = 32" "length u = 32" "u \<noteq> tag" "lookup s tag = Some (t + ttl)" "t' - t \<le> ttl"
  shows "lookup (if fst (check u t' s) then save u t' (snd (check u t' s)) else snd (check u t' s)) tag = Some (t + ttl)"
proof -
  have kept: "lookup (snd (check u t' s)) tag = Some (t + ttl)"
    using assms(1,5,6) expiry_swap [of t ttl t'] by (intro check_keeps) simp_all
  have "lookup (save u t' (snd (check u t' s))) tag = Some (t + ttl)" if ok: "fst (check u t' s)"
  proof -
    from ok assms(1) obtain e where e: "lookup s u = Some e" "e - t' \<le> ttl" using check_iff by blast
    then have "lookup (snd (check u t' s)) u = Some e" using assms(1) by (intro check_keeps)
    then have "room (snd (check u t' s)) u" by (intro room_known) simp
    with kept lookup_save_other [OF invar_check [OF assms(1)] assms(3,2) assms(4) [symmetric]] show ?thesis by simp
  qed
  with kept show ?thesis by simp
qed

end

section \<open>The shared pool is a session store\<close>

definition pool_save :: "string \<Rightarrow> word32 \<Rightarrow> SSID_POOL \<Rightarrow> SSID_POOL" where
  "pool_save tag t p = the (snd (FTMC_SaveSSID True tag t (Some p)))"

definition pool_check :: "string \<Rightarrow> word32 \<Rightarrow> SSID_POOL \<Rightarrow> bool \<times> SSID_POOL" where
  "pool_check tag t p = (case FTMC_IsValidSSID tag t (Some p) of (r, q) \<Rightarrow> (r = 1, the q))"

definition pool_lookup :: "SSID_POOL \<Rightarrow> string \<Rightarrow> word32 option" where
  "pool_lookup p = sessions (xBuckets p)"

definition pool_room :: "SSID_POOL \<Rightarrow> string \<Rightarrow> bool" where
  "pool_room p tag \<longleftrightarrow> evicted tag (xBuckets p) = None"

lemma SaveSSID_Some:
  "pool_wf p \<Longrightarrow> FTMC_SaveSSID create tag t (Some p) =
    (0, Some (p\<lparr>xBuckets := save_buckets tag (t + VALID_TIME) (xBuckets p)\<rparr>))"
  by (cases p) (simp add: FTMC_SaveSSID_def FTMC_GetPool_def pool_wf_def)

lemma pool_save_eq:
  "pool_wf p \<Longrightarrow> pool_save tag t p = p\<lparr>xBuckets := save_buckets tag (t + VALID_TIME) (xBuckets p)\<rparr>"
  by (simp add: pool_save_def SaveSSID_Some)

lemma pool_wf_save: "pool_wf p \<Longrightarrow> length tag = 32 \<Longrightarrow> pool_wf (pool_save tag t p)"
  by (simp add: pool_save_eq) (simp add: pool_wf_def buckets_wf_save)

lemma IsValid_bool: "fst (FTMC_IsValidSSID tag t s) \<in> {0, 1}"
  by (simp add: FTMC_IsValidSSID_def Let_def split: option.splits)

lemma pool_check_fst:
  "pool_wf p \<Longrightarrow> fst (pool_check tag t p) \<longleftrightarrow> (\<exists>e. pool_lookup p tag = Some e \<and> e - t \<le> VALID_TIME)"
  using IsValid_result [of p tag t]
  by (auto simp: pool_check_def pool_lookup_def case_prod_beta split: option.splits if_splits)

lemma pool_check_snd:
  assumes "pool_wf p"
  shows "pool_wf (snd (pool_check tag t p))"
    and "pool_lookup (snd (pool_check tag t p)) u = pool_lookup p u \<or>
      pool_lookup (snd (pool_check tag t p)) u = (case pool_lookup p u of None \<Rightarrow> None
        | Some e \<Rightarrow> if e - t \<le> VALID_TIME then Some e else None)"
proof -
  from IsValid_pool [OF assms, of tag t] obtain p' where p': "snd (FTMC_IsValidSSID tag t (Some p)) = Some p'" "pool_wf p'"
    "fst (FTMC_IsValidSSID tag t (Some p)) = 1 \<Longrightarrow> p' = p"
    "\<And>u. fst (FTMC_IsValidSSID tag t (Some p)) = 0 \<Longrightarrow> sessions (xBuckets p') u =
      (case sessions (xBuckets p) u of None \<Rightarrow> None | Some e \<Rightarrow> if e - t \<le> VALID_TIME then Some e else None)"
    by blast
  then have c: "snd (pool_check tag t p) = p'" by (simp add: pool_check_def case_prod_beta)
  show "pool_wf (snd (pool_check tag t p))" using p'(2) c by simp
  consider "fst (FTMC_IsValidSSID tag t (Some p)) = 0" | "fst (FTMC_IsValidSSID tag t (Some p)) = 1"
    using IsValid_bool [of tag t "Some p"] by auto
  then show "pool_lookup (snd (pool_check tag t p)) u = pool_lookup p u \<or>
      pool_lookup (snd (pool_check tag t p)) u = (case pool_lookup p u of None \<Rightarrow> None
        | Some e \<Rightarrow> if e - t \<le> VALID_TIME then Some e else None)"
    by cases (use p'(3,4) c in \<open>simp_all add: pool_lookup_def\<close>)
qed

interpretation ssid: session_store pool_save pool_check pool_lookup pool_room pool_wf VALID_TIME
proof
  fix p :: SSID_POOL and tag u :: string and t e :: word32
  show "pool_wf (pool_save tag t p)" if "pool_wf p" "length tag = 32"
    using that by (rule pool_wf_save)
  show "pool_wf (snd (pool_check tag t p))" if "pool_wf p"
    using that by (rule pool_check_snd)
  show "pool_lookup (pool_save tag t p) tag = Some (t + VALID_TIME)" if "pool_wf p" "length tag = 32"
    using that sessions_save [of "xBuckets p" tag tag]
    by (simp add: pool_save_eq pool_lookup_def pool_wf_def)
  show "pool_lookup (pool_save tag t p) u = pool_lookup p u"
    if "pool_wf p" "length tag = 32" "length u = 32" "u \<noteq> tag" "pool_room p tag"
    using that sessions_save [of "xBuckets p" tag u]
    by (simp add: pool_save_eq pool_lookup_def pool_wf_def pool_room_def)
  show "pool_room p tag" if "pool_lookup p tag \<noteq> None"
    using that by (simp add: pool_room_def pool_lookup_def evicted_def)
  show "fst (pool_check tag t p) \<longleftrightarrow> (\<exists>e. pool_lookup p tag = Some e \<and> e - t \<le> VALID_TIME)" if "pool_wf p"
    using that by (rule pool_check_fst)
  show "pool_lookup (snd (pool_check tag t p)) u = Some e"
    if "pool_wf p" "pool_lookup p u = Some e" "e - t \<le> VALID_TIME"
    using that pool_check_snd(2) [of p tag t u] by auto
  show "pool_lookup (snd (pool_check tag t p)) u = None" if "pool_wf p" "pool_lookup p u = None"
    using that pool_check_snd(2) [of p tag t u] by auto
qed

section \<open>Any sequence of operations\<close>

datatype ssid_op = OpSave bool string word32 | OpDelete string | OpIsValid string word32
  | OpTouch string word32 | OpUpdate word32

text \<open>
  \<open>shmget\<close> gives whole pages of 4096 bytes, so \<open>page_rest\<close> bytes behind the pool can be written; a deletion that
  goes on from there kills the process, after it has cleared the pool, which stays as it is then.
\<close>

definition page_rest :: nat where "page_rest = 4096 - sizeof_POOL"

fun ssid_call :: "ssid_op \<Rightarrow> shm \<Rightarrow> int res \<times> shm" where
  "ssid_call (OpSave create tag t) s = (case FTMC_SaveSSID create tag t s of (r, s') \<Rightarrow> (Inr r, s'))"
| "ssid_call (OpDelete tag) s = (case FTMC_DeleteSSID tag s of (r, s', over) \<Rightarrow>
     (if over \<le> page_rest then Inr r else Inl BufferOverflow, s'))"
| "ssid_call (OpIsValid tag t) s = (case FTMC_IsValidSSID tag t s of (r, s') \<Rightarrow> (Inr r, s'))"
| "ssid_call (OpTouch tag t) s = (case FTMC_TouchSSID tag t s of (r, s') \<Rightarrow> (Inr r, s'))"
| "ssid_call (OpUpdate t) s = (case FTMC_UpdateSSID t s of (r, s') \<Rightarrow> (Inr r, s'))"

definition ssid_step :: "ssid_op \<Rightarrow> shm \<Rightarrow> shm" where
  "ssid_step oper s = snd (ssid_call oper s)"

fun op_ok :: "ssid_op \<Rightarrow> bool" where
  "op_ok (OpSave create tag t) = (32 \<le> length tag)"
| "op_ok _ = True"

definition shm_wf :: "shm \<Rightarrow> bool" where
  "shm_wf s = (case s of None \<Rightarrow> True | Some p \<Rightarrow> pool_wf p)"

lemma shm_wf_simps [simp]: "shm_wf None" "shm_wf (Some p) = pool_wf p"
  by (simp_all add: shm_wf_def)

lemma pool_wf_zero: "pool_wf (zero_pool\<lparr>nValidTime := VALID_TIME\<rparr>)"
  by (simp add: pool_wf_def buckets_wf_def zero_pool_def zero_bucket_def bucket_ok_def)

lemma shm_wf_save: "shm_wf s \<Longrightarrow> 32 \<le> length tag \<Longrightarrow> shm_wf (snd (FTMC_SaveSSID create tag t s))"
proof (cases "FTMC_GetPool create s")
  case None
  then show "shm_wf s \<Longrightarrow> shm_wf (snd (FTMC_SaveSSID create tag t s))" by (simp add: FTMC_SaveSSID_def)
next
  case (Some p)
  assume "shm_wf s" "32 \<le> length tag"
  moreover from Some \<open>shm_wf s\<close> have "pool_wf p"
    using pool_wf_zero by (auto simp: FTMC_GetPool_def pool_wf_def split: option.splits if_splits)
  ultimately show ?thesis using Some by (simp add: FTMC_SaveSSID_def pool_wf_def buckets_wf_save)
qed

lemma shm_wf_delete: "shm_wf s \<Longrightarrow> shm_wf (fst (snd (FTMC_DeleteSSID tag s)))"
  by (auto simp: FTMC_DeleteSSID_def pool_wf_def split: option.splits
      intro!: buckets_wf_memset dest!: first_idx_SomeD)

lemma shm_wf_valid: "shm_wf s \<Longrightarrow> shm_wf (snd (FTMC_IsValidSSID tag t s))"
  by (auto simp: FTMC_IsValidSSID_def Let_def pool_wf_def buckets_wf_purge split: option.splits)

lemma buckets_wf_touch:
  assumes "buckets_wf bs" "first_idx (bucket_hit tag) bs = Some i"
  shows "buckets_wf (bs[i := (bs ! i)\<lparr>xExpiredDate := e\<rparr>])"
proof -
  from assms(2) have i: "i < length bs" by (auto dest: first_idx_SomeD)
  with assms(1) have ok: "length (szTag (bs ! i)) = 32" "bucket_hit tag (bs ! i)"
    using buckets_wfD(2) [OF assms(1), of "bs ! i"] first_idx_SomeD [OF assms(2)]
    by (auto simp: bucket_ok_def)
  then have "32 \<le> length tag" by (auto simp: bucket_hit_def)
  from buckets_wf_save [OF assms(1) this, of e] show ?thesis
    by (simp add: save_buckets_def assms(2))
qed

lemma shm_wf_touch: "shm_wf s \<Longrightarrow> shm_wf (snd (FTMC_TouchSSID tag t s))"
  by (auto simp: FTMC_TouchSSID_def pool_wf_def buckets_wf_touch split: option.splits)

lemma shm_wf_update: "shm_wf s \<Longrightarrow> shm_wf (snd (FTMC_UpdateSSID t s))"
  by (auto simp: FTMC_UpdateSSID_def pool_wf_def update_bucket_def zero_bucket_def split: option.splits
      intro!: buckets_wf_map)

lemma shm_wf_step: "op_ok o' \<Longrightarrow> shm_wf s \<Longrightarrow> shm_wf (ssid_step o' s)"
  using shm_wf_save shm_wf_delete shm_wf_valid shm_wf_touch shm_wf_update
  by (cases o') (simp_all add: ssid_step_def case_prod_beta)

lemma shm_wf_fold: "list_all op_ok ops \<Longrightarrow> shm_wf s \<Longrightarrow> shm_wf (fold ssid_step ops s)"
  by (induction ops arbitrary: s) (simp_all add: shm_wf_step)

section \<open>The pool as a map from identifiers to expiry times\<close>

definition abs_shm :: "shm \<Rightarrow> string \<Rightarrow> word32 option" where
  "abs_shm s tag = (case s of None \<Rightarrow> None
    | Some p \<Rightarrow> if length tag = 32 then sessions (xBuckets p) tag else None)"

definition drop_when :: "(word32 \<Rightarrow> bool) \<Rightarrow> (string \<Rightarrow> word32 option) \<Rightarrow> string \<Rightarrow> word32 option" where
  "drop_when P m u = (case m u of None \<Rightarrow> None | Some e \<Rightarrow> if P e then None else Some e)"

lemma abs_shm_simps:
  "abs_shm None = Map.empty"
  "length tag = 32 \<Longrightarrow> abs_shm (Some p) tag = sessions (xBuckets p) tag"
  by (auto simp: abs_shm_def fun_eq_iff)

lemma abs_shm_save:
  assumes "pool_wf p" "length tag = 32" "evicted tag (xBuckets p) = None"
  shows "abs_shm (Some (p\<lparr>xBuckets := save_buckets tag e (xBuckets p)\<rparr>)) = (abs_shm (Some p))(tag \<mapsto> e)"
  using assms by (auto simp: abs_shm_def fun_eq_iff sessions_save pool_wf_def)

lemma sessions_zero: "sessions (xBuckets (zero_pool\<lparr>nValidTime := v\<rparr>)) tag = None"
  by (simp add: sessions_eq_None_iff zero_pool_def zero_bucket_def bucket_hit_def)

lemma evicted_zero: "evicted tag (xBuckets (zero_pool\<lparr>nValidTime := v\<rparr>)) = None"
  by (simp add: evicted_def zero_pool_def zero_bucket_def)

text \<open>A save that has room binds its identifier and no other.\<close>

lemma refine_save:
  assumes "shm_wf s" "length tag = 32" "case s of None \<Rightarrow> create | Some p \<Rightarrow> evicted tag (xBuckets p) = None"
  shows "abs_shm (snd (FTMC_SaveSSID create tag t s)) = (abs_shm s)(tag \<mapsto> t + VALID_TIME)"
proof (cases s)
  case None
  let ?z = "zero_pool\<lparr>nValidTime := VALID_TIME\<rparr>"
  have "abs_shm (Some ?z) = Map.empty" using sessions_zero [of VALID_TIME] by (auto simp: abs_shm_def fun_eq_iff)
  with None assms abs_shm_save [OF pool_wf_zero, of tag "t + VALID_TIME"] evicted_zero [of tag VALID_TIME]
  show ?thesis by (simp add: FTMC_SaveSSID_def FTMC_GetPool_def abs_shm_simps(1))
next
  case (Some p)
  with assms show ?thesis by (simp add: SaveSSID_Some abs_shm_save)
qed

lemma abs_shm_map:
  assumes "\<And>tag. length tag = 32 \<Longrightarrow> sessions bs tag = drop_when P (sessions (xBuckets p)) tag"
  shows "abs_shm (Some (p\<lparr>xBuckets := bs\<rparr>)) = drop_when P (abs_shm (Some p))"
  using assms by (auto simp: abs_shm_def drop_when_def fun_eq_iff)

text \<open>A lookup that refuses drops the expired sessions, one that accepts changes nothing.\<close>

lemma refine_valid:
  assumes "shm_wf s" "length tag = 32"
  shows "abs_shm (snd (FTMC_IsValidSSID tag t s)) =
    (case abs_shm s tag of
       Some e \<Rightarrow> if e - t \<le> VALID_TIME then abs_shm s else drop_when (\<lambda>e. e - t > VALID_TIME) (abs_shm s)
     | None \<Rightarrow> drop_when (\<lambda>e. e - t > VALID_TIME) (abs_shm s))"
proof (cases s)
  case None
  then show ?thesis by (simp add: FTMC_IsValidSSID_def abs_shm_simps drop_when_def fun_eq_iff)
next
  case (Some p)
  with assms have wf: "buckets_wf (xBuckets p)" and vt: "nValidTime p = VALID_TIME"
    by (simp_all add: pool_wf_def)
  have purge: "abs_shm (Some (p\<lparr>xBuckets := map (purge_bucket VALID_TIME t) (xBuckets p)\<rparr>)) =
      drop_when (\<lambda>e. e - t > VALID_TIME) (abs_shm (Some p))"
    by (rule abs_shm_map) (auto simp: sessions_purge [OF wf] drop_when_def not_less split: option.split)
  show ?thesis
    using Some purge vt live_iff assms(2)
    by (auto simp: FTMC_IsValidSSID_def Let_def abs_shm_simps sessions_def split: option.splits)
qed

section \<open>The pool as a table of slots\<close>

text \<open>
  What the pool is to its callers, with nothing left out: a table of 100 slots, each empty or with an identifier and its
  expiry. An identifier is stored where it is, else in the first empty slot, else in slot 0; a deletion empties the slot
  of the identifier and every slot behind it, and ends the process if it starts behind the third.
\<close>

type_synonym table = "(string \<times> word32) option list"

definition holds :: "string \<Rightarrow> (string \<times> word32) option \<Rightarrow> bool" where
  "holds tag x \<longleftrightarrow> map_option fst x = Some tag"

definition position :: "(('a \<Rightarrow> bool) \<Rightarrow> 'a list \<Rightarrow> nat)" where
  "position P xs = length (takeWhile (\<lambda>x. \<not> P x) xs)"

definition place :: "string \<Rightarrow> table \<Rightarrow> nat" where
  "place tag m = (if list_ex (holds tag) m then position (holds tag) m
     else if list_ex Option.is_none m then position Option.is_none m else 0)"

definition forget :: "(word32 \<Rightarrow> bool) \<Rightarrow> (string \<times> word32) option \<Rightarrow> (string \<times> word32) option" where
  "forget P x = (case x of None \<Rightarrow> None | Some (u, e) \<Rightarrow> if P e then None else Some (u, e))"

fun spec_call :: "ssid_op \<Rightarrow> table option \<Rightarrow> int res \<times> table option" where
  "spec_call (OpSave create tag t) None =
     (if create then (Inr 0, Some (Some (tag, t + 600) # replicate 99 None)) else (Inr (- 1), None))"
| "spec_call (OpSave create tag t) (Some m) = (Inr 0, Some (m[place tag m := Some (tag, t + 600)]))"
| "spec_call (OpDelete tag) None = (Inr 0, None)"
| "spec_call (OpDelete tag) (Some m) =
     (if list_ex (holds tag) m
      then let i = position (holds tag) m in
        (if i < 3 then Inr 0 else Inl BufferOverflow, Some (take i m @ replicate (100 - i) None))
      else (Inr 0, Some m))"
| "spec_call (OpIsValid tag t) None = (Inr 0, None)"
| "spec_call (OpIsValid tag t) (Some m) =
     (if list_ex (\<lambda>x. case x of None \<Rightarrow> False | Some (u, e) \<Rightarrow> u = tag \<and> e - t \<le> 600) m then (Inr 1, Some m)
      else (Inr 0, Some (map (forget (\<lambda>e. 600 < e - t)) m)))"
| "spec_call (OpTouch tag t) None = (Inr 0, None)"
| "spec_call (OpTouch tag t) (Some m) =
     (if list_ex (holds tag) m then (Inr 1, Some (m[position (holds tag) m := Some (tag, t + 600)])) else (Inr 0, Some m))"
| "spec_call (OpUpdate t) None = (Inr (- 1), None)"
| "spec_call (OpUpdate t) (Some m) = (Inr 0, Some (map (forget (\<lambda>e. 600 < sint (e - t))) m))"

text \<open>A sequence of calls, with the result of each.\<close>

primrec run_calls :: "('o \<Rightarrow> 's \<Rightarrow> 'r \<times> 's) \<Rightarrow> 'o list \<Rightarrow> 's \<Rightarrow> 'r list \<times> 's" where
  "run_calls f [] s = ([], s)"
| "run_calls f (x # xs) s = (case f x s of (r, s1) \<Rightarrow> (case run_calls f xs s1 of (rs, s2) \<Rightarrow> (r # rs, s2)))"

fun op_tagged :: "ssid_op \<Rightarrow> bool" where
  "op_tagged (OpSave create tag t) = (length tag = 32)"
| "op_tagged (OpDelete tag) = (length tag = 32)"
| "op_tagged (OpIsValid tag t) = (length tag = 32)"
| "op_tagged (OpTouch tag t) = (length tag = 32)"
| "op_tagged (OpUpdate t) = True"

definition slot :: "SSID \<Rightarrow> (string \<times> word32) option" where
  "slot b = (if bValid b = 1 then Some (szTag b, xExpiredDate b) else None)"

definition table_of :: "shm \<Rightarrow> table option" where
  "table_of s = map_option (\<lambda>p. map slot (xBuckets p)) s"

lemma first_idx_position: "first_idx P xs = (if list_ex P xs then Some (position P xs) else None)"
  by (induction xs) (auto simp: position_def)

lemma first_idx_slots: "(\<And>b. b \<in> set bs \<Longrightarrow> P b = Q (slot b)) \<Longrightarrow> first_idx P bs = first_idx Q (map slot bs)"
  by (induction bs) auto

lemma hit_slots:
  assumes "length tag = 32"
  shows "first_idx (bucket_hit tag) bs =
    (if list_ex (holds tag) (map slot bs) then Some (position (holds tag) (map slot bs)) else None)"
proof -
  have "first_idx (bucket_hit tag) bs = first_idx (holds tag) (map slot bs)"
    by (rule first_idx_slots) (use assms in \<open>auto simp: bucket_hit_def holds_def slot_def\<close>)
  then show ?thesis by (simp only: first_idx_position)
qed

lemma free_slots:
  assumes "buckets_wf bs"
  shows "first_idx (\<lambda>b. bValid b = 0) bs =
    (if list_ex Option.is_none (map slot bs) then Some (position Option.is_none (map slot bs)) else None)"
proof -
  have "first_idx (\<lambda>b. bValid b = 0) bs = first_idx Option.is_none (map slot bs)"
    by (rule first_idx_slots) (use buckets_wfD(2) [OF assms] in \<open>auto simp: slot_def Option.is_none_def bucket_ok_def\<close>)
  then show ?thesis by (simp only: first_idx_position)
qed

lemma slots_save:
  assumes "buckets_wf bs" "length tag = 32"
  shows "map slot (save_buckets tag e bs) = (map slot bs)[place tag (map slot bs) := Some (tag, e)]"
proof (cases "first_idx (bucket_hit tag) bs")
  case (Some i)
  then have i: "bucket_hit tag (bs ! i)" "i < length bs" by (auto dest: first_idx_SomeD)
  have "place tag (map slot bs) = i"
    using Some unfolding hit_slots [OF assms(2)] by (simp add: place_def split: if_splits)
  with Some i assms(2) show ?thesis by (simp add: save_buckets_def map_update slot_def bucket_hit_def)
next
  case None
  then have "place tag (map slot bs) = save_slot bs"
    unfolding hit_slots [OF assms(2)] save_slot_eq free_slots [OF assms(1)]
    by (simp add: place_def split: if_splits)
  with None assms(2) show ?thesis by (simp add: save_buckets_def map_update slot_def)
qed

lemma call_save:
  assumes "shm_wf s" "length tag = 32"
  shows "spec_call (OpSave create tag t) (table_of s) = apsnd table_of (ssid_call (OpSave create tag t) s)"
proof (cases s)
  case None
  let ?z = "zero_pool\<lparr>nValidTime := VALID_TIME\<rparr>"
  have "map slot (xBuckets ?z) = replicate 100 None" by (simp add: zero_pool_def slot_def zero_bucket_def)
  moreover from this have "place tag (map slot (xBuckets ?z)) = 0"
    by (simp add: place_def position_def holds_def Option.is_none_def list_ex_iff)
  moreover have "(replicate 100 None)[0 := x] = x # replicate 99 None" for x :: "(string \<times> word32) option"
    by (simp add: numeral_eq_Suc)
  ultimately show ?thesis
    using None slots_save [of "xBuckets ?z" tag "t + VALID_TIME"] pool_wf_zero assms(2)
    by (simp add: table_of_def FTMC_SaveSSID_def FTMC_GetPool_def pool_wf_def VALID_TIME_def)
next
  case (Some p)
  with assms slots_save [of "xBuckets p" tag "t + VALID_TIME"] show ?thesis
    by (simp add: table_of_def SaveSSID_Some pool_wf_def VALID_TIME_def)
qed

lemma call_delete:
  assumes "shm_wf s" "length tag = 32"
  shows "spec_call (OpDelete tag) (table_of s) = apsnd table_of (ssid_call (OpDelete tag) s)"
proof (cases s)
  case None
  then show ?thesis by (simp add: table_of_def FTMC_DeleteSSID_def page_rest_def)
next
  case (Some p)
  then have len: "length (xBuckets p) = MAX_BUCKETS" using assms(1) by (simp add: pool_wf_def buckets_wf_def)
  show ?thesis
  proof (cases "first_idx (bucket_hit tag) (xBuckets p)")
    case None
    then have "\<not> list_ex (holds tag) (map slot (xBuckets p))"
      unfolding hit_slots [OF assms(2)] by (simp split: if_splits)
    with None Some show ?thesis by (simp add: table_of_def FTMC_DeleteSSID_def page_rest_def)
  next
    case hit: (Some i)
    then have i: "i < 100" using len by (auto dest: first_idx_SomeD)
    have pos: "list_ex (holds tag) (map slot (xBuckets p))" "position (holds tag) (map slot (xBuckets p)) = i"
      using hit unfolding hit_slots [OF assms(2)] by (simp_all split: if_splits)
    have "map slot (memset_from i (xBuckets p)) = take i (map slot (xBuckets p)) @ replicate (100 - i) None"
      using memset_from_eq [OF len, of i] i len by (simp add: take_map slot_def zero_bucket_def)
    moreover have "4 + sizeof_SSID * i \<le> page_rest \<longleftrightarrow> i < 3"
      by (auto simp: sizeof_SSID_def sizeof_POOL_def page_rest_def)
    ultimately show ?thesis using Some hit pos by (simp add: table_of_def FTMC_DeleteSSID_def Let_def)
  qed
qed

lemma forget_slot:
  "bValid b \<in> {0, 1} \<Longrightarrow> slot (purge_bucket vt t b) = forget (\<lambda>e. vt < e - t) (slot b)"
  "bValid b \<in> {0, 1} \<Longrightarrow> slot (update_bucket vt t b) = forget (\<lambda>e. sint vt < sint (e - t)) (slot b)"
  by (auto simp: slot_def purge_bucket_def update_bucket_def zero_bucket_def forget_def)

lemma forget_slots:
  assumes "buckets_wf bs"
  shows "map slot (map (purge_bucket vt t) bs) = map (forget (\<lambda>e. vt < e - t)) (map slot bs)"
    and "map slot (map (update_bucket vt t) bs) = map (forget (\<lambda>e. sint vt < sint (e - t))) (map slot bs)"
  using forget_slot buckets_wfD(2) [OF assms] by (auto simp: bucket_ok_def)

lemma accepting_slot:
  assumes "buckets_wf bs" "length tag = 32"
  shows "list_ex (\<lambda>x. case x of None \<Rightarrow> False | Some (u, e) \<Rightarrow> u = tag \<and> e - t \<le> v) (map slot bs) \<longleftrightarrow>
    (\<exists>e. sessions bs tag = Some e \<and> e - t \<le> v)"
proof -
  have "(case slot b of None \<Rightarrow> False | Some (u, e) \<Rightarrow> u = tag \<and> e - t \<le> v) \<longleftrightarrow> bucket_hit tag b \<and> xExpiredDate b - t \<le> v" for b
    using assms(2) by (auto simp: slot_def bucket_hit_def)
  then have "list_ex (\<lambda>x. case x of None \<Rightarrow> False | Some (u, e) \<Rightarrow> u = tag \<and> e - t \<le> v) (map slot bs) \<longleftrightarrow>
      (\<exists>b \<in> set bs. bucket_hit tag b \<and> xExpiredDate b - t \<le> v)" by (simp add: list_ex_iff)
  then show ?thesis
    unfolding sessions_eq_Some_iff [OF assms(1)] by (metis in_set_conv_nth)
qed

lemma call_valid:
  assumes "shm_wf s" "length tag = 32"
  shows "spec_call (OpIsValid tag t) (table_of s) = apsnd table_of (ssid_call (OpIsValid tag t) s)"
proof (cases s)
  case None
  then show ?thesis by (simp add: table_of_def FTMC_IsValidSSID_def)
next
  case (Some p)
  then have wf: "buckets_wf (xBuckets p)" and vt: "nValidTime p = VALID_TIME" using assms(1) by (simp_all add: pool_wf_def)
  let ?q = "p\<lparr>xBuckets := map (purge_bucket (nValidTime p) t) (xBuckets p)\<rparr>"
  have "FTMC_IsValidSSID tag t (Some p) = (if \<exists>e. sessions (xBuckets p) tag = Some e \<and> e - t \<le> VALID_TIME then (1, Some p) else (0, Some ?q))"
    using live_iff vt by (auto simp: FTMC_IsValidSSID_def sessions_def Let_def split: option.splits)
  with Some accepting_slot [OF wf assms(2), of t 600] forget_slots(1) [OF wf, of 600 t] vt show ?thesis
    by (auto simp: table_of_def VALID_TIME_def)
qed

lemma call_touch:
  assumes "shm_wf s" "length tag = 32"
  shows "spec_call (OpTouch tag t) (table_of s) = apsnd table_of (ssid_call (OpTouch tag t) s)"
proof (cases s)
  case None
  then show ?thesis by (simp add: table_of_def FTMC_TouchSSID_def)
next
  case (Some p)
  then have vt: "nValidTime p = VALID_TIME" using assms(1) by (simp add: pool_wf_def)
  show ?thesis
  proof (cases "first_idx (bucket_hit tag) (xBuckets p)")
    case None
    then have "\<not> list_ex (holds tag) (map slot (xBuckets p))"
      unfolding hit_slots [OF assms(2)] by (simp split: if_splits)
    with None Some show ?thesis by (simp add: table_of_def FTMC_TouchSSID_def)
  next
    case hit: (Some i)
    then have i: "bucket_hit tag (xBuckets p ! i)" by (auto dest: first_idx_SomeD)
    have "list_ex (holds tag) (map slot (xBuckets p))" "position (holds tag) (map slot (xBuckets p)) = i"
      using hit unfolding hit_slots [OF assms(2)] by (simp_all split: if_splits)
    with Some hit i vt assms(2) show ?thesis
      by (simp add: table_of_def FTMC_TouchSSID_def map_update slot_def bucket_hit_def VALID_TIME_def)
  qed
qed

lemma call_update:
  assumes "shm_wf s"
  shows "spec_call (OpUpdate t) (table_of s) = apsnd table_of (ssid_call (OpUpdate t) s)"
proof (cases s)
  case None
  then show ?thesis by (simp add: table_of_def FTMC_UpdateSSID_def)
next
  case (Some p)
  with assms forget_slots(2) [of "xBuckets p" VALID_TIME t] show ?thesis
    by (simp add: table_of_def FTMC_UpdateSSID_def pool_wf_def VALID_TIME_def)
qed

lemma call_refines: "shm_wf s \<Longrightarrow> op_tagged oper \<Longrightarrow> spec_call oper (table_of s) = apsnd table_of (ssid_call oper s)"
  using call_save call_delete call_valid call_touch call_update by (cases oper) (simp_all del: spec_call.simps ssid_call.simps)

lemma op_tagged_ok: "op_tagged oper \<Longrightarrow> op_ok oper"
  by (cases oper) simp_all

lemma calls_refine:
  "shm_wf s \<Longrightarrow> list_all op_tagged ops \<Longrightarrow> run_calls spec_call ops (table_of s) = apsnd table_of (run_calls ssid_call ops s)"
proof (induction ops arbitrary: s)
  case (Cons oper ops)
  obtain r s1 where c: "ssid_call oper s = (r, s1)" by fastforce
  have "shm_wf s1" using shm_wf_step [of oper s] Cons.prems c by (simp add: op_tagged_ok ssid_step_def)
  from Cons.IH [OF this] call_refines [of s oper] Cons.prems c show ?case by (simp add: case_prod_beta apsnd_def map_prod_def)
qed simp

lemma saved_session_lifetime:
  assumes "shm_wf s" "length tag = 32"
  shows "fst (FTMC_SaveSSID True tag t s) = 0 \<and>
    (fst (FTMC_IsValidSSID tag t' (snd (FTMC_SaveSSID True tag t s))) = 1 \<longleftrightarrow> t' - t \<le> VALID_TIME)"
proof -
  define p where "p = (case s of None \<Rightarrow> zero_pool\<lparr>nValidTime := VALID_TIME\<rparr> | Some p \<Rightarrow> p)"
  have wf: "pool_wf p" using assms(1) pool_wf_zero by (cases s) (simp_all add: p_def)
  have "FTMC_SaveSSID True tag t s = FTMC_SaveSSID True tag t (Some p)"
    by (simp add: FTMC_SaveSSID_def FTMC_GetPool_def p_def split: option.splits)
  moreover have "snd (FTMC_SaveSSID True tag t (Some p)) = Some (pool_save tag t p)"
    using wf by (simp add: SaveSSID_Some pool_save_eq)
  moreover have "fst (FTMC_SaveSSID True tag t (Some p)) = 0" using wf by (simp add: SaveSSID_Some)
  ultimately show ?thesis
    using ssid.save_check_iff [OF wf assms(2), of t' t] by (simp add: pool_check_def case_prod_beta)
qed

section \<open>Properties of the session pool\<close>

text \<open>
  C16. Session lifetime. After \<open>FTMC_SaveSSID\<close> stores an identifier at time \<open>t\<close>, whatever the pool
  held before and even if the segment had to be created, \<open>FTMC_IsValidSSID\<close> accepts it at time
  \<open>t'\<close> exactly when \<open>t' - t\<close>, as a 32-bit difference, is at most 600 seconds; the wrap of the clock
  does not matter.
\<close>

theorem session_lifetime:
  assumes "shm_wf s" "length tag = 32"
  shows "fst (FTMC_SaveSSID True tag t s) = 0 \<and>
    (fst (FTMC_IsValidSSID tag t' (snd (FTMC_SaveSSID True tag t s))) = 1 \<longleftrightarrow> t' - t \<le> VALID_TIME)"
  using assms by (rule saved_session_lifetime)

definition tag_a :: string where "tag_a = replicate 32 (CHR ''a'')"
definition tag_b :: string where "tag_b = replicate 32 (CHR ''b'')"

theorem session_lifetime_witness:
  "fst (FTMC_SaveSSID True tag_a 4294967000 None) = 0 \<and>
    fst (FTMC_IsValidSSID tag_a 200 (snd (FTMC_SaveSSID True tag_a 4294967000 None))) = 1"
  using session_lifetime [of None tag_a 4294967000 200] by (simp add: tag_a_def VALID_TIME_def)

text \<open>
  C6. Refinement. Any sequence of the five operations of \<open>ssid.c\<close>, from a machine without the segment, gives result by result
  what the table of 100 slots gives, and leaves the pool that stands for its last table. So a save keeps a known
  identifier where it is, takes the first empty slot and, in a full table, slot 0; a lookup accepts exactly the
  identifiers that expire within 600 seconds and, when it refuses, drops exactly the expired ones; a touch
  moves the expiry of a known identifier; a deletion clears its slot and all later ones, and kills the process from the
  fourth slot on. The one condition is that identifiers have their 32 bytes.
\<close>

theorem ssid_refines_table:
  assumes "list_all op_tagged ops"
  shows "run_calls spec_call ops None = (fst (run_calls ssid_call ops None), table_of (snd (run_calls ssid_call ops None)))"
  using calls_refine [of None ops] assms by (simp add: table_of_def apsnd_def map_prod_def case_prod_beta)

text \<open>A second session is ended by the logout of the first.\<close>

theorem ssid_refines_table_witness:
  "fst (run_calls ssid_call [OpSave True tag_a 5, OpSave True tag_b 6, OpIsValid tag_b 7, OpDelete tag_a, OpIsValid tag_b 7] None) =
    [Inr 0, Inr 0, Inr 1, Inr 0, Inr 0]"
proof -
  let ?ops = "[OpSave True tag_a 5, OpSave True tag_b 6, OpIsValid tag_b 7, OpDelete tag_a, OpIsValid tag_b 7]"
  have "tag_a \<noteq> tag_b" by (simp add: tag_a_def tag_b_def)
  moreover have "(replicate 99 None :: table) = None # replicate 98 None" by (simp add: numeral_eq_Suc)
  ultimately have "fst (run_calls spec_call ?ops None) = [Inr 0, Inr 0, Inr 1, Inr 0, Inr 0]"
    by (simp add: place_def position_def holds_def list_ex_iff forget_def)
  with ssid_refines_table [of ?ops] show ?thesis by (simp add: tag_a_def tag_b_def)
qed

text \<open>
  C17. Invariant. From a machine without the segment, any sequence of the five operations of
  \<open>ssid.c\<close> leaves no segment or a pool of 100 buckets, each free or in use with a 32-byte
  identifier, no identifier twice, and the validity time at 600 seconds. The one condition is
  that a saved identifier has its 32 bytes.
\<close>

theorem ssid_invariant:
  assumes "list_all op_ok ops"
  shows "shm_wf (fold ssid_step ops None)"
  using assms by (rule shm_wf_fold) simp

theorem ssid_invariant_witness:
  "shm_wf (fold ssid_step [OpSave True tag_a 1, OpTouch tag_a 7, OpIsValid tag_b 900, OpDelete tag_a, OpUpdate 3] None)"
  by (rule ssid_invariant) (simp add: tag_a_def)

text \<open>
  Replacement. When all buckets are in use, \<open>FTMC_SaveSSID\<close> of a new identifier always replaces
  bucket 0, whichever session expires first: the search for the oldest session starts from 0 and
  looks for something smaller in unsigned arithmetic.
\<close>

theorem save_replaces_bucket_0:
  assumes "pool_wf p" "\<forall>b \<in> set (xBuckets p). bValid b = 1" "\<forall>b \<in> set (xBuckets p). szTag b \<noteq> take 32 tag"
  shows "FTMC_SaveSSID create tag t (Some p) = (0, Some (p\<lparr>xBuckets := (xBuckets p)[0 :=
    \<lparr>bValid = 1, szTag = take 32 tag, xExpiredDate = t + VALID_TIME\<rparr>]\<rparr>))"
proof -
  have "first_idx (bucket_hit tag) (xBuckets p) = None" "first_idx (\<lambda>b. bValid b = 0) (xBuckets p) = None"
    using assms by (auto simp: first_idx_None_iff bucket_hit_def)
  with assms(1) show ?thesis by (simp add: SaveSSID_Some save_buckets_def save_slot_eq)
qed

definition full_pool :: SSID_POOL where
  "full_pool = \<lparr>nValidTime = VALID_TIME,
     xBuckets = map (\<lambda>i. \<lparr>bValid = 1, szTag = char_of i # replicate 31 (CHR ''a''),
       xExpiredDate = of_nat (1000 - i)\<rparr>) [0..<100]\<rparr>"

lemma full_pool_wf: "pool_wf full_pool"
proof -
  have "i = j" if "i < 100" "j < 100" "(char_of i :: char) = char_of j" for i j :: nat
    using arg_cong [OF that(3), of "of_char :: char \<Rightarrow> nat"] that(1,2) by simp
  then show ?thesis by (auto simp: full_pool_def pool_wf_def buckets_wf_def bucket_ok_def)
qed

theorem save_replaces_bucket_0_witness:
  "snd (FTMC_SaveSSID True (replicate 32 (CHR ''z'')) 5 (Some full_pool)) =
    Some (full_pool\<lparr>xBuckets := (xBuckets full_pool)[0 :=
      \<lparr>bValid = 1, szTag = replicate 32 (CHR ''z''), xExpiredDate = 605\<rparr>]\<rparr>)"
proof -
  have "last (szTag b) = CHR ''a''" "bValid b = 1" if "b \<in> set (xBuckets full_pool)" for b
    using that by (auto simp: full_pool_def)
  moreover have "last (take 32 (replicate 32 (CHR ''z''))) \<noteq> CHR ''a''" by simp
  ultimately have "\<forall>b \<in> set (xBuckets full_pool). bValid b = 1"
    "\<forall>b \<in> set (xBuckets full_pool). szTag b \<noteq> take 32 (replicate 32 (CHR ''z''))" by metis+
  from save_replaces_bucket_0 [OF full_pool_wf this, of True 5] show ?thesis
    by (simp add: VALID_TIME_def)
qed

text \<open>
  Deletion. \<open>FTMC_DeleteSSID\<close> of the session in bucket \<open>i\<close> clears the sizeof of the pool and not
  of a bucket: the sessions in every later bucket are gone too, and \<open>4 + 40 * i\<close> bytes behind the
  pool are overwritten.
\<close>

theorem delete_wipes_later_buckets:
  assumes "pool_wf p" "first_idx (bucket_hit tag) (xBuckets p) = Some i"
  shows "FTMC_DeleteSSID tag (Some p) =
    (0, Some (p\<lparr>xBuckets := take i (xBuckets p) @ replicate (100 - i) zero_bucket\<rparr>), 4 + 40 * i)"
proof -
  have "length (xBuckets p) = MAX_BUCKETS" using assms(1) by (simp add: pool_wf_def buckets_wf_def)
  with assms(2) memset_from_eq [of "xBuckets p" i] show ?thesis
    by (auto simp: FTMC_DeleteSSID_def sizeof_SSID_def dest: first_idx_SomeD)
qed

theorem delete_wipes_later_buckets_witness:
  "FTMC_DeleteSSID (char_of (3::nat) # replicate 31 (CHR ''a'')) (Some full_pool) =
    (0, Some (full_pool\<lparr>xBuckets := take 3 (xBuckets full_pool) @ replicate 97 zero_bucket\<rparr>), 124)"
proof -
  have "xBuckets full_pool ! 3 = \<lparr>bValid = 1, szTag = char_of (3::nat) # replicate 31 (CHR ''a''),
      xExpiredDate = of_nat (1000 - 3)\<rparr>" "3 < length (xBuckets full_pool)"
    by (simp_all only: full_pool_def SSID_POOL.simps nth_map length_map length_upt nth_upt) simp_all
  then have "first_idx (bucket_hit (char_of (3::nat) # replicate 31 (CHR ''a''))) (xBuckets full_pool) = Some 3"
    by (intro hit_first_idx) (use full_pool_wf in \<open>simp_all add: pool_wf_def bucket_hit_def\<close>)
  from delete_wipes_later_buckets [OF full_pool_wf this] show ?thesis by simp
qed

end
