(* ===== verification/Cgi.thy ===== *)
theory Cgi
  imports Tty Ssid
begin

text \<open>
  The world of one run of the web configuration program \<open>req.cgi\<close> (\<open>www/cgi-src\<close>): the operating
  system, the request as the linked list that \<open>qdecoder\<close> (\<open>qentry.c\<close>) keeps, the session pool in
  shared memory, the time and the modem port. Then the reply functions of \<open>qcgires.c\<close> and \<open>xml.c\<close> and the service
  control of \<open>util.c\<close>.
\<close>

type_synonym qentry = "(string \<times> string) list"

record cgi = os +
  req :: qentry
  req_live :: bool      \<comment> \<open>the request has not been released\<close>
  pool :: shm
  can_create :: bool    \<comment> \<open>\<open>shmget\<close> can create the segment\<close>
  now :: word32         \<comment> \<open>\<open>time(0)\<close>\<close>
  remote :: bool        \<comment> \<open>\<open>REMOTE_ADDR\<close> is set\<close>
  exited :: bool        \<comment> \<open>\<open>exit\<close> has been called\<close>
  modem_tty :: termios  \<comment> \<open>the settings of the modem port\<close>
  modem_sent :: "string list"   \<comment> \<open>what has been written to the modem port\<close>

type_synonym handler = "cgi \<Rightarrow> (int \<times> cgi) res"

section \<open>The request list\<close>

definition qentry_get :: "qentry \<Rightarrow> string \<Rightarrow> string option" where
  "qentry_get e name = map_of e name"

definition qentry_remove :: "qentry \<Rightarrow> string \<Rightarrow> qentry" where
  "qentry_remove e name = filter (\<lambda>x. fst x \<noteq> name) e"

definition qentry_putstr :: "qentry \<Rightarrow> string \<Rightarrow> string \<Rightarrow> bool \<Rightarrow> qentry" where
  "qentry_putstr e name s replace = (if replace then qentry_remove e name else e) @ [(name, s)]"

text \<open>A value as the C string the handlers see, and as a number.\<close>

definition getstr :: "cgi \<Rightarrow> string \<Rightarrow> string option" where
  "getstr w name = map_option cstr (qentry_get (req w) name)"

definition getint :: "cgi \<Rightarrow> string \<Rightarrow> int" where
  "getint w name = (case getstr w name of None \<Rightarrow> 0 | Some s \<Rightarrow> atoi s)"

definition req_free :: "cgi \<Rightarrow> cgi res" where
  "req_free w = (if req_live w then Inr (w\<lparr>req := [], req_live := False\<rparr>) else Inl UseAfterFree)"

lemma qentry_get_putstr:
  "qentry_get (qentry_putstr e n s True) m = (if m = n then Some s else qentry_get e m)"
proof -
  have "map_of (filter (\<lambda>x. fst x \<noteq> n) e) m = (if m = n then None else map_of e m)"
    by (induction e) auto
  then show ?thesis
    by (auto simp: qentry_get_def qentry_putstr_def qentry_remove_def map_add_def split: option.splits)
qed

interpretation request: entry_map "\<lambda>n s e. qentry_putstr e n s True" qentry_get
  by unfold_locales (rule qentry_get_putstr)

section \<open>Replies\<close>

definition line :: "string \<Rightarrow> string" where "line s = s @ [nl]"

definition print :: "string \<Rightarrow> 'a os_scheme \<Rightarrow> 'a os_scheme" where
  "print s w = puts (s @ [nl]) w"

definition qcgires_setcontenttype :: "string \<Rightarrow> cgi \<Rightarrow> cgi" where
  "qcgires_setcontenttype mime w = (if getstr w ''_Q_CONTENTTYPE'' \<noteq> None then w
     else (puts (''Content-Type: '' @ mime @ [nl, nl]) w)
       \<lparr>req := qentry_putstr (req w) ''_Q_CONTENTTYPE'' mime True\<rparr>)"

definition error_page :: "string \<Rightarrow> cgi \<Rightarrow> cgi" where
  "error_page msg w = (if \<not> remote w then print (''Error: '' @ msg) w
     else puts (concat (map line
       [''<html>'', ''<head>'', ''<title>Error: '' @ msg @ ''</title>'',
        ''<script language='' @ [CHR 0x27] @ ''JavaScript'' @ [CHR 0x27] @ ''>'',
        ''  alert('' @ [CHR 0x22] @ msg @ [CHR 0x22] @ '');'', ''  history.back();'', ''</script>'',
        ''</head>'', ''</html>'']))
       (qcgires_setcontenttype ''text/html'' w))"

text \<open>\<open>qcgires_error\<close> prints the page, releases the request and ends the process.\<close>

definition qcgires_error :: "string \<Rightarrow> cgi \<Rightarrow> cgi res" where
  "qcgires_error msg w = bindE (req_free (error_page msg w)) (\<lambda>w. Inr (w\<lparr>exited := True\<rparr>))"

definition xml_decl :: string where
  "xml_decl = ''<?xml version='' @ [CHR 0x27] @ ''1.0'' @ [CHR 0x27] @ '' encoding='' @ [CHR 0x27] @
     ''ISO-8859-1'' @ [CHR 0x27] @ ''?>''"

definition XML_PutHeader :: "cgi \<Rightarrow> cgi" where
  "XML_PutHeader w = print xml_decl (qcgires_setcontenttype ''text/xml'' w)"

definition open_tag :: "string \<Rightarrow> string" where "open_tag t = ''<'' @ t @ ''>''"
definition close_tag :: "string \<Rightarrow> string" where "close_tag t = ''</'' @ t @ ''>''"
definition elem :: "string \<Rightarrow> string \<Rightarrow> string" where "elem t body = open_tag t @ body @ close_tag t"

definition XML_PutError :: "string \<Rightarrow> string option \<Rightarrow> cgi \<Rightarrow> cgi" where
  "XML_PutError cmd msg w =
     (let w = print (elem ''RET'' ''ERROR'') (print (open_tag cmd) w);
          w = (case msg of None \<Rightarrow> w | Some m \<Rightarrow> print (elem ''MSG'' m) w)
      in print (close_tag cmd) w)"

definition XML_PutOK :: "string \<Rightarrow> cgi \<Rightarrow> cgi" where
  "XML_PutOK cmd w = print (close_tag cmd) (print (elem ''RET'' ''OK'') (print (open_tag cmd) w))"

section \<open>Services\<close>

datatype PROC_STATUS = PROC_STATUS_STOPPED | PROC_STATUS_RUNNING

definition PROC_Status :: "shell \<Rightarrow> string \<Rightarrow> 'a os_scheme \<Rightarrow> (PROC_STATUS \<times> 'a os_scheme) res" where
  "PROC_Status sh szProc w = bindE (sprintf 1024 (''/usr/bin/service '' @ szProc @ '' status'')) (\<lambda>szCmd.
     case popen sh szCmd w of
       (None, w1) \<Rightarrow> Inr (PROC_STATUS_STOPPED, w1)
     | (Some ans, w1) \<Rightarrow> bindE (fscanf_word 16 ans) (\<lambda>szStatus.
         Inr (if szStatus = ''running'' then PROC_STATUS_RUNNING else PROC_STATUS_STOPPED, w1)))"

definition PROC_Active :: "string \<Rightarrow> 'a os_scheme \<Rightarrow> int res" where
  "PROC_Active szProc w = bindE (sprintf 1024 (''/etc/service/'' @ szProc)) (\<lambda>szFilePath.
     case files w szFilePath of
       None \<Rightarrow> Inr 0
     | Some c \<Rightarrow> bindE (fscanf_word 16 c) (\<lambda>szActive. Inr (if szActive = ''enabled'' then 1 else 0)))"

definition PROC_SetActive :: "shell \<Rightarrow> string \<Rightarrow> bool \<Rightarrow> 'a os_scheme \<Rightarrow> 'a os_scheme res" where
  "PROC_SetActive sh szProc bEnabled w =
     bindE (sprintf 1024 ((if bEnabled then ''echo enabled > /etc/service/'' else ''echo disabled > /etc/service/'') @
       szProc @ '';sync;sync'')) (\<lambda>szCmd.
     case popen sh szCmd w of
       (None, _) \<Rightarrow> Inl NullPointer
     | (Some ans, w1) \<Rightarrow> bindE (scanf_s 1024 ans) (\<lambda>_. Inr w1))"

definition PROC_Restart :: "shell \<Rightarrow> string \<Rightarrow> 'a os_scheme \<Rightarrow> 'a os_scheme res" where
  "PROC_Restart sh szProc w =
     bindE (sprintf 1024 (''/usr/bin/service '' @ szProc @ '' restart &'')) (\<lambda>szCmd. system_wait sh szCmd w)"

section \<open>Frame facts\<close>

lemma print_frame [simp]:
  "req (print s w) = req w" "req_live (print s w) = req_live w" "pool (print s w) = pool w"
  "can_create (print s w) = can_create w" "now (print s w) = now w" "remote (print s w) = remote w"
  "exited (print s w) = exited w"
  for w :: cgi
  by (simp_all add: print_def puts_def)

lemma print_os [simp]:
  "files (print s w) = files w" "wperm (print s w) = wperm w" "cmds (print s w) = cmds w"
  "out (print s w) = out w @ s @ [nl]" "clock (print s w) = clock w" "os.more (print s w) = os.more w"
  by (simp_all add: print_def)

lemma puts_cgi [simp]:
  "req (puts t w) = req w" "req_live (puts t w) = req_live w" "pool (puts t w) = pool w" "exited (puts t w) = exited w"
  for w :: cgi
  by (simp_all add: puts_def)

lemma write_file_cgi [simp]:
  "req (write_file f t w) = req w" "req_live (write_file f t w) = req_live w" "pool (write_file f t w) = pool w"
  "exited (write_file f t w) = exited w"
  for w :: cgi
  by (simp_all add: write_file_def)

lemma contenttype_frame [simp]:
  "files (qcgires_setcontenttype m w) = files w" "wperm (qcgires_setcontenttype m w) = wperm w"
  "cmds (qcgires_setcontenttype m w) = cmds w" "clock (qcgires_setcontenttype m w) = clock w"
  "req_live (qcgires_setcontenttype m w) = req_live w" "pool (qcgires_setcontenttype m w) = pool w"
  "can_create (qcgires_setcontenttype m w) = can_create w" "now (qcgires_setcontenttype m w) = now w"
  "remote (qcgires_setcontenttype m w) = remote w" "exited (qcgires_setcontenttype m w) = exited w"
  by (simp_all add: qcgires_setcontenttype_def puts_def)

lemma getstr_contenttype [simp]:
  "n \<noteq> ''_Q_CONTENTTYPE'' \<Longrightarrow> getstr (qcgires_setcontenttype m w) n = getstr w n"
  by (simp add: qcgires_setcontenttype_def getstr_def qentry_get_putstr puts_def)

lemma getstr_print [simp]: "getstr (print s w) n = getstr w n"
  by (simp add: getstr_def)

lemma header_frame [simp]:
  "files (XML_PutHeader w) = files w" "wperm (XML_PutHeader w) = wperm w"
  "cmds (XML_PutHeader w) = cmds w" "clock (XML_PutHeader w) = clock w"
  "req_live (XML_PutHeader w) = req_live w" "pool (XML_PutHeader w) = pool w"
  "can_create (XML_PutHeader w) = can_create w" "now (XML_PutHeader w) = now w"
  "remote (XML_PutHeader w) = remote w" "exited (XML_PutHeader w) = exited w"
  by (simp_all add: XML_PutHeader_def)

lemma getstr_header [simp]: "n \<noteq> ''_Q_CONTENTTYPE'' \<Longrightarrow> getstr (XML_PutHeader w) n = getstr w n"
  by (simp add: XML_PutHeader_def)

lemma xml_frame [simp]:
  "wperm (XML_PutError c m w) = wperm w" "wperm (XML_PutOK c w) = wperm w"
  "files (XML_PutError c m w) = files w" "cmds (XML_PutError c m w) = cmds w"
  "pool (XML_PutError c m w) = pool w" "req_live (XML_PutError c m w) = req_live w"
  "exited (XML_PutError c m w) = exited w"
  "files (XML_PutOK c w) = files w" "cmds (XML_PutOK c w) = cmds w"
  "pool (XML_PutOK c w) = pool w" "req_live (XML_PutOK c w) = req_live w"
  "exited (XML_PutOK c w) = exited w"
  by (simp_all add: XML_PutError_def XML_PutOK_def Let_def split: option.splits)

text \<open>The content type is printed once however often a handler asks for it.\<close>

lemma contenttype_once:
  "qcgires_setcontenttype m' (qcgires_setcontenttype m w) = qcgires_setcontenttype m w"
proof (cases "getstr w ''_Q_CONTENTTYPE''")
  case None
  then have "getstr (qcgires_setcontenttype m w) ''_Q_CONTENTTYPE'' = Some (cstr m)"
    by (simp add: qcgires_setcontenttype_def getstr_def qentry_get_putstr puts_def)
  then show ?thesis unfolding qcgires_setcontenttype_def [of m' "qcgires_setcontenttype m w"] by simp
next
  case (Some s)
  then show ?thesis by (simp add: qcgires_setcontenttype_def)
qed

end
