(* ===== verification/Profile.thy ===== *)
theory Profile
  imports Cgi
begin

text \<open>
  \<open>www/cgi-src/profile.c\<close>: the device profile (model, serial number, location, user and password)
  in \<open>/etc/httpd.conf\<close>. The character arrays of \<open>FTMC_PROFILE_CONFIG\<close> are adjacent, so the struct
  is kept as the 229 bytes they take up: a copy that is longer than its array lands in the next one.
\<close>

record FTMC_PROFILE_CONFIG =
  chars :: string
  nTimeout :: int

definition off_Model :: nat where "off_Model = 0"
definition off_SerialNumber :: nat where "off_SerialNumber = 65"
definition off_Location :: nat where "off_Location = 98"
definition off_UserID :: nat where "off_UserID = 163"
definition off_Passwd :: nat where "off_Passwd = 196"
definition sizeof_chars :: nat where "sizeof_chars = 229"

lemmas off_defs = off_Model_def off_SerialNumber_def off_Location_def off_UserID_def off_Passwd_def
  sizeof_chars_def

definition szModel :: "FTMC_PROFILE_CONFIG \<Rightarrow> string" where
  "szModel p = cstr (drop off_Model (chars p))"
definition szSerialNumber :: "FTMC_PROFILE_CONFIG \<Rightarrow> string" where
  "szSerialNumber p = cstr (drop off_SerialNumber (chars p))"
definition szLocation :: "FTMC_PROFILE_CONFIG \<Rightarrow> string" where
  "szLocation p = cstr (drop off_Location (chars p))"
definition szUserID :: "FTMC_PROFILE_CONFIG \<Rightarrow> string" where
  "szUserID p = cstr (drop off_UserID (chars p))"
definition szPasswd :: "FTMC_PROFILE_CONFIG \<Rightarrow> string" where
  "szPasswd p = cstr (drop off_Passwd (chars p))"

lemmas field_defs = szModel_def szSerialNumber_def szLocation_def szUserID_def szPasswd_def

definition put_chars :: "nat \<Rightarrow> string \<Rightarrow> FTMC_PROFILE_CONFIG \<Rightarrow> FTMC_PROFILE_CONFIG" where
  "put_chars off bs p = p\<lparr>chars := poke off bs (chars p)\<rparr>"

definition zero_profile :: FTMC_PROFILE_CONFIG where
  "zero_profile = \<lparr>chars = replicate sizeof_chars nul, nTimeout = 0\<rparr>"

text \<open>\<open>FTMC_SkipSpace\<close> on the C string it is given: the string it returns a pointer to.\<close>

definition FTMC_SkipSpace :: "string \<Rightarrow> string" where
  "FTMC_SkipSpace s = rtrim (ltrim s)"

text \<open>
  One turn of the loop over the lines. \<open>buf\<close> is \<open>szBuf\<close>, which keeps its contents for the reads
  that follow the loop; trimming a value also cuts the line in \<open>szBuf\<close>.
\<close>

definition after_skip :: "string \<Rightarrow> string \<Rightarrow> string" where
  "after_skip l rest = (if ltrim rest = [] then l else rtrim l)"

definition load_line ::
  "string \<Rightarrow> FTMC_PROFILE_CONFIG \<times> string option \<Rightarrow> (FTMC_PROFILE_CONFIG \<times> string option) res" where
  "load_line chunk st = (let l = cstr chunk; xConfig = fst st in
     if take 1 l = ''#'' then Inr (xConfig, Some l)
     else bindE (scanf_s 32 l) (\<lambda>r. case r of
       None \<Rightarrow> Inr (xConfig, Some l)
     | Some (tag, _) \<Rightarrow>
        (let rest = drop (length tag) l; val = FTMC_SkipSpace rest; buf = Some (after_skip l rest) in
         if tag = ''location:'' then Inr (put_chars off_Location (strncpy_bytes 64 val) xConfig, buf)
         else if tag = ''userid:'' then Inr (put_chars off_UserID (strncpy_bytes 32 val) xConfig, buf)
         else if tag = ''passwd:'' then Inr (put_chars off_Passwd (strncpy_bytes 32 val) xConfig, buf)
         else if tag = ''timeout:'' then (case scanf_d rest of
             None \<Rightarrow> Inl UninitRead
           | Some (n, _) \<Rightarrow> Inr (if n < 0 then xConfig\<lparr>nTimeout := n\<rparr> else xConfig, buf))
         else Inr (xConfig, Some l))))"

fun load_lines ::
  "string list \<Rightarrow> FTMC_PROFILE_CONFIG \<times> string option \<Rightarrow> (FTMC_PROFILE_CONFIG \<times> string option) res" where
  "load_lines [] st = Inr st"
| "load_lines (c # cs) st = bindE (load_line c st) (load_lines cs)"

text \<open>
  \<open>fscanf(fp, "%s", szBuf)\<close> on one of the two identity files, then the copy of \<open>szBuf\<close> into the
  struct: \<open>sizeof(szModel) - 1\<close> bytes for both arrays.
\<close>

definition load_id ::
  "string option \<Rightarrow> nat \<Rightarrow> FTMC_PROFILE_CONFIG \<times> string option \<Rightarrow> (FTMC_PROFILE_CONFIG \<times> string option) res" where
  "load_id content off st = (case content of
      None \<Rightarrow> Inr st
    | Some c \<Rightarrow> bindE (scanf_s 512 c) (\<lambda>r.
       (case (case r of None \<Rightarrow> snd st | Some (t, _) \<Rightarrow> Some t) of
          None \<Rightarrow> Inl UninitRead
        | Some b \<Rightarrow> Inr (put_chars off (strncpy_bytes 64 b) (fst st), Some b))))"

definition FTMC_LoadProfileConfig :: "files \<Rightarrow> FTMC_PROFILE_CONFIG option res" where
  "FTMC_LoadProfileConfig fs = (case fs ''/etc/httpd.conf'' of
      None \<Rightarrow> Inr None
    | Some c \<Rightarrow>
       bindE (load_lines (fgets_all 512 c) (zero_profile, None)) (\<lambda>st.
       bindE (load_id (fs ''/var/lib/misc/model'') off_Model st) (\<lambda>st.
       bindE (load_id (fs ''/var/lib/misc/sn'') off_SerialNumber st) (\<lambda>st.
       Inr (Some (fst st))))))"

definition profile_text :: "FTMC_PROFILE_CONFIG \<Rightarrow> string" where
  "profile_text p = ''location: '' @ szLocation p @ nl # ''userid: '' @ szUserID p @ nl #
     ''passwd: '' @ szPasswd p @ nl # ''timeout: '' @ show_int (nTimeout p) @ [nl]"

definition cp_command :: string where
  "cp_command = ''cp -f /tmp/httpd.conf /etc/httpd.conf''"

definition FTMC_SaveProfileConfig ::
  "shell \<Rightarrow> FTMC_PROFILE_CONFIG \<Rightarrow> 'a os_scheme \<Rightarrow> (int \<times> 'a os_scheme) res" where
  "FTMC_SaveProfileConfig sh pConfig w = (if \<not> wperm w ''/tmp/httpd.conf'' then Inr (- 1, w)
     else bindE (system_wait sh cp_command (write_file ''/tmp/httpd.conf'' (profile_text pConfig) w))
       (\<lambda>w. Inr (0, w)))"

section \<open>The struct as an array of fields\<close>

definition profile_wf :: "FTMC_PROFILE_CONFIG \<Rightarrow> bool" where
  "profile_wf p \<longleftrightarrow> length (chars p) = sizeof_chars"

lemma profile_wf_put [simp]:
  "profile_wf p \<Longrightarrow> off + length bs \<le> sizeof_chars \<Longrightarrow> profile_wf (put_chars off bs p)"
  by (simp add: profile_wf_def put_chars_def)

lemma profile_wf_zero [simp]: "profile_wf zero_profile"
  by (simp add: profile_wf_def zero_profile_def)

lemma strncpy_bytes_eq: "nul \<notin> set v \<Longrightarrow> length v \<le> n \<Longrightarrow> strncpy_bytes n v = v @ replicate (n - length v) nul"
  by (simp add: strncpy_bytes_def cstr_id)

lemma cstr_pad: "nul \<notin> set v \<Longrightarrow> cstr (v @ replicate (Suc k) nul @ r) = v"
  by (simp add: cstr_append_nul)

text \<open>A string written into its array, with the array's last byte still zero, reads back.\<close>

lemma cstr_drop_poke_same:
  assumes "off + n < length mem" "mem ! (off + n) = nul" "nul \<notin> set v" "length v \<le> n"
  shows "cstr (drop off (poke off (strncpy_bytes n v) mem)) = v"
proof -
  have "drop (off + n) mem = nul # drop (Suc (off + n)) mem"
    using assms(1,2) by (metis Cons_nth_drop_Suc)
  then have "drop off (poke off (strncpy_bytes n v) mem) =
      v @ replicate (n - length v) nul @ nul # drop (Suc (off + n)) mem"
    using assms by (simp add: poke_def strncpy_bytes_eq)
  also have "\<dots> = v @ replicate (Suc (n - length v)) nul @ drop (Suc (off + n)) mem"
    by (simp add: replicate_app_Cons_same)
  finally show ?thesis using cstr_pad [OF assms(3)] by simp
qed

lemma cstr_drop_poke_below:
  assumes "off + length bs \<le> length mem" "i < off" "\<exists>j. i \<le> j \<and> j < off \<and> mem ! j = nul"
  shows "cstr (drop i (poke off bs mem)) = cstr (drop i mem)"
proof -
  from assms(3) obtain j where j: "i \<le> j" "j < off" "mem ! j = nul" by blast
  have split: "drop i m = take (j - i) (drop i m) @ m ! j # drop (Suc j) m" if "length m = length mem" for m
    using that j assms(1) by (metis Cons_nth_drop_Suc append_take_drop_id drop_drop le_add_diff_inverse2
        less_le_trans add_leD1)
  have eq: "take (j - i) (drop i (poke off bs mem)) = take (j - i) (drop i mem)"
    using assms(1) j by (auto simp: nth_poke intro!: nth_equalityI)
  have cut: "cstr (u @ nul # r) = cstr u" for u r by (induction u) (auto simp: cstr_def)
  have "poke off bs mem ! j = nul" using nth_poke [OF assms(1), of j] j assms(1) by simp
  with split [of mem] split [of "poke off bs mem"] eq j(3) assms(1) show ?thesis
    by (metis cut length_poke)
qed

lemma cstr_drop_poke_above:
  assumes "off + length bs \<le> i" "off \<le> length mem"
  shows "cstr (drop i (poke off bs mem)) = cstr (drop i mem)"
  using assms by (simp add: poke_def)

text \<open>The last byte of every array is zero, so each array holds a C string of its own.\<close>

definition sealed :: "FTMC_PROFILE_CONFIG \<Rightarrow> bool" where
  "sealed p \<longleftrightarrow> profile_wf p \<and> (\<forall>k \<in> {64, 97, 162, 195, 228}. chars p ! k = nul)"

lemma sealed_zero: "sealed zero_profile"
  by (simp add: sealed_def zero_profile_def sizeof_chars_def profile_wf_def)

lemma nth_put_chars:
  "profile_wf p \<Longrightarrow> off + length bs \<le> sizeof_chars \<Longrightarrow> k < sizeof_chars \<Longrightarrow>
   chars (put_chars off bs p) ! k = (if off \<le> k \<and> k < off + length bs then bs ! (k - off) else chars p ! k)"
  by (simp add: put_chars_def nth_poke profile_wf_def)

lemma sealed_put:
  assumes "sealed p" "(off, n) \<in> {(off_Model, 64), (off_Location, 64), (off_UserID, 32), (off_Passwd, 32)}"
  shows "sealed (put_chars off (strncpy_bytes n v) p)"
proof -
  have wf: "profile_wf p" using assms(1) by (simp add: sealed_def)
  have fit: "off + n \<le> sizeof_chars" using assms(2) by (auto simp: off_defs)
  have "chars (put_chars off (strncpy_bytes n v) p) ! k = nul" if "k \<in> {64, 97, 162, 195, 228}" for k
    using assms that nth_put_chars [OF wf, of off "strncpy_bytes n v" k] fit
    by (auto simp: sealed_def off_defs)
  then show ?thesis using wf fit by (simp add: sealed_def)
qed

lemma field_put_same:
  assumes "sealed p" "nul \<notin> set v" "length v \<le> n"
    and "(off, n) \<in> {(off_Model, 64), (off_Location, 64), (off_UserID, 32), (off_Passwd, 32)}"
  shows "cstr (drop off (chars (put_chars off (strncpy_bytes n v) p))) = v"
  unfolding put_chars_def using assms
  by (simp, intro cstr_drop_poke_same) (auto simp: sealed_def profile_wf_def off_defs)

lemma field_put_other:
  assumes "sealed p" "off + n \<le> sizeof_chars" "i \<in> {off_Model, off_SerialNumber, off_Location, off_UserID, off_Passwd}"
    and "(off, n) \<in> {(off_Model, 64), (off_Location, 64), (off_UserID, 32), (off_Passwd, 32)}" "i \<noteq> off"
  shows "cstr (drop i (chars (put_chars off (strncpy_bytes n v) p))) = cstr (drop i (chars p))"
proof (cases "i < off")
  case True
  have "\<exists>j. i \<le> j \<and> j < off \<and> chars p ! j = nul"
  proof -
    have "\<exists>j \<in> {64, 97, 162, 195, 228}. i \<le> j \<and> j < off" using assms(3,4) True by (auto simp: off_defs)
    with assms(1) show ?thesis by (auto simp: sealed_def)
  qed
  with True assms show ?thesis
    by (simp add: put_chars_def cstr_drop_poke_below sealed_def profile_wf_def)
next
  case False
  with assms(3,4,5) have "off + n \<le> i" by (auto simp: off_defs)
  with assms show ?thesis
    by (simp add: put_chars_def cstr_drop_poke_above sealed_def profile_wf_def)
qed

lemma fields_put_Location:
  assumes "sealed p" "nul \<notin> set v" "length v \<le> 64"
  shows "szLocation (put_chars off_Location (strncpy_bytes 64 v) p) = v"
    "szUserID (put_chars off_Location (strncpy_bytes 64 v) p) = szUserID p"
    "szPasswd (put_chars off_Location (strncpy_bytes 64 v) p) = szPasswd p"
  unfolding field_defs using assms
  by (auto intro!: field_put_same field_put_other simp: off_defs)

lemma fields_put_UserID:
  assumes "sealed p" "nul \<notin> set v" "length v \<le> 32"
  shows "szUserID (put_chars off_UserID (strncpy_bytes 32 v) p) = v"
    "szLocation (put_chars off_UserID (strncpy_bytes 32 v) p) = szLocation p"
    "szPasswd (put_chars off_UserID (strncpy_bytes 32 v) p) = szPasswd p"
  unfolding field_defs using assms
  by (auto intro!: field_put_same field_put_other simp: off_defs)

lemma fields_put_Passwd:
  assumes "sealed p" "nul \<notin> set v" "length v \<le> 32"
  shows "szPasswd (put_chars off_Passwd (strncpy_bytes 32 v) p) = v"
    "szLocation (put_chars off_Passwd (strncpy_bytes 32 v) p) = szLocation p"
    "szUserID (put_chars off_Passwd (strncpy_bytes 32 v) p) = szUserID p"
  unfolding field_defs using assms
  by (auto intro!: field_put_same field_put_other simp: off_defs)

lemma fields_put_Model:
  assumes "sealed p" "nul \<notin> set v" "length v \<le> 64"
  shows "szModel (put_chars off_Model (strncpy_bytes 64 v) p) = v"
    "szLocation (put_chars off_Model (strncpy_bytes 64 v) p) = szLocation p"
    "szUserID (put_chars off_Model (strncpy_bytes 64 v) p) = szUserID p"
    "szPasswd (put_chars off_Model (strncpy_bytes 64 v) p) = szPasswd p"
proof -
  show "szModel (put_chars off_Model (strncpy_bytes 64 v) p) = v"
    unfolding szModel_def using assms by (rule field_put_same) simp
qed (unfold field_defs, use assms(1) in \<open>auto intro!: field_put_other simp: off_defs\<close>)

section \<open>Reading back what was written\<close>

definition value_ok :: "nat \<Rightarrow> string \<Rightarrow> bool" where
  "value_ok n v \<longleftrightarrow> nul \<notin> set v \<and> nl \<notin> set v \<and> length v \<le> n \<and>
     (v = [] \<or> \<not> isspace (hd v) \<and> \<not> isspace (last v))"

lemma SkipSpace_value:
  assumes "value_ok n v"
  shows "FTMC_SkipSpace (CHR '' '' # v @ [nl]) = v"
proof (cases "v = []")
  case True
  then show ?thesis by (simp add: FTMC_SkipSpace_def ltrim_def rtrim_def isspace_def)
next
  case False
  with assms have "\<not> isspace (hd v)" "\<not> isspace (last v)" by (auto simp: value_ok_def)
  with False have "ltrim (v @ [nl]) = v @ [nl]" by (intro ltrim_id) simp
  then have "ltrim (CHR '' '' # v @ [nl]) = v @ [nl]" by (simp add: ltrim_space isspace_def)
  moreover have "rtrim (v @ [nl]) = v"
    using \<open>\<not> isspace (last v)\<close> by (simp add: rtrim_snoc_space isspace_def rtrim_id)
  ultimately show ?thesis by (simp add: FTMC_SkipSpace_def)
qed

text \<open>A line \<open>key value\<close>: the word scanned is the key and the rest trims to the value.\<close>

lemma scan_key:
  assumes "key \<noteq> []" "\<forall>c \<in> set key. \<not> isspace c" "length key < n"
  shows "scanf_s n (key @ CHR '' '' # r) = Inr (Some (key, CHR '' '' # r))"
  using scan_tok_word_sp [OF assms(1,2), of "CHR '' ''" r] assms(3)
  by (simp add: scanf_s_def isspace_def)

lemma load_line_key:
  assumes "key \<in> {''location:'', ''userid:'', ''passwd:'', ''timeout:''}" "nul \<notin> set r"
  shows "load_line (key @ CHR '' '' # r) st =
    (let val = FTMC_SkipSpace (CHR '' '' # r); l = key @ CHR '' '' # r;
         buf = Some (after_skip l (CHR '' '' # r)) in
     if key = ''location:'' then Inr (put_chars off_Location (strncpy_bytes 64 val) (fst st), buf)
     else if key = ''userid:'' then Inr (put_chars off_UserID (strncpy_bytes 32 val) (fst st), buf)
     else if key = ''passwd:'' then Inr (put_chars off_Passwd (strncpy_bytes 32 val) (fst st), buf)
     else (case scanf_d (CHR '' '' # r) of
             None \<Rightarrow> Inl UninitRead
           | Some (n, _) \<Rightarrow> Inr (if n < 0 then (fst st)\<lparr>nTimeout := n\<rparr> else fst st, buf)))"
proof -
  have key: "key \<noteq> []" "\<forall>c \<in> set key. \<not> isspace c" "length key < 32" "nul \<notin> set key" "take 1 key \<noteq> ''#''"
    using assms(1) by (auto simp: isspace_def)
  then have "cstr (key @ CHR '' '' # r) = key @ CHR '' '' # r" "take 1 (key @ CHR '' '' # r) \<noteq> ''#''"
    using assms(2) by (auto simp: cstr_id take_Cons')
  then have "load_line (key @ CHR '' '' # r) st =
     (let l = key @ CHR '' '' # r; xConfig = fst st; rest = CHR '' '' # r; val = FTMC_SkipSpace rest;
          buf = Some (after_skip l rest) in
         if key = ''location:'' then Inr (put_chars off_Location (strncpy_bytes 64 val) xConfig, buf)
         else if key = ''userid:'' then Inr (put_chars off_UserID (strncpy_bytes 32 val) xConfig, buf)
         else if key = ''passwd:'' then Inr (put_chars off_Passwd (strncpy_bytes 32 val) xConfig, buf)
         else if key = ''timeout:'' then (case scanf_d rest of
             None \<Rightarrow> Inl UninitRead
           | Some (n, _) \<Rightarrow> Inr (if n < 0 then xConfig\<lparr>nTimeout := n\<rparr> else xConfig, buf))
         else Inr (xConfig, Some l))"
    by (simp add: load_line_def Let_def scan_key [OF key(1,2,3)] split: option.split)
  then show ?thesis using assms(1) by (auto simp: Let_def)
qed

definition conf_lines :: "FTMC_PROFILE_CONFIG \<Rightarrow> string list" where
  "conf_lines p = [''location: '' @ szLocation p @ [nl], ''userid: '' @ szUserID p @ [nl],
     ''passwd: '' @ szPasswd p @ [nl], ''timeout: '' @ show_int (nTimeout p) @ [nl]]"

definition profile_ok :: "FTMC_PROFILE_CONFIG \<Rightarrow> bool" where
  "profile_ok p \<longleftrightarrow> value_ok 64 (szLocation p) \<and> value_ok 32 (szUserID p) \<and> value_ok 32 (szPasswd p) \<and>
     - 2147483648 \<le> nTimeout p \<and> nTimeout p \<le> 2147483647"

lemma fgets_profile_text:
  assumes "profile_ok p"
  shows "fgets_all 512 (profile_text p) = conf_lines p"
proof -
  have "nl \<notin> set (show_int (nTimeout p))" using show_int_chars by blast
  moreover have "length (show_int (nTimeout p)) \<le> 11"
    using assms by (intro length_show_int) (auto simp: profile_ok_def)
  ultimately show ?thesis
    using assms
      fgets_all_line [of "''location: '' @ szLocation p" 512]
      fgets_all_line [of "''userid: '' @ szUserID p" 512]
      fgets_all_line [of "''passwd: '' @ szPasswd p" 512]
      fgets_all_line [of "''timeout: '' @ show_int (nTimeout p)" 512 "[]"]
    by (simp add: profile_text_def conf_lines_def profile_ok_def value_ok_def)
qed

text \<open>What the loop over the lines makes of the four lines a save writes.\<close>

lemma load_conf_lines:
  assumes "profile_ok p" "sealed z"
  obtains q b where "load_lines (conf_lines p) (z, b0) = Inr (q, Some b)" "sealed q"
    "szLocation q = szLocation p" "szUserID q = szUserID p" "szPasswd q = szPasswd p"
    "nTimeout q = (if nTimeout p < 0 then nTimeout p else nTimeout z)"
    "take off_Location (chars q) = take off_Location (chars z)"
proof -
  note ok = assms(1) [unfolded profile_ok_def value_ok_def]
  let ?q1 = "put_chars off_Location (strncpy_bytes 64 (szLocation p)) z"
  let ?q2 = "put_chars off_UserID (strncpy_bytes 32 (szUserID p)) ?q1"
  let ?q3 = "put_chars off_Passwd (strncpy_bytes 32 (szPasswd p)) ?q2"
  let ?q = "if nTimeout p < 0 then ?q3\<lparr>nTimeout := nTimeout p\<rparr> else ?q3"
  have s1: "sealed ?q1" using assms(2) by (rule sealed_put) simp
  then have s2: "sealed ?q2" by (rule sealed_put) simp
  then have s3: "sealed ?q3" by (rule sealed_put) simp
  have skips: "FTMC_SkipSpace (CHR '' '' # szLocation p @ [nl]) = szLocation p"
    "FTMC_SkipSpace (CHR '' '' # szUserID p @ [nl]) = szUserID p"
    "FTMC_SkipSpace (CHR '' '' # szPasswd p @ [nl]) = szPasswd p"
    using assms(1) by (auto simp: profile_ok_def SkipSpace_value)
  obtain r where r: "scanf_d (CHR '' '' # show_int (nTimeout p) @ [nl]) = Some (nTimeout p, r)"
    using scanf_d_show_int assms(1) unfolding profile_ok_def by blast
  have "nul \<notin> set (show_int (nTimeout p))" using show_int_chars by blast
  then have "\<exists>b. load_lines (conf_lines p) (z, b0) = Inr (?q, Some b)"
    using ok skips r
      load_line_key [of "''location:''" "szLocation p @ [nl]"]
      load_line_key [of "''userid:''" "szUserID p @ [nl]"]
      load_line_key [of "''passwd:''" "szPasswd p @ [nl]"]
      load_line_key [of "''timeout:''" "show_int (nTimeout p) @ [nl]"]
    by (simp add: conf_lines_def)
  then obtain b where "load_lines (conf_lines p) (z, b0) = Inr (?q, Some b)" ..
  moreover have "sealed ?q" using s3 by (simp add: sealed_def profile_wf_def)
  moreover have "szLocation ?q3 = szLocation p" "szUserID ?q3 = szUserID p" "szPasswd ?q3 = szPasswd p"
    using ok assms(2) s1 s2 by (simp_all add: fields_put_Location fields_put_UserID fields_put_Passwd)
  then have "szLocation ?q = szLocation p" "szUserID ?q = szUserID p" "szPasswd ?q = szPasswd p"
    by (simp_all add: field_defs)
  moreover have "nTimeout ?q = (if nTimeout p < 0 then nTimeout p else nTimeout z)"
    by (simp add: put_chars_def)
  moreover have "take off_Location (chars ?q3) = take off_Location (chars z)"
    using assms(2) by (simp add: put_chars_def poke_def off_defs sealed_def profile_wf_def)
  then have "take off_Location (chars ?q) = take off_Location (chars z)" by simp
  ultimately show thesis by (rule that)
qed

section \<open>The identity files\<close>

text \<open>An identity file that holds one word.\<close>

definition id_word :: "nat \<Rightarrow> string \<Rightarrow> bool" where
  "id_word n v \<longleftrightarrow> v \<noteq> [] \<and> length v \<le> n \<and> (\<forall>c \<in> set v. \<not> isspace c \<and> c \<noteq> nul)"

lemma scan_id_word: "id_word n v \<Longrightarrow> n < m \<Longrightarrow> scanf_s m (v @ [nl]) = Inr (Some (v, [nl]))"
  using scan_tok_word_sp [of v nl "[]"] by (auto simp: scanf_s_def id_word_def isspace_def)

lemma load_id_word:
  "id_word 64 v \<Longrightarrow> load_id (Some (v @ [nl])) off st = Inr (put_chars off (strncpy_bytes 64 v) (fst st), Some v)"
  by (simp add: load_id_def scan_id_word)

lemma id_word_mono: "id_word n v \<Longrightarrow> n \<le> m \<Longrightarrow> id_word m v"
  by (auto simp: id_word_def)

text \<open>The 64 bytes copied to the serial number reach 31 bytes into the location.\<close>

lemma sn_overruns:
  assumes "sealed q" "id_word 32 v"
  shows "szSerialNumber (put_chars off_SerialNumber (strncpy_bytes 64 v) q) = v"
    "szLocation (put_chars off_SerialNumber (strncpy_bytes 64 v) q) = []"
    "szUserID (put_chars off_SerialNumber (strncpy_bytes 64 v) q) = szUserID q"
    "szPasswd (put_chars off_SerialNumber (strncpy_bytes 64 v) q) = szPasswd q"
proof -
  have len: "length (chars q) = 229" using assms(1) by (simp add: sealed_def profile_wf_def sizeof_chars_def)
  have v: "nul \<notin> set v" "length v \<le> 32" using assms(2) by (auto simp: id_word_def)
  let ?m = "poke 65 (strncpy_bytes 64 v) (chars q)"
  have bytes: "strncpy_bytes 64 v = v @ replicate (64 - length v) nul"
    using v by (intro strncpy_bytes_eq) auto
  obtain k where k: "64 - length v = Suc k" using v(2) by (cases "64 - length v") auto
  then have k': "66 + (length v + k) = 129" using v(2) by simp
  have "drop 65 ?m = v @ replicate (Suc k) nul @ drop 129 (chars q)"
    using len by (simp add: poke_def bytes k k')
  then show "szSerialNumber (put_chars off_SerialNumber (strncpy_bytes 64 v) q) = v"
    using cstr_pad [OF v(1)] by (simp add: szSerialNumber_def put_chars_def off_defs)
  have "?m ! 98 = nul"
    using nth_poke [of 65 "strncpy_bytes 64 v" "chars q" 98] len v(2) by (simp add: bytes nth_append)
  moreover have "drop 98 ?m = ?m ! 98 # drop 99 ?m"
    using Cons_nth_drop_Suc [of 98 ?m] len by simp
  ultimately show "szLocation (put_chars off_SerialNumber (strncpy_bytes 64 v) q) = []"
    by (simp add: szLocation_def put_chars_def off_defs cstr_def)
  show "szUserID (put_chars off_SerialNumber (strncpy_bytes 64 v) q) = szUserID q"
    "szPasswd (put_chars off_SerialNumber (strncpy_bytes 64 v) q) = szPasswd q"
    using len by (simp_all add: field_defs put_chars_def off_defs cstr_drop_poke_above)
qed

text \<open>\<open>cp -f /tmp/httpd.conf /etc/httpd.conf\<close> copies the file and prints nothing.\<close>

definition cp_law :: "shell \<Rightarrow> bool" where
  "cp_law sh \<longleftrightarrow> (\<forall>t fs. sh cp_command t fs = Some ([], fs(''/etc/httpd.conf'' := fs ''/tmp/httpd.conf'')))"

lemma SaveProfile_ok:
  assumes "cp_law sh" "wperm w ''/tmp/httpd.conf''"
  shows "\<exists>w'. FTMC_SaveProfileConfig sh p w = Inr (0, w') \<and>
    files w' = (files w)(''/tmp/httpd.conf'' \<mapsto> profile_text p, ''/etc/httpd.conf'' \<mapsto> profile_text p)"
  using assms popen_SomeI [of sh cp_command "write_file ''/tmp/httpd.conf'' (profile_text p) w"]
  by (simp add: FTMC_SaveProfileConfig_def system_wait_def cp_law_def)

definition model_file_ok :: "files \<Rightarrow> bool" where
  "model_file_ok fs \<longleftrightarrow>
     (case fs ''/var/lib/misc/model'' of None \<Rightarrow> True | Some c \<Rightarrow> \<exists>m. id_word 64 m \<and> c = m @ [nl])"

lemma LoadProfile_text:
  assumes "profile_ok p" "fs ''/etc/httpd.conf'' = Some (profile_text p)" "model_file_ok fs"
  obtains q b where "FTMC_LoadProfileConfig fs =
      bindE (load_id (fs ''/var/lib/misc/sn'') off_SerialNumber (q, Some b)) (\<lambda>st. Inr (Some (fst st)))"
    "sealed q" "szLocation q = szLocation p" "szUserID q = szUserID p" "szPasswd q = szPasswd p"
    "nTimeout q = min (nTimeout p) 0"
proof -
  obtain q b where q: "load_lines (conf_lines p) (zero_profile, None) = Inr (q, Some b)" "sealed q"
    "szLocation q = szLocation p" "szUserID q = szUserID p" "szPasswd q = szPasswd p"
    "nTimeout q = (if nTimeout p < 0 then nTimeout p else nTimeout zero_profile)"
    by (rule load_conf_lines [OF assms(1) sealed_zero])
  have t: "nTimeout q = min (nTimeout p) 0" using q(6) by (simp add: zero_profile_def)
  show thesis
  proof (cases "fs ''/var/lib/misc/model''")
    case None
    with assms(2) q t show ?thesis
      by (intro that [of q b]) (simp_all add: FTMC_LoadProfileConfig_def fgets_profile_text [OF assms(1)] load_id_def)
  next
    case (Some c)
    with assms(3) obtain m where m: "id_word 64 m" "c = m @ [nl]" by (auto simp: model_file_ok_def)
    then have mm: "nul \<notin> set m" "length m \<le> 64" by (auto simp: id_word_def)
    let ?q = "put_chars off_Model (strncpy_bytes 64 m) q"
    have "sealed ?q" using q(2) by (rule sealed_put) simp
    with Some assms(2) q t m show ?thesis
      by (intro that [of ?q m]) (simp_all add: FTMC_LoadProfileConfig_def fgets_profile_text [OF assms(1)]
        load_id_word fields_put_Model [OF q(2) mm], simp add: put_chars_def)
  qed
qed

section \<open>Properties of the profile\<close>

text \<open>The serial number file as \<open>rc.sysinit\<close> writes it at every boot, or none.\<close>

definition sn_file_ok :: "files \<Rightarrow> bool" where
  "sn_file_ok fs \<longleftrightarrow>
     (case fs ''/var/lib/misc/sn'' of None \<Rightarrow> True | Some c \<Rightarrow> \<exists>v. id_word 32 v \<and> c = v @ [nl])"

text \<open>
  C10. Round trip. A profile that \<open>FTMC_SaveProfileConfig\<close> writes is read back by \<open>FTMC_LoadProfileConfig\<close>: user and password
  come back as they were (for values that fit their arrays and do not start or end in white space), and the
  timeout comes back only when it is negative and is 0 otherwise. The location comes back as long as
  there is no serial number file; with the file that every boot creates, the serial number is the one in the
  file and the location comes back empty.
\<close>

theorem profile_roundtrip:
  assumes "cp_law sh" "wperm w ''/tmp/httpd.conf''" "profile_ok p" "model_file_ok (files w)" "sn_file_ok (files w)"
  shows "\<exists>w' q. FTMC_SaveProfileConfig sh p w = Inr (0, w') \<and>
    FTMC_LoadProfileConfig (files w') = Inr (Some q) \<and>
    szUserID q = szUserID p \<and> szPasswd q = szPasswd p \<and> nTimeout q = min (nTimeout p) 0 \<and>
    (case files w ''/var/lib/misc/sn'' of
       None \<Rightarrow> szLocation q = szLocation p
     | Some c \<Rightarrow> c = szSerialNumber q @ [nl] \<and> szLocation q = [])"
proof -
  from SaveProfile_ok [OF assms(1,2)] obtain w' where w': "FTMC_SaveProfileConfig sh p w = Inr (0, w')"
    "files w' = (files w)(''/tmp/httpd.conf'' \<mapsto> profile_text p, ''/etc/httpd.conf'' \<mapsto> profile_text p)"
    by blast
  obtain q b where q: "FTMC_LoadProfileConfig (files w') =
      bindE (load_id (files w' ''/var/lib/misc/sn'') off_SerialNumber (q, Some b)) (\<lambda>st. Inr (Some (fst st)))"
    "sealed q" "szLocation q = szLocation p" "szUserID q = szUserID p" "szPasswd q = szPasswd p"
    "nTimeout q = min (nTimeout p) 0"
    by (rule LoadProfile_text [OF assms(3), of "files w'"]) (use assms(4) w'(2) in \<open>simp_all add: model_file_ok_def\<close>)
  show ?thesis
  proof (cases "files w ''/var/lib/misc/sn''")
    case None
    with w' q show ?thesis by (simp add: load_id_def)
  next
    case (Some c)
    with assms(5) obtain v where v: "id_word 32 v" "c = v @ [nl]" by (auto simp: sn_file_ok_def)
    let ?q = "put_chars off_SerialNumber (strncpy_bytes 64 v) q"
    have "FTMC_LoadProfileConfig (files w') = Inr (Some ?q)"
      using q(1) w'(2) Some v(2) load_id_word [OF id_word_mono [OF v(1), of 64]] by simp
    moreover have "nTimeout ?q = nTimeout q" by (simp add: put_chars_def)
    ultimately show ?thesis using w'(1) q(4-6) Some v(2) sn_overruns [OF q(2) v(1)] by simp
  qed
qed

definition demo_shell :: shell where
  "demo_shell cmd t fs = (if cmd = cp_command then Some ([], fs(''/etc/httpd.conf'' := fs ''/tmp/httpd.conf''))
     else Some ([], fs))"

definition demo_os :: "files \<Rightarrow> os" where
  "demo_os fs = \<lparr>files = fs, wperm = \<lambda>_. True, cmds = [], out = [], clock = 0\<rparr>"

definition demo_profile :: FTMC_PROFILE_CONFIG where
  "demo_profile = put_chars off_Location (strncpy_bytes 64 ''Hall 2'')
     (put_chars off_UserID (strncpy_bytes 32 ''admin'') (put_chars off_Passwd (strncpy_bytes 32 ''pw'')
       (zero_profile\<lparr>nTimeout := 300\<rparr>)))"

lemma demo_profile_fields:
  "szLocation demo_profile = ''Hall 2''" "szUserID demo_profile = ''admin''" "szPasswd demo_profile = ''pw''"
  "nTimeout demo_profile = 300" "profile_ok demo_profile"
proof -
  have s0: "sealed (zero_profile\<lparr>nTimeout := 300\<rparr>)" using sealed_zero by (simp add: sealed_def profile_wf_def)
  then have s1: "sealed (put_chars off_Passwd (strncpy_bytes 32 ''pw'') (zero_profile\<lparr>nTimeout := 300\<rparr>))"
    by (rule sealed_put) simp
  then have s2: "sealed (put_chars off_UserID (strncpy_bytes 32 ''admin'')
      (put_chars off_Passwd (strncpy_bytes 32 ''pw'') (zero_profile\<lparr>nTimeout := 300\<rparr>)))"
    by (rule sealed_put) simp
  show f: "szLocation demo_profile = ''Hall 2''" "szUserID demo_profile = ''admin''" "szPasswd demo_profile = ''pw''"
    by (simp_all add: demo_profile_def fields_put_Location fields_put_UserID fields_put_Passwd s0 s1 s2)
  show t: "nTimeout demo_profile = 300" by (simp add: demo_profile_def put_chars_def zero_profile_def)
  then show "profile_ok demo_profile" using f by (simp add: profile_ok_def value_ok_def isspace_def)
qed

lemma demo_cp_law: "cp_law demo_shell"
  by (simp add: cp_law_def demo_shell_def)

theorem profile_roundtrip_witness:
  "(\<exists>w' q. FTMC_SaveProfileConfig demo_shell demo_profile (demo_os Map.empty) = Inr (0, w') \<and>
    FTMC_LoadProfileConfig (files w') = Inr (Some q) \<and> szLocation q = ''Hall 2'' \<and>
    szUserID q = ''admin'' \<and> szPasswd q = ''pw'' \<and> nTimeout q = 0) \<and>
   (\<exists>w' q. FTMC_SaveProfileConfig demo_shell demo_profile (demo_os [''/var/lib/misc/sn'' \<mapsto> ''FTM50S-0042'' @ [nl]]) = Inr (0, w') \<and>
    FTMC_LoadProfileConfig (files w') = Inr (Some q) \<and> szSerialNumber q = ''FTM50S-0042'' \<and> szLocation q = [] \<and>
    szUserID q = ''admin'' \<and> szPasswd q = ''pw'')"
proof
  show "\<exists>w' q. FTMC_SaveProfileConfig demo_shell demo_profile (demo_os Map.empty) = Inr (0, w') \<and>
    FTMC_LoadProfileConfig (files w') = Inr (Some q) \<and> szLocation q = ''Hall 2'' \<and>
    szUserID q = ''admin'' \<and> szPasswd q = ''pw'' \<and> nTimeout q = 0"
    using profile_roundtrip [OF demo_cp_law, of "demo_os Map.empty" demo_profile]
    by (auto simp: demo_os_def demo_profile_fields model_file_ok_def sn_file_ok_def)
  let ?w = "demo_os [''/var/lib/misc/sn'' \<mapsto> ''FTM50S-0042'' @ [nl]]"
  have "sn_file_ok (files ?w)" "model_file_ok (files ?w)" "wperm ?w ''/tmp/httpd.conf''"
    by (simp_all add: demo_os_def sn_file_ok_def model_file_ok_def id_word_def isspace_def)
  from profile_roundtrip [OF demo_cp_law this(3) demo_profile_fields(5) this(2,1)]
  show "\<exists>w' q. FTMC_SaveProfileConfig demo_shell demo_profile ?w = Inr (0, w') \<and>
    FTMC_LoadProfileConfig (files w') = Inr (Some q) \<and> szSerialNumber q = ''FTM50S-0042'' \<and> szLocation q = [] \<and>
    szUserID q = ''admin'' \<and> szPasswd q = ''pw''"
    by (auto simp: demo_os_def demo_profile_fields)
qed

text \<open>
  The location is lost. As soon as the device has a serial number file with a serial number of
  up to 32 characters, the profile that \<open>FTMC_LoadProfileConfig\<close> returns for any well-formed
  \<open>/etc/httpd.conf\<close> has that serial number, user and password, but an empty location: the copy of
  the serial number is bounded by the size of the model array and overwrites the location.
\<close>

theorem serial_number_erases_location:
  assumes "profile_ok p" "fs ''/etc/httpd.conf'' = Some (profile_text p)" "model_file_ok fs"
    and "fs ''/var/lib/misc/sn'' = Some (sn @ [nl])" "id_word 32 sn"
  shows "\<exists>q. FTMC_LoadProfileConfig fs = Inr (Some q) \<and> szSerialNumber q = sn \<and> szLocation q = [] \<and>
    szUserID q = szUserID p \<and> szPasswd q = szPasswd p"
proof -
  obtain q b where q: "FTMC_LoadProfileConfig fs =
      bindE (load_id (fs ''/var/lib/misc/sn'') off_SerialNumber (q, Some b)) (\<lambda>st. Inr (Some (fst st)))"
    "sealed q" "szUserID q = szUserID p" "szPasswd q = szPasswd p"
    by (rule LoadProfile_text [OF assms(1,2,3)])
  with sn_overruns [OF q(2) assms(5)] load_id_word [OF id_word_mono [OF assms(5), of 64]] assms(4)
  show ?thesis by simp
qed

theorem serial_number_erases_location_witness:
  "\<exists>q. FTMC_LoadProfileConfig [''/etc/httpd.conf'' \<mapsto> profile_text demo_profile,
      ''/var/lib/misc/sn'' \<mapsto> ''FTM50S-0042'' @ [nl]] = Inr (Some q) \<and>
    szSerialNumber q = ''FTM50S-0042'' \<and> szLocation q = [] \<and> szUserID q = ''admin'' \<and> szPasswd q = ''pw''"
  using serial_number_erases_location [of demo_profile "[''/etc/httpd.conf'' \<mapsto> profile_text demo_profile,
      ''/var/lib/misc/sn'' \<mapsto> ''FTM50S-0042'' @ [nl]]" "''FTM50S-0042''"]
  by (simp add: demo_profile_fields id_word_def isspace_def model_file_ok_def)

end
