(* ===== verification/Public.thy ===== *)
theory Public
  imports Profile
begin

text \<open>
  \<open>www/cgi-src/public.c\<close> and the request side of \<open>ssid.c\<close>: the only command that is served without
  a session. It tells the device identity and, given the right user and password, makes a session
  identifier from the MD5 digest of the client's seed and of the output of two commands, stores it in
  the pool and returns it.
\<close>

section \<open>Making an identifier\<close>

definition bytes_of :: "string \<Rightarrow> byte list" where
  "bytes_of s = map (\<lambda>c. of_char c) s"

definition hex_digit :: "nat \<Rightarrow> char" where
  "hex_digit n = char_of (if n < 10 then 48 + n else 87 + n)"

text \<open>\<open>%08x\<close>.\<close>

definition hex8 :: "word32 \<Rightarrow> string" where
  "hex8 x = map (\<lambda>k. hex_digit (unat x div 16 ^ k mod 16)) [7, 6, 5, 4, 3, 2, 1, 0]"

definition hex_words :: "byte list \<Rightarrow> string" where
  "hex_words d = concat (map hex8 (decode_block 4 d))"

text \<open>The context on the stack; \<open>MD5Init\<close> sets what matters of it.\<close>

definition stack_ctx :: MD5_CTX where
  "stack_ctx = \<lparr>md_i0 = 0, md_i1 = 0, md_buf = (0, 0, 0, 0), md_in = replicate 64 0, md_digest = replicate 16 0\<rparr>"

definition md5_feed :: "MD5_CTX \<Rightarrow> string \<Rightarrow> MD5_CTX" where
  "md5_feed ctx s = MD5Update ctx (bytes_of s) (word_of_nat (length s))"

text \<open>
  One \<open>popen\<close>, one \<open>fgets\<close> and one \<open>MD5Update\<close>. \<open>buf\<close> is \<open>szBuf\<close>: a command that prints nothing
  leaves it as it was.
\<close>

definition feed_command ::
  "shell \<Rightarrow> string \<Rightarrow> MD5_CTX \<times> string option \<times> 'a os_scheme \<Rightarrow> (MD5_CTX \<times> string option \<times> 'a os_scheme) res" where
  "feed_command sh cmd st = (case st of (ctx, buf, w) \<Rightarrow>
     (case popen sh cmd w of
        (None, w1) \<Rightarrow> Inr (ctx, buf, w1)
      | (Some ans, w1) \<Rightarrow>
         (case (if ans = [] then buf else Some (cstr (fgets_chunk 1024 ans))) of
            None \<Rightarrow> Inl UninitRead
          | Some b \<Rightarrow> Inr (md5_feed ctx b, Some b, w1))))"

definition FTMC_MakeSSID :: "shell \<Rightarrow> string \<Rightarrow> 'a os_scheme \<Rightarrow> (string \<times> 'a os_scheme) res" where
  "FTMC_MakeSSID sh lpszSeed w =
     bindE (feed_command sh ''uptime'' (md5_feed (MD5Init stack_ctx) lpszSeed, None, w)) (\<lambda>st.
     bindE (feed_command sh ''ps | tail -n 1'' st) (\<lambda>st.
     case st of (ctx, _, w) \<Rightarrow> Inr (hex_words (md_digest (MD5Final ctx)), w)))"

section \<open>The handlers\<close>

text \<open>
  The test of user, password and seed in the order of the \<open>||\<close>: a string that is compared has to be
  there.
\<close>

definition login_ok ::
  "FTMC_PROFILE_CONFIG \<Rightarrow> string option \<Rightarrow> string option \<Rightarrow> string option \<Rightarrow> bool res" where
  "login_ok xConfig lpszUserID lpszPasswd lpszSeed =
     bindE (deref lpszUserID) (\<lambda>u. if u \<noteq> szUserID xConfig then Inr False
       else bindE (deref lpszPasswd) (\<lambda>p. if p \<noteq> szPasswd xConfig then Inr False
         else Inr (lpszSeed \<noteq> None)))"

definition save_session :: "string \<Rightarrow> cgi \<Rightarrow> cgi" where
  "save_session tag w = w\<lparr>pool := snd (FTMC_SaveSSID (can_create w) tag (now w) (pool w))\<rparr>"

definition get_ssid :: "shell \<Rightarrow> cgi \<Rightarrow> (int \<times> cgi) res" where
  "get_ssid sh w = bindE (FTMC_LoadProfileConfig (files w)) (\<lambda>c. case c of
      None \<Rightarrow> Inr (- 1, w)
    | Some xConfig \<Rightarrow>
       (let w1 = print (open_tag ''FTM-50'') w in
        bindE (login_ok xConfig (getstr w ''id'') (getstr w ''pw'') (getstr w ''seed'')) (\<lambda>ok.
        bindE (if ok then bindE (FTMC_MakeSSID sh (the (getstr w ''seed'')) w1) (\<lambda>(szSSID, w2).
                 Inr (print (elem ''SSID'' szSSID) (save_session szSSID w2)))
               else Inr (print (elem ''RET'' ''ERROR'') w1)) (\<lambda>w3.
        Inr (0, print (close_tag ''FTM-50'') w3)))))"

definition put_dev_info :: "FTMC_PROFILE_CONFIG \<Rightarrow> bool \<Rightarrow> cgi \<Rightarrow> cgi" where
  "put_dev_info xProfile with_timeout w =
     puts (concat (map line ([''<SYSTEM_INFO>'', ''<PROFILE>'', elem ''MODEL'' (szModel xProfile),
       elem ''SN'' (szSerialNumber xProfile), elem ''LOCATION'' (szLocation xProfile)] @
       (if with_timeout then [elem ''TIMEOUT'' (show_int (nTimeout xProfile))] else []) @
       [''</PROFILE>'', ''</SYSTEM_INFO>'']))) w"

definition FTMC_Public :: "shell \<Rightarrow> handler" where
  "FTMC_Public sh w = (case getstr w ''cmd'' of
      None \<Rightarrow> Inr (- 1, w)
    | Some lpszCmd \<Rightarrow>
       (let w = XML_PutHeader w in
        if lpszCmd = ''get_dev_info'' then
          bindE (FTMC_LoadProfileConfig (files w)) (\<lambda>c. case c of
            None \<Rightarrow> Inr (- 1, XML_PutError ''PROFILE'' (Some ''Failed to load profile data.'') w)
          | Some xProfile \<Rightarrow> Inr (0, put_dev_info xProfile True w))
        else if lpszCmd = ''get_ssid'' then get_ssid sh w
        else Inr (0, w)))"

text \<open>\<open>FTMC_SSID\<close> of \<open>ssid.c\<close>, an older form of the same service.\<close>

definition FTMC_SSID :: "shell \<Rightarrow> handler" where
  "FTMC_SSID sh w = bindE (deref (getstr w ''cmd'')) (\<lambda>lpszCmd.
     if lpszCmd \<noteq> ''get'' then Inr (- 1, w)
     else bindE (FTMC_LoadProfileConfig (files w)) (\<lambda>c. case c of
       None \<Rightarrow> Inr (- 1, w)
     | Some xConfig \<Rightarrow>
        (let w1 = print (open_tag ''FTM-50'') (print xml_decl (qcgires_setcontenttype ''text/xml'' w)) in
         bindE (login_ok xConfig (getstr w ''id'') (getstr w ''pw'') (getstr w ''seed'')) (\<lambda>ok.
         bindE (if ok then bindE (FTMC_MakeSSID sh (the (getstr w ''seed'')) w1) (\<lambda>(szTag, w2).
                  Inr (print (elem ''RET'' ''OK'') (print (elem ''SSID'' szTag) (save_session szTag w2))))
                else Inr (print (elem ''RET'' ''ERROR'') w1)) (\<lambda>w3.
         Inr (0, print (close_tag ''FTM-50'') w3))))))"

section \<open>Identifiers are 32 characters of the digest\<close>

lemma length_hex8 [simp]: "length (hex8 x) = 8"
  by (simp add: hex8_def)

lemma length_hex_words [simp]: "length (hex_words d) = 32"
  by (simp add: hex_words_def decode_block_def upt_rec)

lemma hex_digit_not_nul: "n < 16 \<Longrightarrow> hex_digit n \<noteq> nul"
proof
  assume "n < 16" "hex_digit n = nul"
  then have "of_char (hex_digit n) = (0::nat)" by simp
  with \<open>n < 16\<close> show False by (auto simp: hex_digit_def split: if_splits)
qed

lemma hex_words_no_nul: "nul \<notin> set (hex_words d)"
proof -
  have "hex_digit (n mod 16) \<noteq> nul" for n by (rule hex_digit_not_nul) simp
  then show ?thesis by (auto simp: hex_words_def hex8_def dest: sym)
qed

lemma md5_feed_two:
  assumes "length s < 2 ^ 32" "length a < 2 ^ 32" "length b < 2 ^ 32"
  shows "md_digest (MD5Final (md5_feed (md5_feed (md5_feed (MD5Init stack_ctx) s) a) b)) =
    md5_spec (bytes_of (s @ a @ b))"
  using md5.digest_of_parts [of stack_ctx "[bytes_of s, bytes_of a, bytes_of b]"] assms
  by (simp add: md5_feed_def bytes_of_def stack_ctx_def)

lemma feed_command_files: "feed_command sh cmd (ctx, buf, w) = Inr (ctx', buf', w') \<Longrightarrow>
   os.more w' = os.more w \<and> out w' = out w"
  by (auto simp: feed_command_def popen_more popen_out split: prod.splits option.splits)

lemma MakeSSID_frame:
  assumes "FTMC_MakeSSID sh seed w = Inr (tag, w')"
  shows "length tag = 32 \<and> nul \<notin> set tag \<and> os.more w' = os.more w \<and> out w' = out w"
  using assms
  by (auto simp: hex_words_no_nul FTMC_MakeSSID_def bindE_eq_Inr_iff split: prod.splits dest!: feed_command_files)

lemma MakeSSID_total:
  assumes "shell_up sh" "\<And>t fs fs'. sh ''uptime'' t fs \<noteq> Some ([], fs')"
  shows "\<exists>tag w'. FTMC_MakeSSID sh seed w = Inr (tag, w')"
proof -
  obtain a w1 where p1: "popen sh ''uptime'' w = (Some a, w1)" by (rule shell_up_popen [OF assms(1)])
  then have "a \<noteq> []" using assms(2) by (auto simp: popen_def Let_def split: option.splits)
  obtain b w2 where p2: "popen sh ''ps | tail -n 1'' w1 = (Some b, w2)" by (rule shell_up_popen [OF assms(1)])
  show ?thesis using \<open>a \<noteq> []\<close> by (simp add: FTMC_MakeSSID_def feed_command_def p1 p2)
qed

lemma os_more_cgi:
  "os.more w' = os.more w \<Longrightarrow> req w' = req w \<and> req_live w' = req_live w \<and> pool w' = pool w \<and>
   can_create w' = can_create w \<and> now w' = now w \<and> remote w' = remote w \<and> exited w' = exited w \<and>
   modem_tty w' = modem_tty w \<and> modem_sent w' = modem_sent w"
  for w w' :: cgi
  by (cases w; cases w') simp

lemma login_ok_True:
  "login_ok c (Some (szUserID c)) (Some (szPasswd c)) (Some seed) = Inr True"
  by (simp add: login_ok_def)

lemma get_ssid_granted:
  assumes "FTMC_LoadProfileConfig (files w) = Inr (Some c)"
    and "login_ok c (getstr w ''id'') (getstr w ''pw'') (getstr w ''seed'') = Inr True"
    and "shell_up sh" "\<And>t fs fs'. sh ''uptime'' t fs \<noteq> Some ([], fs')"
  obtains tag w' where "get_ssid sh w = Inr (0, w')" "length tag = 32" "nul \<notin> set tag"
    "out w' = out w @ concat (map line [open_tag ''FTM-50'', elem ''SSID'' tag, close_tag ''FTM-50''])"
    "pool w' = snd (FTMC_SaveSSID (can_create w) tag (now w) (pool w))" "req_live w' = req_live w" "exited w' = exited w"
proof -
  let ?w1 = "print (open_tag ''FTM-50'') w"
  obtain tag w2 where m: "FTMC_MakeSSID sh (the (getstr w ''seed'')) ?w1 = Inr (tag, w2)"
    using MakeSSID_total [OF assms(3,4)] by blast
  note f = MakeSSID_frame [OF m]
  have "now w2 = now w" "pool w2 = pool w" "can_create w2 = can_create w" "req_live w2 = req_live w" "exited w2 = exited w"
    using f os_more_cgi [of w2 ?w1] by auto
  with assms(1,2) m f show thesis
    by (intro that [of "print (close_tag ''FTM-50'') (print (elem ''SSID'' tag) (save_session tag w2))" tag])
      (simp_all add: get_ssid_def Let_def save_session_def line_def)
qed

section \<open>Properties of the login\<close>

text \<open>
  Login. With the user and password of the profile and a seed, \<open>get_ssid\<close> answers with a
  32-character identifier, and \<open>FTMC_IsValidSSID\<close> accepts that identifier from then on for exactly
  600 seconds, whatever sessions the pool held before.
\<close>

theorem login_grants_session:
  assumes "shm_wf (pool w)" "can_create w" "getstr w ''cmd'' = Some ''get_ssid''"
    and "FTMC_LoadProfileConfig (files w) = Inr (Some c)"
    and "getstr w ''id'' = Some (szUserID c)" "getstr w ''pw'' = Some (szPasswd c)" "getstr w ''seed'' = Some seed"
    and "shell_up sh" "\<forall>t fs fs'. sh ''uptime'' t fs \<noteq> Some ([], fs')"
  shows "\<exists>tag w'. FTMC_Public sh w = Inr (0, w') \<and> length tag = 32 \<and>
    out w' = out (XML_PutHeader w) @
      concat (map line [open_tag ''FTM-50'', elem ''SSID'' tag, close_tag ''FTM-50'']) \<and>
    (\<forall>t. fst (FTMC_IsValidSSID tag t (pool w')) = 1 \<longleftrightarrow> t - now w \<le> VALID_TIME)"
proof -
  let ?w = "XML_PutHeader w"
  obtain tag w' where g: "get_ssid sh ?w = Inr (0, w')" "length tag = 32" "nul \<notin> set tag"
    "out w' = out ?w @ concat (map line [open_tag ''FTM-50'', elem ''SSID'' tag, close_tag ''FTM-50''])"
    "pool w' = snd (FTMC_SaveSSID (can_create ?w) tag (now ?w) (pool ?w))"
    by (rule get_ssid_granted [of ?w c sh]) (use assms in \<open>simp_all add: login_ok_def\<close>)
  have "fst (FTMC_IsValidSSID tag t (pool w')) = 1 \<longleftrightarrow> t - now w \<le> VALID_TIME" for t
    using saved_session_lifetime [OF assms(1) g(2), of "now w" t] g(5) assms(2) by simp
  with g assms(3) show ?thesis by (auto simp: FTMC_Public_def Let_def)
qed

definition web_shell :: shell where
  "web_shell cmd t fs = (if cmd = cp_command then Some ([], fs(''/etc/httpd.conf'' := fs ''/tmp/httpd.conf''))
     else if cmd = ''uptime'' then Some ('' 12:00:00 up 1 day'' @ [nl], fs)
     else Some (''ok'' @ [nl], fs))"

definition web_world :: "files \<Rightarrow> qentry \<Rightarrow> cgi" where
  "web_world fs q = \<lparr>files = fs, wperm = \<lambda>_. True, cmds = [], out = [], clock = 0,
     req = q, req_live = True, pool = None, can_create = True, now = 1000, remote = True, exited = False,
     modem_tty = zero_termios, modem_sent = []\<rparr>"

definition demo_files :: files where
  "demo_files = [''/etc/httpd.conf'' \<mapsto> profile_text demo_profile]"

lemma demo_files_load:
  obtains q where "FTMC_LoadProfileConfig demo_files = Inr (Some q)" "szUserID q = ''admin''" "szPasswd q = ''pw''"
proof -
  obtain q b where "FTMC_LoadProfileConfig demo_files =
      bindE (load_id (demo_files ''/var/lib/misc/sn'') off_SerialNumber (q, Some b)) (\<lambda>st. Inr (Some (fst st)))"
    "szUserID q = szUserID demo_profile" "szPasswd q = szPasswd demo_profile"
    by (rule LoadProfile_text [OF demo_profile_fields(5), of demo_files])
      (simp_all add: demo_files_def model_file_ok_def)
  then show thesis by (intro that) (simp_all add: demo_files_def load_id_def demo_profile_fields)
qed

lemma web_shell_up: "shell_up web_shell"
  by (simp add: shell_up_def web_shell_def)

lemma web_shell_uptime: "web_shell ''uptime'' t fs \<noteq> Some ([], fs')"
  by (simp add: web_shell_def cp_command_def)

theorem login_grants_session_witness:
  "\<exists>tag w'. FTMC_Public web_shell (web_world demo_files
      [(''cmd'', ''get_ssid''), (''id'', ''admin''), (''pw'', ''pw''), (''seed'', ''42'')]) = Inr (0, w') \<and>
    length tag = 32 \<and> fst (FTMC_IsValidSSID tag 1600 (pool w')) = 1 \<and> fst (FTMC_IsValidSSID tag 1601 (pool w')) \<noteq> 1"
proof -
  let ?w = "web_world demo_files [(''cmd'', ''get_ssid''), (''id'', ''admin''), (''pw'', ''pw''), (''seed'', ''42'')]"
  obtain q where q: "FTMC_LoadProfileConfig demo_files = Inr (Some q)" "szUserID q = ''admin''" "szPasswd q = ''pw''"
    by (rule demo_files_load)
  have "\<exists>tag w'. FTMC_Public web_shell ?w = Inr (0, w') \<and> length tag = 32 \<and>
      out w' = out (XML_PutHeader ?w) @
        concat (map line [open_tag ''FTM-50'', elem ''SSID'' tag, close_tag ''FTM-50'']) \<and>
      (\<forall>t. fst (FTMC_IsValidSSID tag t (pool w')) = 1 \<longleftrightarrow> t - now ?w \<le> VALID_TIME)"
    by (rule login_grants_session [of _ q "''42''"])
      (use q web_shell_up web_shell_uptime in \<open>auto simp: web_world_def getstr_def qentry_get_def cstr_def\<close>)
  then obtain tag w' where "FTMC_Public web_shell ?w = Inr (0, w')" "length tag = 32"
    "\<forall>t. fst (FTMC_IsValidSSID tag t (pool w')) = 1 \<longleftrightarrow> t - 1000 \<le> VALID_TIME"
    by (auto simp: web_world_def)
  then show ?thesis by (intro exI [of _ tag] exI [of _ w']) (simp add: VALID_TIME_def)
qed

text \<open>
  C19. Refusal. Whenever the user or the password differs from the profile, or no seed is sent,
  \<open>get_ssid\<close> answers \<open>ERROR\<close>, starts no command and leaves the session pool and the files alone.
\<close>

theorem login_refused:
  assumes "getstr w ''cmd'' = Some ''get_ssid''" "FTMC_LoadProfileConfig (files w) = Inr (Some c)"
    and "getstr w ''id'' = Some u" "getstr w ''pw'' = Some p"
    and "u \<noteq> szUserID c \<or> p \<noteq> szPasswd c \<or> getstr w ''seed'' = None"
  shows "\<exists>w'. FTMC_Public sh w = Inr (0, w') \<and> pool w' = pool w \<and> cmds w' = cmds w \<and> files w' = files w \<and>
    out w' = out (XML_PutHeader w) @
      concat (map line [open_tag ''FTM-50'', elem ''RET'' ''ERROR'', close_tag ''FTM-50''])"
proof -
  have "login_ok c (getstr w ''id'') (getstr w ''pw'') (getstr w ''seed'') = Inr False"
    using assms(3,4,5) by (auto simp: login_ok_def)
  with assms(1,2) show ?thesis by (simp add: FTMC_Public_def get_ssid_def Let_def line_def)
qed

theorem login_refused_witness:
  "\<exists>w'. FTMC_Public web_shell (web_world demo_files
      [(''cmd'', ''get_ssid''), (''id'', ''admin''), (''pw'', ''guess''), (''seed'', ''42'')]) = Inr (0, w') \<and>
    pool w' = None"
proof -
  let ?w = "web_world demo_files [(''cmd'', ''get_ssid''), (''id'', ''admin''), (''pw'', ''guess''), (''seed'', ''42'')]"
  obtain q where q: "FTMC_LoadProfileConfig demo_files = Inr (Some q)" "szUserID q = ''admin''" "szPasswd q = ''pw''"
    by (rule demo_files_load)
  then show ?thesis
    using login_refused [of ?w q "''admin''" "''guess''" web_shell]
    by (auto simp: web_world_def getstr_def qentry_get_def cstr_def)
qed

text \<open>
  The identifier. When both commands print a line, \<open>FTMC_MakeSSID\<close> returns the four words of
  the MD5 digest of seed, first line of \<open>uptime\<close> and last process in hexadecimal, 32 characters.
\<close>

theorem MakeSSID_digest:
  assumes "length seed < 2 ^ 32" "sh ''uptime'' (clock w) (files w) = Some (a @ nl # r, fs1)"
    and "sh ''ps | tail -n 1'' (clock w) fs1 = Some (b @ nl # r', fs2)"
    and "nl \<notin> set a" "nl \<notin> set b" "nul \<notin> set a" "nul \<notin> set b" "length a < 1022" "length b < 1022"
  shows "\<exists>w'. FTMC_MakeSSID sh seed w =
      Inr (hex_words (md5_spec (bytes_of (seed @ (a @ [nl]) @ (b @ [nl])))), w') \<and>
    length (hex_words (md5_spec (bytes_of (seed @ (a @ [nl]) @ (b @ [nl]))))) = 32"
proof -
  have "cstr (a @ [nl]) = a @ [nl]" "cstr (b @ [nl]) = b @ [nl]" using assms(6,7) by (auto intro!: cstr_id)
  then have "FTMC_MakeSSID sh seed w = Inr (hex_words (md_digest (MD5Final
      (md5_feed (md5_feed (md5_feed (MD5Init stack_ctx) seed) (a @ [nl])) (b @ [nl])))),
      w\<lparr>cmds := (cmds w @ [''uptime'']) @ [''ps | tail -n 1''], files := fs2\<rparr>)"
    using assms by (simp add: FTMC_MakeSSID_def feed_command_def popen_SomeI fgets_chunk_line)
  moreover have "length (a @ [nl]) < 2 ^ 32" "length (b @ [nl]) < 2 ^ 32" using assms(8,9) by auto
  ultimately show ?thesis using md5_feed_two [OF assms(1), of "a @ [nl]" "b @ [nl]"] by simp
qed

theorem MakeSSID_digest_witness:
  "\<exists>w'. FTMC_MakeSSID web_shell ''42'' (web_world Map.empty []) =
    Inr (hex_words (md5_spec (bytes_of (''42'' @ ('' 12:00:00 up 1 day'' @ [nl]) @ (''ok'' @ [nl])))), w')"
  using MakeSSID_digest [of "''42''" web_shell "web_world Map.empty []" "'' 12:00:00 up 1 day''" "[]" Map.empty
      "''ok''" "[]" Map.empty]
  by (simp add: web_shell_def cp_command_def web_world_def)

text \<open>
  A request without a user name crashes the program: \<open>strcmp\<close> is given a null pointer before
  anything is checked.
\<close>

theorem missing_user_faults:
  assumes "getstr w ''cmd'' = Some ''get_ssid''" "FTMC_LoadProfileConfig (files w) = Inr (Some c)"
    and "getstr w ''id'' = None"
  shows "FTMC_Public sh w = Inl NullPointer"
  using assms by (simp add: FTMC_Public_def get_ssid_def Let_def login_ok_def)

theorem missing_user_faults_witness:
  "FTMC_Public web_shell (web_world demo_files [(''cmd'', ''get_ssid'')]) = Inl NullPointer"
proof -
  obtain q where "FTMC_LoadProfileConfig demo_files = Inr (Some q)"
    by (rule demo_files_load)
  then show ?thesis
    using missing_user_faults [of "web_world demo_files [(''cmd'', ''get_ssid'')]" q web_shell]
    by (simp add: web_world_def getstr_def qentry_get_def cstr_def)
qed

end
