(* ===== verification/Gate.thy ===== *)
theory Gate
  imports Public
begin

text \<open>
  \<open>www/cgi-src/main.c\<close>, \<open>page.c\<close> and \<open>login.c\<close>: the entry point of \<open>req.cgi\<close>. The program name
  picks a handler from a table; every handler but \<open>public\<close> is behind the session check, which also
  renews the session. The table is an argument of \<open>req_main\<close>, so that what is shown of the check holds
  for all handlers; the handlers the program really has are put together in the root theory.
\<close>

section \<open>Files as pages\<close>

text \<open>The loop \<open>while (fgets(szBuf, ...)) printf(szBuf);\<close> on the contents of a file.\<close>

fun print_chunks :: "string list \<Rightarrow> cgi \<Rightarrow> cgi res" where
  "print_chunks [] w = Inr w"
| "print_chunks (c # cs) w = bindE (printf_fmt (cstr c)) (\<lambda>s. print_chunks cs (puts s w))"

definition print_page :: "string \<Rightarrow> cgi \<Rightarrow> cgi res" where
  "print_page content w = print_chunks (fgets_all 1024 content) w"

definition FTMC_LoadIndex :: "cgi \<Rightarrow> cgi res" where
  "FTMC_LoadIndex w = (case files w ''../index.html'' of
      Some c \<Rightarrow> print_page c (qcgires_setcontenttype ''text/html'' w)
    | None \<Rightarrow> qcgires_error ''Invalid session !'' w)"

text \<open>
  The deletion writes past the pool. As long as it stays in the page of the segment nothing notices; from there
  on it kills the process.
\<close>

definition FTMC_Logout :: handler where
  "FTMC_Logout w = (case getstr w ''ssid'' of
      None \<Rightarrow> Inr (0, qcgires_setcontenttype ''text/html'' w)
    | Some lpszSSID \<Rightarrow> (case FTMC_DeleteSSID lpszSSID (pool w) of
        (_, s, over) \<Rightarrow> if page_rest < over then Inl BufferOverflow
          else Inr (0, qcgires_setcontenttype ''text/html'' (w\<lparr>pool := s\<rparr>))))"

text \<open>\<open>printf("%s", NULL)\<close> prints \<open>(null)\<close>; \<open>snprintf\<close> cuts at the size of the array.\<close>

definition str_arg :: "string option \<Rightarrow> string" where
  "str_arg s = (case s of None \<Rightarrow> ''(null)'' | Some t \<Rightarrow> t)"

definition page_line :: "string option \<Rightarrow> string \<Rightarrow> cgi \<Rightarrow> cgi res" where
  "page_line lpszCmd chunk w = (let szBuf = cstr chunk in
     if strstr szBuf ''###SCRIPT###'' then
       (case files w (take 1023 (''/www/scripts/'' @ str_arg lpszCmd @ ''.js'')) of
          None \<Rightarrow> Inr w
        | Some c \<Rightarrow> bindE (print_page c (print (''<script type='' @ [CHR 0x27] @ ''text/javascript'' @ [CHR 0x27] @ ''>'') w))
            (\<lambda>w. Inr (print ''</script>'' w)))
     else if strstr szBuf ''###CONTENT###'' then
       (case files w (take 1023 (''/www/contents/'' @ str_arg lpszCmd)) of
          None \<Rightarrow> Inr w
        | Some c \<Rightarrow> print_page c w)
     else bindE (printf_fmt szBuf) (\<lambda>s. Inr (puts s w)))"

fun page_lines :: "string option \<Rightarrow> string list \<Rightarrow> cgi \<Rightarrow> cgi res" where
  "page_lines cmd [] w = Inr w"
| "page_lines cmd (c # cs) w = bindE (page_line cmd c w) (page_lines cmd cs)"

definition FTMC_Page :: handler where
  "FTMC_Page w = (let lpszCmd = getstr w ''cmd''; w = qcgires_setcontenttype ''text/html'' w in
     case files w ''/www/contents/base'' of
       None \<Rightarrow> Inr (- 1, w)
     | Some c \<Rightarrow> bindE (page_lines lpszCmd (fgets_all 1024 c) w) (\<lambda>w. Inr (0, w)))"

definition FTMC_PrintInnerContent :: "string \<Rightarrow> handler" where
  "FTMC_PrintInnerContent path w = (case files w path of
      None \<Rightarrow> Inr (- 1, w)
    | Some c \<Rightarrow> bindE (print_page c w) (\<lambda>w. Inr (0, w)))"

definition FTMC_Main :: handler where
  "FTMC_Main w = (case files w ''../contents/base'' of
      None \<Rightarrow> Inr (- 1, w)
    | Some c \<Rightarrow> bindE (print_page c (qcgires_setcontenttype ''text/html'' w)) (\<lambda>w. Inr (0, w)))"

section \<open>The entry point\<close>

text \<open>
  The session check of \<open>main\<close>: \<open>FTMC_IsValidSSID\<close> and, if it accepts, \<open>FTMC_SaveSSID\<close>. A refused
  check may still have dropped expired sessions.
\<close>

definition session_gate :: "bool \<Rightarrow> string option \<Rightarrow> word32 \<Rightarrow> shm \<Rightarrow> bool \<times> shm" where
  "session_gate create lpszSSID xTime s = (case lpszSSID of
      None \<Rightarrow> (False, s)
    | Some tag \<Rightarrow> if length tag \<noteq> 32 then (False, s)
        else (case FTMC_IsValidSSID tag xTime s of
          (r, s1) \<Rightarrow> if r \<noteq> 0 then (True, snd (FTMC_SaveSSID create tag xTime s1)) else (False, s1)))"

text \<open>
  An entry of the command table. Only one of the commands may run for ever (\<open>ota\<close>); the others are
  handlers that return.
\<close>

type_synonym service = "cgi \<Rightarrow> (int \<times> cgi) run"

definition returning :: "handler \<Rightarrow> service" where
  "returning f w = Some (f w)"

definition req_serve :: "string \<Rightarrow> service \<Rightarrow> cgi \<Rightarrow> cgi run" where
  "req_serve name fService w =
     (if name = ''public'' then bindR (fService w) (\<lambda>x. Some (Inr (snd x)))
      else case session_gate (can_create w) (getstr w ''ssid'') (now w) (pool w) of
        (True, s) \<Rightarrow> bindR (fService (w\<lparr>pool := s\<rparr>)) (\<lambda>x. Some (Inr (snd x)))
      | (False, s) \<Rightarrow> Some (FTMC_LoadIndex (w\<lparr>pool := s\<rparr>)))"

text \<open>\<open>pReq->free(pReq)\<close> at the end of \<open>main\<close>, unless the process has ended before.\<close>

definition req_end :: "cgi \<Rightarrow> cgi res" where
  "req_end w = (if exited w then Inr w else req_free w)"

definition req_main :: "(string \<times> service) list \<Rightarrow> string \<Rightarrow> cgi \<Rightarrow> cgi run" where
  "req_main table argv0 w =
     bindR (case map_of table argv0 of
         None \<Rightarrow> Some (qcgires_error ''Not supported command!'' w)
       | Some f \<Rightarrow> req_serve argv0 f w)
       (\<lambda>w. Some (req_end w))"

section \<open>What printing leaves alone\<close>

text \<open>Two worlds that agree on everything but the output and the request list.\<close>

definition same_system :: "cgi \<Rightarrow> cgi \<Rightarrow> bool" where
  "same_system w w' \<longleftrightarrow> files w' = files w \<and> wperm w' = wperm w \<and> cmds w' = cmds w \<and> clock w' = clock w \<and>
     pool w' = pool w \<and> now w' = now w \<and> can_create w' = can_create w"

lemma same_system_refl [simp]: "same_system w w"
  by (simp add: same_system_def)

lemma same_system_trans [trans]: "same_system u v \<Longrightarrow> same_system v w \<Longrightarrow> same_system u w"
  by (simp add: same_system_def)

lemma same_system_puts [simp]: "same_system w (puts s w)"
  by (simp add: same_system_def puts_def)

lemma same_system_print [simp]: "same_system w (print s w)"
  by (simp add: print_def)

lemma same_system_contenttype [simp]: "same_system w (qcgires_setcontenttype m w)"
  by (simp add: same_system_def)

lemma same_system_free: "req_free w = Inr w' \<Longrightarrow> same_system w w'"
  by (auto simp: req_free_def same_system_def split: if_splits)

lemma same_system_end: "req_end w = Inr w' \<Longrightarrow> same_system w w'"
  by (cases "exited w") (simp_all add: req_end_def same_system_free)

lemma same_system_error_page: "same_system w (error_page m w)"
  using same_system_trans [OF same_system_contenttype same_system_puts] by (simp add: error_page_def)

lemma same_system_error:
  assumes "qcgires_error m w = Inr w'"
  shows "same_system w w' \<and> exited w'"
proof -
  from assms obtain v where v: "req_free (error_page m w) = Inr v" "w' = v\<lparr>exited := True\<rparr>"
    by (auto simp: qcgires_error_def bindE_eq_Inr_iff)
  from same_system_trans [OF same_system_error_page same_system_free [OF v(1)]] v(2)
  show ?thesis by (simp add: same_system_def)
qed

lemma print_chunks_same: "print_chunks cs w = Inr w' \<Longrightarrow> same_system w w' \<and> exited w' = exited w \<and> req_live w' = req_live w"
proof (induction cs arbitrary: w)
  case (Cons c cs)
  then obtain s where s: "print_chunks cs (puts s w) = Inr w'" by (auto simp: bindE_eq_Inr_iff)
  from Cons.IH [OF s] have "same_system w w'" by (blast intro: same_system_trans same_system_puts)
  with Cons.IH [OF s] show ?case by (simp add: puts_def)
qed simp

lemma LoadIndex_same: "FTMC_LoadIndex w = Inr w' \<Longrightarrow> same_system w w'"
  unfolding FTMC_LoadIndex_def print_page_def
  by (auto split: option.splits dest!: print_chunks_same same_system_error
      intro: same_system_trans [OF same_system_contenttype])

section \<open>The session check\<close>

definition live_session :: "shm \<Rightarrow> string \<Rightarrow> word32 \<Rightarrow> bool" where
  "live_session s tag t \<longleftrightarrow> (\<exists>e. abs_shm s tag = Some e \<and> e - t \<le> VALID_TIME)"

lemma live_session_tag: "live_session s tag t \<Longrightarrow> length tag = 32"
  by (auto simp: live_session_def abs_shm_def split: option.splits if_splits)

lemma IsValid_iff_live:
  assumes "shm_wf s" "length tag = 32"
  shows "fst (FTMC_IsValidSSID tag t s) = (if live_session s tag t then 1 else 0)"
proof (cases s)
  case None
  then show ?thesis by (simp add: FTMC_IsValidSSID_def live_session_def abs_shm_simps)
next
  case (Some p)
  with assms show ?thesis
    by (auto simp: live_session_def abs_shm_simps IsValid_result split: option.splits)
qed

lemma gate_iff_live:
  assumes "shm_wf s"
  shows "fst (session_gate c ssid t s) \<longleftrightarrow> (\<exists>tag. ssid = Some tag \<and> live_session s tag t)"
proof (cases "\<exists>tag. ssid = Some tag \<and> length tag = 32")
  case True
  then obtain tag where tag: "ssid = Some tag" "length tag = 32" by blast
  with IsValid_iff_live [OF assms tag(2), of t] show ?thesis
    by (auto simp: session_gate_def case_prod_beta)
next
  case False
  then show ?thesis by (auto simp: session_gate_def dest: live_session_tag split: option.splits)
qed

text \<open>A check that accepts leaves the pool as it is and then moves the expiry of this one session.\<close>

lemma IsValid_accept_pool: "fst (FTMC_IsValidSSID tag t s) = 1 \<Longrightarrow> snd (FTMC_IsValidSSID tag t s) = s"
  by (auto simp: FTMC_IsValidSSID_def Let_def split: option.splits if_splits)

lemma gate_accept:
  assumes "shm_wf s" "live_session s tag t"
  obtains s' where "session_gate c (Some tag) t s = (True, s')" "shm_wf s'"
    "abs_shm s' = (abs_shm s)(tag \<mapsto> t + VALID_TIME)"
proof -
  note len = live_session_tag [OF assms(2)]
  have ok: "FTMC_IsValidSSID tag t s = (1, s)"
    using IsValid_iff_live [OF assms(1) len, of t] IsValid_accept_pool [of tag t s] assms(2)
    by (metis prod.collapse)
  let ?s = "snd (FTMC_SaveSSID c tag t s)"
  from assms(2) obtain p where p: "s = Some p" "sessions (xBuckets p) tag \<noteq> None"
    by (auto simp: live_session_def abs_shm_def split: option.splits if_splits)
  have "abs_shm ?s = (abs_shm s)(tag \<mapsto> t + VALID_TIME)"
    by (rule refine_save [OF assms(1) len]) (use p in \<open>simp add: evicted_def\<close>)
  moreover have "shm_wf ?s" using assms(1) len by (simp add: shm_wf_save)
  ultimately show thesis using ok len by (intro that) (simp_all add: session_gate_def)
qed

text \<open>A check that refuses gives no one a session.\<close>

lemma drop_when_subset: "drop_when P m \<subseteq>\<^sub>m m"
  by (auto simp: map_le_def drop_when_def dom_def split: option.splits if_splits)

lemma gate_refuse:
  assumes "shm_wf s" "session_gate c ssid t s = (False, s')"
  shows "shm_wf s' \<and> abs_shm s' \<subseteq>\<^sub>m abs_shm s"
proof (cases "\<exists>tag. ssid = Some tag \<and> length tag = 32")
  case False
  with assms show ?thesis by (auto simp: session_gate_def map_le_def split: option.splits if_splits)
next
  case True
  then obtain tag where tag: "ssid = Some tag" "length tag = 32" by blast
  with assms(2) have s': "s' = snd (FTMC_IsValidSSID tag t s)"
    by (auto simp: session_gate_def split: prod.splits if_splits)
  from refine_valid [OF assms(1) tag(2), of t] s' have "abs_shm s' \<subseteq>\<^sub>m abs_shm s"
    by (auto simp: drop_when_subset map_le_def split: option.splits if_splits)
      (auto simp: drop_when_def dom_def split: option.splits if_splits)
  with s' assms(1) show ?thesis by (simp add: shm_wf_valid)
qed

section \<open>Several clients\<close>

text \<open>
  What the requests of all clients do to the pool, in the order in which they come: a request behind the
  session check, a login that stores a new identifier, a logout. The first component tells whether the check
  accepted.
\<close>

datatype visit = Request string word32 | Login string word32 | Logout string

fun visit_step :: "bool \<Rightarrow> visit \<Rightarrow> shm \<Rightarrow> bool \<times> shm" where
  "visit_step c (Request u t) s = session_gate c (Some u) t s"
| "visit_step c (Login u t) s = (True, snd (FTMC_SaveSSID c u t s))"
| "visit_step c (Logout u) s = (True, fst (snd (FTMC_DeleteSSID u s)))"

text \<open>
  When a visit leaves the session of a client alone that was last saved at \<open>t\<close>: requests come within the validity time, a login
  does not replace the session (it is known, a bucket is free or another one is bucket 0), and a logout is of
  a session in a later bucket.
\<close>

fun harmless :: "string \<Rightarrow> word32 \<Rightarrow> visit \<Rightarrow> shm \<Rightarrow> bool" where
  "harmless tag t (Request u t') s \<longleftrightarrow> t' - t \<le> VALID_TIME"
| "harmless tag t (Login u t') s \<longleftrightarrow> length u = 32 \<and> u \<noteq> tag \<and>
     (case s of None \<Rightarrow> False | Some p \<Rightarrow> evicted u (xBuckets p) \<noteq> Some tag)"
| "harmless tag t (Logout u) s \<longleftrightarrow> (case s of None \<Rightarrow> False | Some p \<Rightarrow>
     (case (first_idx (bucket_hit tag) (xBuckets p), first_idx (bucket_hit u) (xBuckets p)) of
        (_, None) \<Rightarrow> True | (Some i, Some j) \<Rightarrow> i < j | (None, Some j) \<Rightarrow> False))"

text \<open>A sequence of visits that are harmless to the client, whose own requests renew its session.\<close>

fun harmless_all :: "bool \<Rightarrow> string \<Rightarrow> word32 \<Rightarrow> visit list \<Rightarrow> shm \<Rightarrow> bool" where
  "harmless_all c tag t [] s = True"
| "harmless_all c tag t (v # vs) s \<longleftrightarrow> harmless tag t v s \<and>
     harmless_all c tag (case v of Request u t' \<Rightarrow> if u = tag then t' else t | _ \<Rightarrow> t) vs (snd (visit_step c v s))"

lemma gate_is_serve_step:
  assumes "pool_wf p" "length tag = 32"
  shows "session_gate c (Some tag) t (Some p) =
    (case pool_check tag t p of (ok, q) \<Rightarrow> (ok, Some (if ok then pool_save tag t q else q)))"
proof -
  obtain r x where rx: "FTMC_IsValidSSID tag t (Some p) = (r, x)" by fastforce
  from IsValid_pool [OF assms(1), of tag t] obtain q where "x = Some q" "pool_wf q"
    unfolding rx by auto
  with rx have rq: "FTMC_IsValidSSID tag t (Some p) = (r, Some q)" "pool_wf q" by auto
  then have "r = 0 \<or> r = 1" using IsValid_bool [of tag t "Some p"] by auto
  with rq show ?thesis
    using assms by (auto simp: session_gate_def pool_check_def SaveSSID_Some pool_save_eq)
qed

lemma request_step:
  assumes "pool_wf p" "length tag = 32" "pool_lookup p tag = Some (t + VALID_TIME)" "t' - t \<le> VALID_TIME"
  obtains q where "snd (session_gate c (Some u) t' (Some p)) = Some q" "pool_wf q"
    "pool_lookup q tag = Some ((if u = tag then t' else t) + VALID_TIME)"
    "u = tag \<Longrightarrow> fst (session_gate c (Some u) t' (Some p))"
proof (cases "length u = 32")
  case False
  with assms show thesis by (intro that [of p]) (auto simp: session_gate_def)
next
  case True
  let ?q = "if fst (pool_check u t' p) then pool_save u t' (snd (pool_check u t' p)) else snd (pool_check u t' p)"
  have g: "session_gate c (Some u) t' (Some p) = (fst (pool_check u t' p), Some ?q)"
    using gate_is_serve_step [OF assms(1) True] by (simp add: case_prod_beta)
  have "pool_wf (snd (pool_check u t' p))" using assms(1) by (rule ssid.invar_check)
  then have wf: "pool_wf ?q" using True by (simp add: pool_wf_save)
  show thesis
  proof (cases "u = tag")
    case True
    with ssid.own_request [OF assms] g wf show ?thesis by (intro that [of ?q]) simp_all
  next
    case False
    with ssid.other_request [OF assms(1,2) \<open>length u = 32\<close> False assms(3,4)] g wf show ?thesis by (intro that [of ?q]) simp_all
  qed
qed

lemma login_step:
  assumes "pool_wf p" "length tag = 32" "length u = 32" "u \<noteq> tag" "evicted u (xBuckets p) \<noteq> Some tag"
  obtains q where "snd (FTMC_SaveSSID c u t (Some p)) = Some q" "pool_wf q" "pool_lookup q tag = pool_lookup p tag"
proof -
  let ?q = "p\<lparr>xBuckets := save_buckets u (t + VALID_TIME) (xBuckets p)\<rparr>"
  have "pool_wf ?q" using pool_wf_save [OF assms(1,3), of t] assms(1) by (simp add: pool_save_eq)
  moreover have "pool_lookup ?q tag = pool_lookup p tag"
    using sessions_save [of "xBuckets p" u tag] assms by (simp add: pool_lookup_def pool_wf_def)
  ultimately show thesis using SaveSSID_Some [OF assms(1)] by (intro that [of ?q]) simp_all
qed

lemma logout_step:
  assumes "pool_wf p" "harmless tag t (Logout u) (Some p)"
  obtains q where "fst (snd (FTMC_DeleteSSID u (Some p))) = Some q" "pool_wf q" "pool_lookup q tag = pool_lookup p tag"
proof (cases "first_idx (bucket_hit u) (xBuckets p)")
  case None
  with assms(1) show thesis by (intro that [of p]) (simp_all add: FTMC_DeleteSSID_def)
next
  case (Some j)
  with assms(2) obtain i where i: "first_idx (bucket_hit tag) (xBuckets p) = Some i" "i < j"
    by (auto split: option.splits)
  have wf: "buckets_wf (xBuckets p)" "j \<le> length (xBuckets p)"
    using assms(1) Some by (auto simp: pool_wf_def dest: first_idx_SomeD)
  let ?q = "p\<lparr>xBuckets := memset_from j (xBuckets p)\<rparr>"
  have "pool_wf ?q" using assms(1) buckets_wf_memset [OF wf] by (simp add: pool_wf_def)
  moreover have "pool_lookup ?q tag = pool_lookup p tag"
    using sessions_memset [OF wf, of tag] i by (simp add: pool_lookup_def sessions_def)
  ultimately show thesis using Some by (intro that [of ?q]) (simp_all add: FTMC_DeleteSSID_def)
qed

text \<open>A harmless visit keeps the session of the client, and a request of the client is accepted.\<close>

lemma harmless_step:
  assumes "pool_wf p" "length tag = 32" "pool_lookup p tag = Some (t + VALID_TIME)" "harmless tag t v (Some p)"
  obtains q where "snd (visit_step c v (Some p)) = Some q" "pool_wf q"
    "pool_lookup q tag = Some ((case v of Request u t' \<Rightarrow> if u = tag then t' else t | _ \<Rightarrow> t) + VALID_TIME)"
    "\<And>t'. v = Request tag t' \<Longrightarrow> fst (visit_step c v (Some p))"
proof (cases v)
  case (Request u t')
  obtain q where q: "snd (session_gate c (Some u) t' (Some p)) = Some q" "pool_wf q"
    "pool_lookup q tag = Some ((if u = tag then t' else t) + VALID_TIME)"
    "u = tag \<Longrightarrow> fst (session_gate c (Some u) t' (Some p))"
    by (rule request_step [OF assms(1-3), of t' c u]) (use assms(4) Request in simp_all)
  then show thesis by (intro that [of q]) (use Request in auto)
next
  case (Login u t')
  obtain q where "snd (FTMC_SaveSSID c u t' (Some p)) = Some q" "pool_wf q" "pool_lookup q tag = pool_lookup p tag"
    by (rule login_step [OF assms(1,2), of u c t']) (use assms(4) Login in simp_all)
  then show thesis by (intro that [of q]) (use Login assms(3) in simp_all)
next
  case (Logout u)
  obtain q where "fst (snd (FTMC_DeleteSSID u (Some p))) = Some q" "pool_wf q" "pool_lookup q tag = pool_lookup p tag"
    by (rule logout_step [OF assms(1)]) (use assms(4) Logout in simp)
  then show thesis by (intro that [of q]) (use Logout assms(3) in simp_all)
qed

lemma requests_accepted:
  "pool_wf p \<Longrightarrow> length tag = 32 \<Longrightarrow> pool_lookup p tag = Some (t + VALID_TIME) \<Longrightarrow> harmless_all c tag t vs (Some p) \<Longrightarrow>
   list_all2 (\<lambda>v ok. (\<exists>t'. v = Request tag t') \<longrightarrow> ok) vs (fst (run_calls (visit_step c) vs (Some p)))"
proof (induction vs arbitrary: p t)
  case (Cons v vs)
  let ?t = "case v of Request u t' \<Rightarrow> if u = tag then t' else t | _ \<Rightarrow> t"
  have h: "harmless tag t v (Some p)" "harmless_all c tag ?t vs (snd (visit_step c v (Some p)))" using Cons.prems(4) by simp_all
  obtain q where q: "snd (visit_step c v (Some p)) = Some q" "pool_wf q" "pool_lookup q tag = Some (?t + VALID_TIME)"
    "\<And>t'. v = Request tag t' \<Longrightarrow> fst (visit_step c v (Some p))"
    by (rule harmless_step [OF Cons.prems(1-3) h(1), of c]) (rule that)
  from Cons.IH [OF q(2) Cons.prems(2) q(3)] h(2) q(1,4) show ?case by (auto simp: case_prod_beta)
qed simp

section \<open>Properties of the entry point\<close>

text \<open>
  C2. No session, no service. If the request carries no identifier of a live session, then for every
  command but \<open>public\<close> the run is the same whatever the handler is: the handler is not called. The run
  ends; no command is started, no file changes, and no session appears in the pool.
\<close>

theorem no_session_no_service:
  assumes "shm_wf (pool w)" "map_of table a = Some f" "a \<noteq> ''public''"
    and "\<not> (\<exists>tag. getstr w ''ssid'' = Some tag \<and> live_session (pool w) tag (now w))"
  shows "req_main table a w = req_main ((a, g) # table) a w \<and> req_main table a w \<noteq> None \<and>
    (\<forall>w'. req_main table a w = Some (Inr w') \<longrightarrow>
       files w' = files w \<and> cmds w' = cmds w \<and> abs_shm (pool w') \<subseteq>\<^sub>m abs_shm (pool w))"
proof -
  obtain s where s: "session_gate (can_create w) (getstr w ''ssid'') (now w) (pool w) = (False, s)"
    using gate_iff_live [OF assms(1), of "can_create w" "getstr w ''ssid''" "now w"] assms(4)
    by (metis (full_types) prod.collapse)
  have run: "req_main ((a, g) # table) a w = req_main table a w"
    "req_main table a w = Some (bindE (FTMC_LoadIndex (w\<lparr>pool := s\<rparr>)) req_end)"
    using s assms(2,3) by (auto simp: req_main_def req_serve_def bindE_def bindR_def split: sum.split)
  have "same_system (w\<lparr>pool := s\<rparr>) w'" if "req_main table a w = Some (Inr w')" for w'
    using that unfolding run(2)
    by (auto simp: bindE_eq_Inr_iff dest!: LoadIndex_same same_system_end intro: same_system_trans)
  then have "files w' = files w \<and> cmds w' = cmds w \<and> pool w' = s" if "req_main table a w = Some (Inr w')" for w'
    using that by (simp add: same_system_def)
  with gate_refuse [OF assms(1) s] have "\<forall>w'. req_main table a w = Some (Inr w') \<longrightarrow>
      files w' = files w \<and> cmds w' = cmds w \<and> abs_shm (pool w') \<subseteq>\<^sub>m abs_shm (pool w)"
    by blast
  moreover have "req_main table a w \<noteq> None" unfolding run(2) by simp
  ultimately show ?thesis using run(1) by (metis (no_types))
qed

theorem no_session_no_service_witness:
  "req_main [(''system'', \<lambda>w. Some (Inr (0, w\<lparr>cmds := [''reboot'']\<rparr>)))] ''system''
     (web_world Map.empty [(''ssid'', tag_a)]) =
   req_main [(''system'', \<lambda>w. None), (''system'', \<lambda>w. Some (Inr (0, w\<lparr>cmds := [''reboot'']\<rparr>)))] ''system''
     (web_world Map.empty [(''ssid'', tag_a)])"
  using no_session_no_service [of "web_world Map.empty [(''ssid'', tag_a)]"
      "[(''system'', \<lambda>w. Some (Inr (0, w\<lparr>cmds := [''reboot'']\<rparr>)))]" "''system''" _ "\<lambda>w. None"]
  by (simp add: web_world_def live_session_def abs_shm_simps)

text \<open>
  C13. A live session is served and renewed. If the identifier of the request is a live session, the
  handler of the command runs on the same world with exactly one change: this session now expires
  600 seconds from now; every other session keeps its expiry.
\<close>

theorem live_session_served:
  assumes "shm_wf (pool w)" "map_of table a = Some f" "a \<noteq> ''public''"
    and "getstr w ''ssid'' = Some tag" "live_session (pool w) tag (now w)"
  shows "\<exists>s. req_main table a w =
      bindR (f (w\<lparr>pool := s\<rparr>)) (\<lambda>x. Some (req_end (snd x))) \<and> shm_wf s \<and> abs_shm s = (abs_shm (pool w))(tag \<mapsto> now w + VALID_TIME)"
proof -
  from assms(1,5) obtain s where s: "session_gate (can_create w) (Some tag) (now w) (pool w) = (True, s)"
    "shm_wf s" "abs_shm s = (abs_shm (pool w))(tag \<mapsto> now w + VALID_TIME)"
    by (rule gate_accept)
  with assms(2,3,4) show ?thesis
    by (intro exI [of _ s]) (simp add: req_main_def req_serve_def, simp add: bindR_def split: option.split sum.split)
qed

definition one_session :: shm where
  "one_session = snd (FTMC_SaveSSID True tag_a 900 None)"

lemma one_session_facts: "shm_wf one_session" "abs_shm one_session = [tag_a \<mapsto> 1500]"
  using refine_save [of None tag_a True 900] shm_wf_save [of None tag_a True 900]
  by (simp_all add: one_session_def tag_a_def abs_shm_simps VALID_TIME_def)

theorem live_session_served_witness:
  "\<exists>s. req_main [(''page'', returning FTMC_Page)] ''page''
        ((web_world Map.empty [(''ssid'', tag_a)])\<lparr>pool := one_session\<rparr>) =
      bindR (returning FTMC_Page ((web_world Map.empty [(''ssid'', tag_a)])\<lparr>pool := s\<rparr>))
        (\<lambda>x. Some (req_end (snd x))) \<and> abs_shm s = [tag_a \<mapsto> 1600]"
  using live_session_served [of "(web_world Map.empty [(''ssid'', tag_a)])\<lparr>pool := one_session\<rparr>"
      "[(''page'', returning FTMC_Page)]" "''page''" "returning FTMC_Page" tag_a]
  by (auto simp: web_world_def one_session_facts live_session_def VALID_TIME_def getstr_def qentry_get_def
      cstr_def tag_a_def)

text \<open>
  C20. Keep-alive. Among the requests, logins and logouts of any number of clients, in any order, a client whose requests come at
  most 600 seconds apart, the first within 600 seconds of its login, is accepted every time, across the wrap of the clock.
  The conditions are those of the code (\<open>harmless\<close>): the checks of other clients in between are made within these 600 seconds too,
  no login replaces the session in a full pool, and no session in an earlier bucket is logged out, which would end this one.
\<close>

theorem session_keepalive:
  assumes "pool_wf p" "length tag = 32"
    and "harmless_all c tag t vs (snd (FTMC_SaveSSID True tag t (Some p)))"
  shows "list_all2 (\<lambda>v ok. (\<exists>t'. v = Request tag t') \<longrightarrow> ok) vs
    (fst (run_calls (visit_step c) vs (snd (FTMC_SaveSSID True tag t (Some p)))))"
proof -
  have "snd (FTMC_SaveSSID True tag t (Some p)) = Some (pool_save tag t p)"
    using assms(1) by (simp add: SaveSSID_Some pool_save_eq)
  with requests_accepted [OF ssid.invar_save [OF assms(1,2)] assms(2) ssid.lookup_save_same [OF assms(1,2)]] assms(3)
  show ?thesis by simp
qed

lemma demo_visits:
  assumes "\<exists>b \<in> set (xBuckets p). bValid b = 0"
  shows "harmless_all True tag_a 4294967000 [Login tag_b 4294967010, Request tag_a 4294967290, Request tag_a 500] (Some p)"
proof -
  have ab: "length tag_a = 32" "length tag_b = 32" "tag_b \<noteq> tag_a" by (simp_all add: tag_a_def tag_b_def)
  have t: "4294967290 - (4294967000 :: word32) \<le> VALID_TIME" "500 - (4294967290 :: word32) \<le> VALID_TIME"
    by (simp_all add: VALID_TIME_def)
  have "evicted tag_b (xBuckets p) = None" using assms by (simp add: evicted_def)
  with ab t show ?thesis by simp
qed

text \<open>A second client logs in between, and the clock wraps.\<close>

theorem session_keepalive_witness:
  "list_all2 (\<lambda>v ok. (\<exists>t'. v = Request tag_a t') \<longrightarrow> ok) [Login tag_b 4294967010, Request tag_a 4294967290, Request tag_a 500]
    (fst (run_calls (visit_step True) [Login tag_b 4294967010, Request tag_a 4294967290, Request tag_a 500]
      (snd (FTMC_SaveSSID True tag_a 4294967000 (Some (zero_pool\<lparr>nValidTime := VALID_TIME\<rparr>))))))"
proof -
  let ?z = "zero_pool\<lparr>nValidTime := VALID_TIME\<rparr>"
  have len: "length tag_a = 32" by (simp add: tag_a_def)
  have s: "snd (FTMC_SaveSSID True tag_a 4294967000 (Some ?z)) = Some (pool_save tag_a 4294967000 ?z)"
    by (simp add: SaveSSID_Some pool_wf_zero pool_save_eq)
  have free: "\<exists>b \<in> set ((replicate 100 zero_bucket)[k := x]). bValid b = 0" for k x
  proof -
    let ?i = "if k = 0 then 1 else 0 :: nat"
    have "(replicate 100 zero_bucket)[k := x] ! ?i = zero_bucket" "?i < length ((replicate 100 zero_bucket)[k := x])" by auto
    then have "zero_bucket \<in> set ((replicate 100 zero_bucket)[k := x])" by (metis nth_mem)
    then show ?thesis by (rule bexI [rotated]) (simp add: zero_bucket_def)
  qed
  have "first_idx (bucket_hit tag_a) (xBuckets ?z) = None"
    using sessions_zero [of VALID_TIME tag_a] by (simp add: sessions_def)
  then have "\<exists>b \<in> set (xBuckets (pool_save tag_a 4294967000 ?z)). bValid b = 0"
    using free unfolding pool_save_eq [OF pool_wf_zero] by (simp add: save_buckets_def zero_pool_def)
  then have "harmless_all True tag_a 4294967000 [Login tag_b 4294967010, Request tag_a 4294967290, Request tag_a 500]
      (snd (FTMC_SaveSSID True tag_a 4294967000 (Some ?z)))"
    unfolding s by (rule demo_visits)
  from session_keepalive [OF pool_wf_zero len this] show ?thesis .
qed

section \<open>The example world\<close>

lemma getstr_web [simp]: "getstr (web_world fs q) n = map_option cstr (map_of q n)"
  by (simp add: web_world_def getstr_def qentry_get_def)

lemma web_world_sel [simp]:
  "files (web_world fs q) = fs" "wperm (web_world fs q) p" "req (web_world fs q) = q" "pool (web_world fs q) = None"
  "now (web_world fs q) = 1000" "\<not> exited (web_world fs q)" "cmds (web_world fs q) = []" "out (web_world fs q) = []"
  by (simp_all add: web_world_def)

lemma web_shell_cp: "cp_law web_shell"
  by (simp add: cp_law_def web_shell_def)

end
