(* ===== verification/Fwmng.thy ===== *)
theory Fwmng
  imports Os "HOL-Library.Signed_Division"
begin

text \<open>
  \<open>apps/fwmng/main.c\<close>: writing a firmware image to a flash device. The image is copied in blocks of
  4096 bytes and the percentage done is kept in shared memory for \<open>fwmng -s\<close>. The arithmetic of the
  percentage is that of a 32-bit \<open>int\<close>, with wrap-around.
\<close>

record STATUS =
  szSrcName :: string
  szDestName :: string
  nSize :: int
  nProgress :: int

type_synonym status_shm = "STATUS option"

definition zero_status :: STATUS where
  "zero_status = \<lparr>szSrcName = [], szDestName = [], nSize = 0, nProgress = 0\<rparr>"

text \<open>\<open>XSD_Open\<close> and, if there is no segment, \<open>XSD_Create\<close>.\<close>

definition open_status :: "bool \<Rightarrow> status_shm \<Rightarrow> status_shm" where
  "open_status can_create s = (case s of Some st \<Rightarrow> Some st | None \<Rightarrow> if can_create then Some zero_status else None)"

definition showStatus :: "bool \<Rightarrow> status_shm \<Rightarrow> 'a os_scheme \<Rightarrow> int \<times> status_shm \<times> 'a os_scheme" where
  "showStatus can_create s w = (case open_status can_create s of
      None \<Rightarrow> (- 1, None, w)
    | Some st \<Rightarrow> (0, Some st, puts (show_int (nProgress st) @ [nl]) w))"

text \<open>The blocks that successive calls \<open>read(hSrc, szBuf, 4096)\<close> return, and a write at a position.\<close>

function blocks :: "nat \<Rightarrow> string \<Rightarrow> string list" where
  "blocks n s = (if s = [] \<or> n = 0 then [] else take n s # blocks n (drop n s))"
  by pat_completeness auto
termination
  by (relation "measure (\<lambda>(n, s). length s)") auto

declare blocks.simps [simp del]

definition write_at :: "nat \<Rightarrow> string \<Rightarrow> string \<Rightarrow> string" where
  "write_at pos bs d = take pos d @ bs @ drop (pos + length bs) d"

definition percent :: "int \<Rightarrow> int \<Rightarrow> int" where
  "percent nReadSize nSz = sint (word_of_int (nReadSize * 100) :: 32 word) sdiv nSz"

text \<open>
  The copy loop: device contents, position, \<open>nReadSize\<close> and the values \<open>nProgress\<close> takes. The destination is the
  parameter \<open>taken\<close>: of a write of \<open>n\<close> bytes at a position it takes \<open>taken pos n\<close> bytes, fewer than \<open>n\<close> when the write is
  short and none when it fails. The code looks at no result of \<open>write\<close>: \<open>nReadSize\<close> counts the bytes read.
\<close>

fun copy_loop :: "sink \<Rightarrow> int \<Rightarrow> string list \<Rightarrow> string \<times> nat \<times> int \<times> int list \<Rightarrow> string \<times> nat \<times> int \<times> int list" where
  "copy_loop taken nSz [] st = st"
| "copy_loop taken nSz (b # bs) (d, pos, nReadSize, ps) =
     (let written = take (taken pos (length b)) b;
          nReadSize = nReadSize + int (length b) in
      copy_loop taken nSz bs (write_at pos written d, pos + length written, nReadSize, ps @ [percent nReadSize nSz]))"

definition upgradeFirmware ::
  "shell \<Rightarrow> sink \<Rightarrow> bool \<Rightarrow> string \<Rightarrow> string \<Rightarrow> status_shm \<Rightarrow> 'a os_scheme \<Rightarrow> (int \<times> status_shm \<times> 'a os_scheme) res" where
  "upgradeFirmware sh taken can_create lpszSrc lpszDest s w = (case open_status can_create s of
      None \<Rightarrow> Inr (- 1, None, w)
    | Some st \<Rightarrow>
       (let st = st\<lparr>szSrcName := take 255 lpszSrc, szDestName := take 255 lpszDest, nProgress := 0\<rparr> in
        case files w lpszSrc of
          None \<Rightarrow> Inr (- 1, Some st, w)
        | Some src \<Rightarrow>
           if src = [] then Inr (- 1, Some st, w)
           else let st = st\<lparr>nSize := int (length src)\<rparr> in
             (case files w lpszDest of
                None \<Rightarrow> Inr (- 1, Some st, w)
              | Some dest \<Rightarrow>
                 if \<not> wperm w lpszDest then Inr (- 1, Some st, w)
                 else case copy_loop taken (nSize st) (blocks 4096 src) (dest, 0, 0, []) of
                   (d, _, _, ps) \<Rightarrow>
                     bindE (system_wait sh ''sync;sync'' (write_file lpszDest d w)) (\<lambda>w.
                       Inr (0, Some (st\<lparr>nProgress := last ps\<rparr>), w)))))"

text \<open>The options \<open>-s\<close>, \<open>-i file\<close>, \<open>-o file\<close>, \<open>-v\<close> and \<open>-V\<close>; the pointers start uninitialised.\<close>

datatype fw_opt = FwStatus | FwInput string | FwOutput string | FwVerbose | FwInvalid

fun fw_main ::
  "shell \<Rightarrow> sink \<Rightarrow> bool \<Rightarrow> fw_opt list \<Rightarrow> string option \<times> string option \<Rightarrow> status_shm \<Rightarrow> 'a os_scheme \<Rightarrow>
   (int \<times> status_shm \<times> 'a os_scheme) res" where
  "fw_main sh taken c [] (Some src, Some dst) s w = upgradeFirmware sh taken c src dst s w"
| "fw_main sh taken c [] _ s w = Inl UninitRead"
| "fw_main sh taken c (FwStatus # os) st s w = Inr (showStatus c s w)"
| "fw_main sh taken c (FwInput f # os) (_, dst) s w = fw_main sh taken c os (Some f, dst) s w"
| "fw_main sh taken c (FwOutput f # os) (src, _) s w = fw_main sh taken c os (src, Some f) s w"
| "fw_main sh taken c (FwVerbose # os) st s w = fw_main sh taken c os st s w"
| "fw_main sh taken c (FwInvalid # os) st s w = Inr (0, s, w)"

section \<open>The copy\<close>

lemma concat_blocks: "0 < n \<Longrightarrow> concat (blocks n s) = s"
proof (induction n s rule: blocks.induct)
  case (1 n s)
  then show ?case by (cases "s = []") (simp_all add: blocks.simps [of n "[]"] blocks.simps [of n s])
qed

lemma blocks_nonempty: "b \<in> set (blocks n s) \<Longrightarrow> b \<noteq> [] \<and> length b \<le> n"
proof (induction n s rule: blocks.induct)
  case (1 n s)
  then show ?case by (auto simp: blocks.simps [of n s] split: if_splits)
qed

lemma length_write_at: "pos + length bs \<le> length d \<Longrightarrow> length (write_at pos bs d) = length d"
  by (simp add: write_at_def)

lemma write_at_write_at:
  "pos \<le> length d \<Longrightarrow> write_at (pos + length a) b (write_at pos a d) = write_at pos (a @ b) d"
  by (simp add: write_at_def add.commute add.left_commute)

definition sum_len :: "string list \<Rightarrow> int" where
  "sum_len bs = int (length (concat bs))"

text \<open>What the loop counts: the bytes read and the percentages, whatever the destination takes.\<close>

lemma copy_loop_counts:
  "snd (snd (copy_loop taken nSz bs (d, pos, r, ps))) =
    (r + sum_len bs, ps @ map (\<lambda>k. percent (r + sum_len (take k bs)) nSz) [1..<Suc (length bs)])"
proof (induction bs arbitrary: d pos r ps)
  case (Cons b bs)
  have shift: "map (\<lambda>k. percent (r + sum_len (take k (b # bs))) nSz) [1..<Suc (length (b # bs))] =
      percent (r + int (length b)) nSz #
      map (\<lambda>k. percent (r + int (length b) + sum_len (take k bs)) nSz) [1..<Suc (length bs)]"
    by (simp add: upt_conv_Cons sum_len_def map_Suc_upt [symmetric] del: upt_Suc) (simp add: add.assoc)
  show ?case unfolding shift by (simp add: Let_def Cons.IH sum_len_def add.assoc)
qed (simp add: sum_len_def)

text \<open>
  A device of fixed size takes what fits: up to its end, and nothing from there on (\<open>write\<close> then returns an error).
\<close>

definition takes_what_fits :: "sink \<Rightarrow> nat \<Rightarrow> bool" where
  "takes_what_fits taken cap \<longleftrightarrow> (\<forall>pos n. taken pos n = min n (cap - pos))"

lemma copy_loop_device:
  assumes "takes_what_fits taken (length d)" "pos \<le> length d"
  shows "fst (copy_loop taken nSz bs (d, pos, r, ps)) = write_at pos (take (length d - pos) (concat bs)) d"
  using assms
proof (induction bs arbitrary: d pos r ps)
  case Nil
  then show ?case by (simp add: write_at_def)
next
  case (Cons b bs)
  let ?b = "take (length d - pos) b"
  have b: "take (taken pos (length b)) b = ?b" using Cons.prems(1) by (simp add: takes_what_fits_def min_def)
  have len: "length (write_at pos ?b d) = length d" using Cons.prems(2) by (intro length_write_at) auto
  have "fst (copy_loop taken nSz (b # bs) (d, pos, r, ps)) =
      write_at (pos + length ?b) (take (length d - (pos + length ?b)) (concat bs)) (write_at pos ?b d)"
    using Cons.IH [of "write_at pos ?b d" "pos + length ?b"] Cons.prems len by (simp add: Let_def b)
  also have "\<dots> = write_at pos (?b @ take (length d - (pos + length ?b)) (concat bs)) d"
    using Cons.prems(2) by (rule write_at_write_at)
  also have "?b @ take (length d - (pos + length ?b)) (concat bs) = take (length d - pos) (b @ concat bs)"
    by (simp add: min_def)
  finally show ?case by simp
qed

lemma percent_exact:
  assumes "0 \<le> r" "r * 100 < 2147483648" "0 < n"
  shows "percent r n = r * 100 div n"
proof -
  have "sint (word_of_int (r * 100) :: 32 word) = r * 100" using assms by (intro sint_small) auto
  then have "percent r n = (r * 100) sdiv n" by (simp only: percent_def)
  with assms show ?thesis by (simp add: signed_divide_int_def sgn_if)
qed

lemma percent_bounds:
  assumes "0 \<le> r" "r \<le> n" "n * 100 < 2147483648" "0 < n"
  shows "0 \<le> percent r n \<and> percent r n \<le> 100"
proof -
  have "percent r n = r * 100 div n" using assms by (intro percent_exact) auto
  moreover have "r * 100 div n \<le> n * 100 div n" using assms by (intro zdiv_mono1) auto
  ultimately show ?thesis using assms by (simp add: pos_imp_zdiv_nonneg_iff)
qed

lemma percent_mono:
  assumes "0 \<le> r" "r \<le> r'" "r' \<le> n" "n * 100 < 2147483648" "0 < n"
  shows "percent r n \<le> percent r' n"
proof -
  have "percent r n = r * 100 div n" "percent r' n = r' * 100 div n" using assms by (auto intro!: percent_exact)
  then show ?thesis using assms by (simp add: zdiv_mono1)
qed

lemma percent_wrapped:
  assumes "21474837 \<le> n" "n \<le> 42949672"
  shows "percent n n \<le> 0"
proof -
  have "sint (word_of_int (n * 100) :: 32 word) = n * 100 - 4294967296"
    using assms by (intro sint_wrapped) auto
  then have "percent n n = (n * 100 - 4294967296) sdiv n" by (simp only: percent_def)
  with assms show ?thesis by (simp add: signed_divide_int_def sgn_if pos_imp_zdiv_nonneg_iff)
qed

lemma sum_len_take:
  shows "0 \<le> sum_len (take k bs)"
    and "sum_len (take k bs) \<le> sum_len bs"
    and "j \<le> k \<Longrightarrow> sum_len (take j bs) \<le> sum_len (take k bs)"
proof -
  have mono: "sum_len (take i cs) \<le> sum_len cs" for i and cs :: "string list"
    by (metis append_take_drop_id concat_append length_append le_add1 of_nat_le_iff sum_len_def)
  show "0 \<le> sum_len (take k bs)" by (simp add: sum_len_def)
  show "sum_len (take k bs) \<le> sum_len bs" by (rule mono)
  show "sum_len (take j bs) \<le> sum_len (take k bs)" if "j \<le> k"
    using mono [of j "take k bs"] that by (simp add: min_def)
qed

definition progress_of :: "string \<Rightarrow> int list" where
  "progress_of src = (case copy_loop (\<lambda>pos n. n) (int (length src)) (blocks 4096 src) ([], 0, 0, []) of (_, _, _, ps) \<Rightarrow> ps)"

lemma progress_of_eq:
  "progress_of src = map (\<lambda>k. percent (sum_len (take k (blocks 4096 src))) (int (length src))) [1..<Suc (length (blocks 4096 src))]"
  using copy_loop_counts [of "\<lambda>pos n. n" "int (length src)" "blocks 4096 src" "[]" 0 0 "[]"]
  by (auto simp: progress_of_def split: prod.split simp del: upt_Suc)

text \<open>The percentages do not depend on the destination; a device of fixed size has the image as far as it fits.\<close>

lemma copy_image:
  obtains d' pos' where "copy_loop taken (int (length src)) (blocks 4096 src) (d, 0, 0, []) =
      (d', pos', int (length src), progress_of src)"
    "takes_what_fits taken (length d) \<Longrightarrow> d' = take (length d) src @ drop (length src) d"
proof -
  have c: "concat (blocks 4096 src) = src" by (simp add: concat_blocks)
  let ?l = "copy_loop taken (int (length src)) (blocks 4096 src) (d, 0, 0, [])"
  have "snd (snd ?l) = (int (length src), progress_of src)"
    using copy_loop_counts [of taken "int (length src)" "blocks 4096 src" d 0 0 "[]"]
    by (simp add: progress_of_eq sum_len_def c del: upt_Suc)
  moreover have "fst ?l = take (length d) src @ drop (length src) d" if "takes_what_fits taken (length d)"
    using copy_loop_device [OF that, of 0 "int (length src)" "blocks 4096 src" 0 "[]"]
    by (simp add: c write_at_def min_def)
  ultimately show thesis using that [of "fst ?l" "fst (snd ?l)"] by (metis prod.collapse)
qed

lemma last_progress:
  assumes "src \<noteq> []"
  shows "last (progress_of src) = percent (int (length src)) (int (length src))"
proof -
  have "blocks 4096 src \<noteq> []" using assms by (simp add: blocks.simps [of 4096 src])
  then have "Suc 0 \<le> length (blocks 4096 src)" by (simp add: Suc_le_eq)
  then show ?thesis by (simp add: progress_of_eq last_map sum_len_def concat_blocks)
qed

section \<open>Properties of the firmware writer\<close>

text \<open>
  The command line that the update scripts use ends with \<open>-U\<close>, which the option string does not have. The
  program then returns 0 before it has opened a file.
\<close>

theorem unknown_option_writes_nothing:
  "FwInvalid \<in> set os \<Longrightarrow> FwStatus \<notin> set os \<Longrightarrow> fw_main sh taken c os st s w = Inr (0, s, w)"
  by (induction sh taken c os st s w rule: fw_main.induct) auto

text \<open>
  The image arrives. When source and device can be opened and \<open>sync\<close> runs, \<open>upgradeFirmware\<close>
  returns 0, and a device of fixed size that the image fits starts with exactly the bytes of the image, the rest of
  it unchanged. A larger image loses its tail, which nothing reports: the result is 0 and, for images of up to
  21474836 bytes, the progress ends at 100 all the same.
\<close>

theorem upgrade_writes_image:
  assumes "files w src = Some img" "img \<noteq> []" "files w dst = Some old" "wperm w dst"
    and "takes_what_fits taken (length old)"
    and "\<forall>t fs. \<exists>a. sh ''sync;sync'' t fs = Some (a, fs)" "open_status c s = Some st"
  shows "\<exists>st' w'. upgradeFirmware sh taken c src dst s w = Inr (0, Some st', w') \<and>
    files w' = (files w)(dst \<mapsto> take (length old) img @ drop (length img) old) \<and>
    (length img \<le> 21474836 \<longrightarrow> nProgress st' = 100)"
proof -
  let ?w = "write_file dst (take (length old) img @ drop (length img) old) w"
  obtain a where a: "sh ''sync;sync'' (clock ?w) (files ?w) = Some (a, files ?w)" using assms(6) by blast
  obtain pos' where cp: "copy_loop taken (int (length img)) (blocks 4096 img) (old, 0, 0, []) =
      (take (length old) img @ drop (length img) old, pos', int (length img), progress_of img)"
    using copy_image [of taken img old] assms(5) by metis
  have "percent (int (length img)) (int (length img)) = 100" if "length img \<le> 21474836"
    using percent_exact [of "int (length img)" "int (length img)"] that assms(2) by simp
  then show ?thesis
    using assms popen_SomeI [of sh "''sync;sync''" ?w, OF a]
    by (simp add: upgradeFirmware_def Let_def cp system_wait_def last_progress)
qed

definition fw_world :: os where
  "fw_world = \<lparr>files = [''/tmp/new_fw'' \<mapsto> ''image'', ''/dev/mtd3'' \<mapsto> ''old firmware''], wperm = \<lambda>_. True,
     cmds = [], out = [], clock = 0\<rparr>"

definition mtd_sink :: "nat \<Rightarrow> sink" where
  "mtd_sink cap pos n = min n (cap - pos)"

lemma mtd_sink_fits: "takes_what_fits (mtd_sink cap) cap"
  by (simp add: takes_what_fits_def mtd_sink_def)

theorem upgrade_writes_image_witness:
  "\<exists>st' w'. upgradeFirmware (\<lambda>cmd t fs. Some ([], fs)) (mtd_sink 12) True ''/tmp/new_fw'' ''/dev/mtd3'' None fw_world = Inr (0, Some st', w') \<and>
    files w' ''/dev/mtd3'' = Some ''imageirmware'' \<and> nProgress st' = 100"
  using upgrade_writes_image [of fw_world "''/tmp/new_fw''" "''image''" "''/dev/mtd3''" "''old firmware''"
      "mtd_sink 12" "\<lambda>cmd t fs. Some ([], fs)" True None zero_status]
  by (fastforce simp: fw_world_def open_status_def takes_what_fits_def mtd_sink_def)

text \<open>
  A failed write is not noticed. On a destination that takes nothing the program still returns 0 with the
  progress of a complete copy, and the destination is as it was.
\<close>

theorem upgrade_ignores_write_errors:
  assumes "files w src = Some img" "img \<noteq> []" "files w dst = Some old" "wperm w dst" "open_status c s = Some st"
    and "\<forall>t fs. \<exists>a. sh ''sync;sync'' t fs = Some (a, fs)" "length img \<le> 21474836"
  shows "\<exists>st' w'. upgradeFirmware sh (\<lambda>pos n. 0) c src dst s w = Inr (0, Some st', w') \<and>
    files w' = files w \<and> nProgress st' = 100"
proof -
  let ?w = "write_file dst old w"
  obtain a where a: "sh ''sync;sync'' (clock ?w) (files ?w) = Some (a, files ?w)" using assms(6) by blast
  have none: "fst (copy_loop (\<lambda>pos n. 0) nSz bs (old, pos, r, ps)) = old" for nSz bs pos r ps
    by (induction bs arbitrary: pos r ps) (simp_all add: Let_def write_at_def)
  obtain pos' where cp: "copy_loop (\<lambda>pos n. 0) (int (length img)) (blocks 4096 img) (old, 0, 0, []) =
      (old, pos', int (length img), progress_of img)"
    using copy_image [of "\<lambda>pos n. 0" img old] none by (metis fst_conv)
  have "percent (int (length img)) (int (length img)) = 100"
    using percent_exact [of "int (length img)" "int (length img)"] assms(2,7) by simp
  then show ?thesis
    using assms popen_SomeI [of sh "''sync;sync''" ?w, OF a]
    by (simp add: upgradeFirmware_def Let_def cp system_wait_def last_progress fun_upd_idem)
qed

text \<open>
  C38. Progress. For images of up to 21474836 bytes every percentage the copy loop stores is between
  0 and 100, and the sequence never decreases.
\<close>

theorem progress_sound:
  assumes "img \<noteq> []" "length img \<le> 21474836"
  shows "(\<forall>p \<in> set (progress_of img). 0 \<le> p \<and> p \<le> 100) \<and> sorted (progress_of img)"
proof -
  let ?b = "blocks 4096 img" and ?n = "int (length img)"
  have n: "0 < ?n" "?n * 100 < 2147483648" "sum_len ?b = ?n"
    using assms by (simp_all add: sum_len_def concat_blocks)
  have "0 \<le> percent (sum_len (take k ?b)) ?n \<and> percent (sum_len (take k ?b)) ?n \<le> 100" for k
    using n sum_len_take(1,2) [of k ?b] by (intro percent_bounds) auto
  moreover have "percent (sum_len (take j ?b)) ?n \<le> percent (sum_len (take k ?b)) ?n" if "j \<le> k" for j k
    using n sum_len_take(1,2) [of k ?b] sum_len_take(1) [of j ?b] sum_len_take(3) [OF that, of ?b]
    by (intro percent_mono) auto
  ultimately show ?thesis
    by (auto simp: progress_of_eq sorted_iff_nth_mono simp del: upt_Suc)
qed

theorem progress_sound_witness:
  "list_all (\<lambda>p. 0 \<le> p \<and> p \<le> 100) (progress_of ''image'') \<and> sorted (progress_of ''image'')"
  using progress_sound [of "''image''"] by (simp add: list_all_iff)

text \<open>
  Overflow. For images between 21474837 and 42949672 bytes the product with 100 leaves the range
  of \<open>int\<close>, and the progress at the end of a complete copy is zero or negative instead of 100.
\<close>

theorem progress_overflows:
  assumes "21474837 \<le> length img" "length img \<le> 42949672"
  shows "last (progress_of img) \<le> 0"
proof -
  have "img \<noteq> []" using assms(1) by auto
  with percent_wrapped [of "int (length img)"] assms show ?thesis by (simp add: last_progress)
qed

theorem progress_overflows_witness:
  "last (progress_of (replicate 21474837 nul)) \<le> 0"
  by (rule progress_overflows) simp_all

end
