(* ===== verification/System.thy ===== *)
theory System
  imports Gate Fwmng
begin

text \<open>
  \<open>www/cgi-src/system.c\<close>: the \<open>system\<close> command of \<open>req.cgi\<close>. It shows and changes the profile,
  receives a firmware image and recognises its header, starts the update scripts, shows the progress of
  \<open>fwmng\<close> and reboots. One definition per branch of \<open>FTMC_System\<close>.
\<close>

section \<open>Image headers\<close>

text \<open>
  A 32-bit field as the little-endian processor reads it from four bytes, its bytes, and \<open>htonl\<close>.
\<close>

definition le32 :: "string \<Rightarrow> word32" where
  "le32 bs = word_of_nat (foldr (\<lambda>c v. of_char c + 256 * v) bs 0)"

definition bytes32 :: "word32 \<Rightarrow> string" where
  "bytes32 x = map (\<lambda>k. char_of (unat x div 256 ^ k)) [0, 1, 2, 3]"

definition htonl :: "word32 \<Rightarrow> word32" where
  "htonl x = le32 (rev (bytes32 x))"

definition IMAGE_MAGIC :: word32 where "IMAGE_MAGIC = 0x27051956"

record FTMC_IMAGE_HEADER =
  uiMagic :: word32
  uiHeaderCRC :: word32
  uiTime :: word32
  uiSize :: word32
  uiLoad :: word32
  uiEP :: word32
  uiDataCRC :: word32
  uiOS :: char
  uiArch :: char
  uiType :: char
  uiComp :: char
  uiName :: string

text \<open>The 64 bytes of the file as the struct that \<open>fread\<close> fills.\<close>

definition header_of :: "string \<Rightarrow> FTMC_IMAGE_HEADER" where
  "header_of bs = (let word = \<lambda>k. le32 (take 4 (drop (4 * k) bs)) in
     \<lparr>uiMagic = word 0, uiHeaderCRC = word 1, uiTime = word 2, uiSize = word 3, uiLoad = word 4,
      uiEP = word 5, uiDataCRC = word 6, uiOS = bs ! 28, uiArch = bs ! 29, uiType = bs ! 30,
      uiComp = bs ! 31, uiName = take 32 (drop 32 bs)\<rparr>)"

text \<open>\<open>None\<close> is the return value \<open>-1\<close>.\<close>

definition FTMC_ReadImageHeader :: "string \<Rightarrow> 'a os_scheme \<Rightarrow> FTMC_IMAGE_HEADER option" where
  "FTMC_ReadImageHeader lpszDevice w = (case files w lpszDevice of
      None \<Rightarrow> None
    | Some c \<Rightarrow>
       if length (take 64 c) \<noteq> 64 then None
       else if htonl (uiMagic (header_of (take 64 c))) \<noteq> IMAGE_MAGIC then None
       else Some (header_of (take 64 c)))"

definition image_type :: "string \<Rightarrow> string list" where
  "image_type szName =
     (if szName = ''XLOADER'' then [elem ''TYPE'' ''XLOADER'']
      else if strncmp_eq szName ''U-Boot'' 6 then [elem ''TYPE'' ''UBOOT'']
      else if strncmp_eq szName ''Linux'' 5 then [elem ''TYPE'' ''KERNEL'']
      else if strncmp_eq szName ''Ramdisk'' 5 then [elem ''TYPE'' ''RAMDISK'']
      else [])"

definition FTMC_PrintImageHeader :: "FTMC_IMAGE_HEADER \<Rightarrow> 'a os_scheme \<Rightarrow> 'a os_scheme" where
  "FTMC_PrintImageHeader h w = (let szName = take 32 (cstr (uiName h)) in
     puts (concat (map line ([open_tag ''IMG_INFO''] @ image_type szName @
       [elem ''TIME'' (show_int (sint (htonl (uiTime h)))), elem ''SIZE'' (show_int (sint (htonl (uiSize h)))),
        elem ''DESC'' szName, close_tag ''IMG_INFO'']))) w)"

section \<open>The branches of the command\<close>

text \<open>\<open>strcpy\<close> into an array of the struct.\<close>

definition strcpy_field :: "nat \<Rightarrow> nat \<Rightarrow> string \<Rightarrow> FTMC_PROFILE_CONFIG \<Rightarrow> FTMC_PROFILE_CONFIG res" where
  "strcpy_field off n s p = (if length s < n then Inr (put_chars off (strcpy_bytes s) p) else Inl BufferOverflow)"

definition load_failed :: "cgi \<Rightarrow> cgi" where
  "load_failed w = XML_PutError ''PROFILE'' (Some ''Failed to load profile data.'') w"

definition sys_profile :: handler where
  "sys_profile w = (let w = XML_PutHeader w in
     bindE (FTMC_LoadProfileConfig (files w)) (\<lambda>c. case c of
       None \<Rightarrow> Inr (- 1, load_failed w)
     | Some xProfile \<Rightarrow> Inr (0, put_dev_info xProfile False w)))"

definition save_and_answer :: "shell \<Rightarrow> FTMC_PROFILE_CONFIG \<Rightarrow> handler" where
  "save_and_answer sh xProfile w = bindE (FTMC_SaveProfileConfig sh xProfile w) (\<lambda>(r, w).
     if r < 0 then Inr (- 1, XML_PutError ''SYSTEM'' (Some ''Failed to save profile data.'') w)
     else Inr (0, XML_PutOK ''SYSTEM'' w))"

definition sys_chg_loc :: "shell \<Rightarrow> handler" where
  "sys_chg_loc sh w = (let w = XML_PutHeader w in
     bindE (FTMC_LoadProfileConfig (files w)) (\<lambda>c. case c of
       None \<Rightarrow> Inr (- 1, load_failed w)
     | Some xProfile \<Rightarrow>
        (let refused = Inr (- 1, XML_PutError ''SYSTEM'' (Some ''Invalid location length.'') w) in
         case getstr w ''loc'' of
           None \<Rightarrow> refused
         | Some lpszLoc \<Rightarrow>
            if 64 < length lpszLoc then refused
            else bindE (strcpy_field off_Location 65 lpszLoc xProfile) (\<lambda>p. save_and_answer sh p w))))"

definition sys_chg_passwd :: "shell \<Rightarrow> handler" where
  "sys_chg_passwd sh w = (let w = XML_PutHeader w in
     bindE (FTMC_LoadProfileConfig (files w)) (\<lambda>c. case c of
       None \<Rightarrow> Inr (- 1, load_failed w)
     | Some xProfile \<Rightarrow>
        (let refused = Inr (- 1, XML_PutError ''SYSTEM'' (Some ''Invalid password.'') w) in
         case (getstr w ''passwd'', getstr w ''new_passwd'') of
           (Some lpszPasswd, Some lpszNewPasswd) \<Rightarrow>
            if 32 < length lpszPasswd \<or> szPasswd xProfile \<noteq> lpszPasswd then refused
            else bindE (strcpy_field off_Passwd 33 lpszNewPasswd xProfile) (\<lambda>p. save_and_answer sh p w)
         | _ \<Rightarrow> refused)))"

text \<open>One line of \<open>/proc/mtd\<close>: the device name is its first word without the colon at the end.\<close>

definition mtd_line :: "string \<Rightarrow> cgi \<Rightarrow> cgi res" where
  "mtd_line chunk w = bindE (scanf_s 64 (cstr chunk)) (\<lambda>r. case r of
      None \<Rightarrow> Inr w
    | Some (szDev, _) \<Rightarrow>
       if \<not> strncmp_eq szDev ''mtd'' 3 then Inr w
       else bindE (sprintf 256 (''/dev/'' @ butlast szDev @ ''ro'')) (\<lambda>szDevPath.
         case FTMC_ReadImageHeader szDevPath w of
           None \<Rightarrow> Inr w
         | Some xHeader \<Rightarrow> Inr (FTMC_PrintImageHeader xHeader w)))"

fun mtd_lines :: "string list \<Rightarrow> cgi \<Rightarrow> cgi res" where
  "mtd_lines [] w = Inr w"
| "mtd_lines (c # cs) w = bindE (mtd_line c w) (mtd_lines cs)"

definition sys_fw_info :: "shell \<Rightarrow> handler" where
  "sys_fw_info sh w =
     (case popen sh ''cat /proc/mtd'' (print (open_tag ''SYSTEM'') (XML_PutHeader w)) of
        (None, _) \<Rightarrow> Inl NullPointer
      | (Some ans, w) \<Rightarrow> bindE (mtd_lines (fgets_all 1024 ans) w) (\<lambda>w.
          Inr (0, print (close_tag ''SYSTEM'') w)))"

text \<open>
  \<open>fwrite(lpszData, 1, nLength, fp)\<close>: the value of a request entry is followed by one null byte, and
  anything longer is read from outside of it. \<open>room\<close> is the number of bytes the file system still takes.
\<close>

definition fwrite_bytes :: "nat \<Rightarrow> string \<Rightarrow> int \<Rightarrow> string res" where
  "fwrite_bytes room data n =
     (if n < 0 \<or> int (length data) + 1 < n then Inl OutOfBoundsRead
      else Inr (take (min room (nat n)) (data @ [nul])))"

definition save_failed :: "cgi \<Rightarrow> cgi" where
  "save_failed w = XML_PutError ''SYSTEM'' (Some ''A problem occurred while saving the file.'') w"

definition new_fw :: string where "new_fw = ''/tmp/new_fw''"

definition sys_fw_upload :: "nat \<Rightarrow> handler" where
  "sys_fw_upload room w =
     (let lpszData = qentry_get (req w) ''file''; nLength = getint w ''file.length'';
          lpszFileName = getstr w ''file.filename''; w = XML_PutHeader w in
      case lpszData of
        None \<Rightarrow> Inr (- 1, XML_PutError ''SYSTEM'' (Some ''Select file, please.'') w)
      | Some data \<Rightarrow>
         if lpszFileName = None \<or> nLength = 0 then
           Inr (- 1, XML_PutError ''SYSTEM'' (Some ''Select file, please.'') w)
         else if \<not> wperm w new_fw then Inr (- 1, save_failed w)
         else bindE (fwrite_bytes room data nLength) (\<lambda>written.
           let w = write_file new_fw written w in
           if int (length written) \<noteq> nLength then Inr (- 1, save_failed w)
           else case FTMC_ReadImageHeader new_fw w of
             None \<Rightarrow> Inr (- 1, XML_PutError ''SYSTEM'' (Some ''Invalid firmware.'') w)
           | Some xHeader \<Rightarrow>
              Inr (0, print (close_tag ''SYSTEM'') (print (elem ''RET'' ''OK'')
                (FTMC_PrintImageHeader xHeader (print (open_tag ''SYSTEM'') w))))))"

text \<open>The loop over the output of an update script; every line \<open>done\<close> is answered.\<close>

fun upgrade_lines :: "string list \<Rightarrow> cgi \<Rightarrow> cgi res" where
  "upgrade_lines [] w = Inr w"
| "upgrade_lines (c # cs) w = (let fwBuf = cstr c in
     if fwBuf = [] then Inl BufferOverflow
     else upgrade_lines cs (if butlast fwBuf = ''done''
       then print (close_tag ''SYSTEM'') (print (elem ''RET'' ''OK'') (print (open_tag ''SYSTEM'') (XML_PutHeader w)))
       else w))"

definition run_update :: "shell \<Rightarrow> string \<Rightarrow> handler" where
  "run_update sh script w = (case popen sh script w of
      (None, _) \<Rightarrow> Inl NullPointer
    | (Some ans, w) \<Rightarrow> bindE (upgrade_lines (fgets_all 256 ans) w) (\<lambda>w. Inr (0, w)))"

definition sys_fw_upgrade :: "shell \<Rightarrow> handler" where
  "sys_fw_upgrade sh w = (case getstr w ''fn'' of
      None \<Rightarrow> Inr (0, w)
    | Some lpszFileName \<Rightarrow>
       if strncmp_eq lpszFileName ''UBOOT'' 5 then Inr (0, w)
       else if strncmp_eq lpszFileName ''kernel'' 5 then run_update sh ''./update_kernel.sh'' w
       else if strncmp_eq lpszFileName ''ramdisk'' 7 then run_update sh ''./update_ramdisk.sh'' w
       else Inr (0, w))"

definition sys_fw_progress :: "shell \<Rightarrow> handler" where
  "sys_fw_progress sh w = (case popen sh ''/bin/fwmng -s'' w of
      (None, _) \<Rightarrow> Inl NullPointer
    | (Some ans, w) \<Rightarrow> bindE (fscanf_word 128 ans) (\<lambda>szProgress.
        Inr (0, puts (concat (map line [open_tag ''SYSTEM'', elem ''PROGRESS'' szProgress,
          elem ''RET'' ''OK'', close_tag ''SYSTEM''])) (XML_PutHeader w))))"

definition sys_reboot :: "shell \<Rightarrow> handler" where
  "sys_reboot sh w = (let w = snd (popen sh ''./reboot.sh'' w) in
     bindE (req_free (puts ''Please try again in a few minutes.'' (qcgires_setcontenttype ''text/html'' w)))
       (\<lambda>w. Inr (0, w)))"

definition FTMC_System :: "shell \<Rightarrow> nat \<Rightarrow> handler" where
  "FTMC_System sh room w = bindE (deref (getstr w ''cmd'')) (\<lambda>lpszCmd.
     if lpszCmd = ''profile'' then sys_profile w
     else if lpszCmd = ''chg_loc'' then sys_chg_loc sh w
     else if lpszCmd = ''chg_passwd'' then sys_chg_passwd sh w
     else if lpszCmd = ''fw_info'' then sys_fw_info sh w
     else if lpszCmd = ''fw_upload'' then sys_fw_upload room w
     else if lpszCmd = ''fw_upgrade'' then sys_fw_upgrade sh w
     else if lpszCmd = ''fw_progress'' then sys_fw_progress sh w
     else if lpszCmd = ''reboot'' then sys_reboot sh w
     else Inr (- 1, w))"

text \<open>\<open>FTMC_UpgradeFW\<close>, the copy to the flash device without progress that nothing calls any more.\<close>

fun copy_blocks :: "sink \<Rightarrow> string list \<Rightarrow> string \<times> nat \<Rightarrow> string \<times> nat" where
  "copy_blocks taken [] st = st"
| "copy_blocks taken (b # bs) (d, pos) =
     (let written = take (taken pos (length b)) b in copy_blocks taken bs (write_at pos written d, pos + length written))"

definition FTMC_UpgradeFW :: "sink \<Rightarrow> string \<Rightarrow> string \<Rightarrow> 'a os_scheme \<Rightarrow> int \<times> 'a os_scheme" where
  "FTMC_UpgradeFW taken lpszSrc lpszDest w = (case files w lpszSrc of
      None \<Rightarrow> (- 1, w)
    | Some src \<Rightarrow> (case files w lpszDest of
        None \<Rightarrow> (- 1, w)
      | Some dest \<Rightarrow>
         if \<not> wperm w lpszDest then (- 1, w)
         else (0, write_file lpszDest (fst (copy_blocks taken (blocks 4096 src) (dest, 0))) w)))"

section \<open>Image headers, byte for byte\<close>

lemma base256:
  fixes a b c d :: nat
  assumes "a < 256" "b < 256" "c < 256" "d < 256"
  shows "a + 256 * (b + 256 * (c + 256 * d)) < 4294967296"
    "(a + 256 * (b + 256 * (c + 256 * d))) mod 256 = a"
    "(a + 256 * (b + 256 * (c + 256 * d))) div 256 mod 256 = b"
    "(a + 256 * (b + 256 * (c + 256 * d))) div 65536 mod 256 = c"
    "(a + 256 * (b + 256 * (c + 256 * d))) div 16777216 mod 256 = d"
proof -
  have s: "(x + 256 * y) mod 256 = x" "(x + 256 * y) div 256 = y" if "x < 256" for x y :: nat
    using that by simp_all
  have e: "n div 65536 = n div 256 div 256" "n div 16777216 = n div 256 div 256 div 256" for n :: nat
    by (simp_all add: div_mult2_eq [symmetric])
  show "a + 256 * (b + 256 * (c + 256 * d)) < 4294967296"
  proof -
    have "a \<le> 255" "b \<le> 255" "c \<le> 255" "d \<le> 255" using assms by auto
    then have "a + 256 * b + 65536 * c + 16777216 * d \<le> 4294967295" by linarith
    then show ?thesis by simp
  qed
  show "(a + 256 * (b + 256 * (c + 256 * d))) mod 256 = a"
    "(a + 256 * (b + 256 * (c + 256 * d))) div 256 mod 256 = b"
    "(a + 256 * (b + 256 * (c + 256 * d))) div 65536 mod 256 = c"
    "(a + 256 * (b + 256 * (c + 256 * d))) div 16777216 mod 256 = d"
    unfolding e using assms by (simp_all only: s mod_less)
qed

lemma unat_of_nat_eq_id32: "n < 4294967296 \<Longrightarrow> unat (word_of_nat n :: word32) = n"
  by (simp add: unat_of_nat take_bit_eq_mod)

lemma bytes32_le32:
  assumes "length bs = 4"
  shows "bytes32 (le32 bs) = bs"
proof -
  from assms obtain a b c d where bs: "bs = [a, b, c, d]"
    by (auto simp: numeral_eq_Suc length_Suc_conv)
  have r: "(of_char x :: nat) < 256" for x by simp
  note digits = base256 [OF r [of a] r [of b] r [of c] r [of d]]
  let ?n = "of_char a + 256 * (of_char b + 256 * (of_char c + 256 * of_char d)) :: nat"
  have "le32 bs = word_of_nat ?n" unfolding le32_def bs by simp
  with digits(1) have n: "unat (le32 bs) = ?n" by (simp only: unat_of_nat_eq_id32)
  have "char_of ?n = a" "char_of (?n div 256) = b" "char_of (?n div 65536) = c" "char_of (?n div 16777216) = d"
    by (metis char_of_mod_256 char_of_char digits(2), metis char_of_mod_256 char_of_char digits(3),
      metis char_of_mod_256 char_of_char digits(4), metis char_of_mod_256 char_of_char digits(5))
  then show ?thesis unfolding bytes32_def n unfolding bs by simp
qed

lemma le32_inject: "length as = 4 \<Longrightarrow> length bs = 4 \<Longrightarrow> le32 as = le32 bs \<longleftrightarrow> as = bs"
  by (metis bytes32_le32)

text \<open>The four magic bytes of a U-Boot image, in the order of the file.\<close>

definition magic_bytes :: string where
  "magic_bytes = [CHR 0x27, CHR 0x05, CHR 0x19, CHR 0x56]"

lemma magic_iff:
  assumes "length bs = 4"
  shows "htonl (le32 bs) = IMAGE_MAGIC \<longleftrightarrow> bs = magic_bytes"
proof -
  have "IMAGE_MAGIC = le32 (rev magic_bytes)" by (simp add: IMAGE_MAGIC_def le32_def magic_bytes_def)
  then have "htonl (le32 bs) = IMAGE_MAGIC \<longleftrightarrow> rev bs = rev magic_bytes"
    using assms le32_inject [of "rev bs" "rev magic_bytes"] by (simp add: htonl_def bytes32_le32 magic_bytes_def)
  then show ?thesis by simp
qed

lemma ReadImageHeader_iff:
  "files w dev = Some c \<Longrightarrow>
   FTMC_ReadImageHeader dev w = (if 64 \<le> length c \<and> take 4 c = magic_bytes then Some (header_of (take 64 c)) else None)"
  using magic_iff [of "take 4 c"]
  by (auto simp: FTMC_ReadImageHeader_def header_of_def Let_def min_def split: if_splits)

section \<open>Changing one field of a loaded profile\<close>

text \<open>
  The last bytes of location, user and password are zero in every profile that was loaded, whatever the
  files hold.
\<close>

definition tail_sealed :: "FTMC_PROFILE_CONFIG \<Rightarrow> bool" where
  "tail_sealed p \<longleftrightarrow> profile_wf p \<and> (\<forall>k \<in> {64, 162, 195, 228}. chars p ! k = nul)"

definition load_slots :: "(nat \<times> nat) set" where
  "load_slots = {(off_Model, 64), (off_SerialNumber, 64), (off_Location, 64), (off_UserID, 32), (off_Passwd, 32)}"

lemma tail_sealed_put:
  assumes "tail_sealed p" "(off, n) \<in> load_slots"
  shows "tail_sealed (put_chars off (strncpy_bytes n v) p)"
proof -
  have fit: "off + n \<le> sizeof_chars" using assms(2) by (auto simp: off_defs load_slots_def)
  have "chars (put_chars off (strncpy_bytes n v) p) ! k = nul" if "k \<in> {64, 162, 195, 228}" for k
    using assms that nth_put_chars [of p off "strncpy_bytes n v" k] fit
    by (auto simp: tail_sealed_def off_defs load_slots_def)
  then show ?thesis using assms(1) fit by (simp add: tail_sealed_def)
qed

lemma tail_sealed_line:
  assumes "tail_sealed (fst st)" "load_line c st = Inr st'"
  shows "tail_sealed (fst st')"
proof (cases "take 1 (cstr c) = ''#''")
  case True
  with assms show ?thesis by (auto simp: load_line_def Let_def)
next
  case False
  with assms obtain r where r: "scanf_s 32 (cstr c) = Inr r"
    by (auto simp: load_line_def Let_def bindE_eq_Inr_iff)
  have slots: "tail_sealed (put_chars off_Location (strncpy_bytes 64 v) (fst st))"
    "tail_sealed (put_chars off_UserID (strncpy_bytes 32 v) (fst st))"
    "tail_sealed (put_chars off_Passwd (strncpy_bytes 32 v) (fst st))"
    "tail_sealed ((fst st)\<lparr>nTimeout := t\<rparr>)" for v t
    using assms(1) by (simp_all add: load_slots_def tail_sealed_put) (simp add: tail_sealed_def profile_wf_def)
  show ?thesis
  proof (cases r)
    case None
    with assms r False show ?thesis by (auto simp: load_line_def Let_def)
  next
    case (Some x)
    then obtain tag rest where "x = (tag, rest)" by fastforce
    with Some assms r False slots show ?thesis
      by (cases "tag = ''location:''"; cases "tag = ''userid:''"; cases "tag = ''passwd:''"; cases "tag = ''timeout:''")
        (auto simp: load_line_def Let_def split: option.splits if_splits)
  qed
qed

lemma tail_sealed_lines: "tail_sealed (fst st) \<Longrightarrow> load_lines cs st = Inr st' \<Longrightarrow> tail_sealed (fst st')"
  by (induction cs arbitrary: st) (auto simp: bindE_eq_Inr_iff dest: tail_sealed_line)

lemma tail_sealed_id:
  "tail_sealed (fst st) \<Longrightarrow> load_id c off st = Inr st' \<Longrightarrow> off \<in> {off_Model, off_SerialNumber} \<Longrightarrow> tail_sealed (fst st')"
  by (auto simp: load_id_def bindE_eq_Inr_iff load_slots_def tail_sealed_put [of "fst st"] split: option.splits prod.splits)

lemma tail_sealed_load:
  assumes "FTMC_LoadProfileConfig fs = Inr (Some c)"
  shows "tail_sealed c"
proof -
  have z: "tail_sealed (fst (zero_profile, None))"
    by (simp add: tail_sealed_def zero_profile_def profile_wf_def sizeof_chars_def)
  from assms obtain t a b d where "load_lines (fgets_all 512 t) (zero_profile, None) = Inr a"
    "load_id (fs ''/var/lib/misc/model'') off_Model a = Inr b"
    "load_id (fs ''/var/lib/misc/sn'') off_SerialNumber b = Inr d" "c = fst d"
    by (auto simp: FTMC_LoadProfileConfig_def bindE_eq_Inr_iff split: option.splits)
  with tail_sealed_lines [OF z] tail_sealed_id show ?thesis by blast
qed

lemma strcpy_passwd:
  assumes "tail_sealed c" "value_ok 32 new"
  obtains p where "strcpy_field off_Passwd 33 new c = Inr p" "szPasswd p = new" "szUserID p = szUserID c"
    "szLocation p = szLocation c" "nTimeout p = nTimeout c"
proof -
  have len: "length (chars c) = 229" using assms(1) by (simp add: tail_sealed_def profile_wf_def sizeof_chars_def)
  have new: "nul \<notin> set new" "length new \<le> 32" using assms(2) by (auto simp: value_ok_def)
  let ?p = "put_chars off_Passwd (strcpy_bytes new) c"
  have b: "strcpy_bytes new = new @ [nul]" using new(1) by (simp add: strcpy_bytes_def cstr_id)
  have "drop 196 (poke 196 (new @ [nul]) (chars c)) = new @ nul # drop (197 + length new) (chars c)"
    using len by (simp add: poke_def)
  then have "szPasswd ?p = new"
    using new(1) by (simp add: szPasswd_def put_chars_def off_defs b cstr_append_nul)
  moreover have "szUserID ?p = szUserID c" "szLocation ?p = szLocation c"
    using assms(1) len new(2) unfolding field_defs put_chars_def
    by (simp_all add: off_defs b tail_sealed_def)
      (rule cstr_drop_poke_below, simp_all, intro exI [of _ 195], simp)+
  ultimately show thesis using new(2) by (intro that [of ?p]) (simp_all add: strcpy_field_def put_chars_def)
qed

lemma load_saved_text:
  assumes "profile_ok p" "fs ''/etc/httpd.conf'' = Some (profile_text p)" "model_file_ok fs" "sn_file_ok fs"
  obtains q where "FTMC_LoadProfileConfig fs = Inr (Some q)" "szUserID q = szUserID p" "szPasswd q = szPasswd p"
proof -
  obtain q b where q: "FTMC_LoadProfileConfig fs =
      bindE (load_id (fs ''/var/lib/misc/sn'') off_SerialNumber (q, Some b)) (\<lambda>st. Inr (Some (fst st)))"
    "sealed q" "szUserID q = szUserID p" "szPasswd q = szPasswd p"
    by (rule LoadProfile_text [OF assms(1,2,3)])
  show thesis
  proof (cases "fs ''/var/lib/misc/sn''")
    case None
    with q show ?thesis by (intro that [of q]) (simp_all add: load_id_def)
  next
    case (Some c)
    with assms(4) obtain v where v: "id_word 32 v" "c = v @ [nl]" by (auto simp: sn_file_ok_def)
    with q Some sn_overruns [OF q(2) v(1)] load_id_word [OF id_word_mono [OF v(1), of 64]] show ?thesis
      by (intro that [of "put_chars off_SerialNumber (strncpy_bytes 64 v) q"]) simp_all
  qed
qed

lemma SaveProfile_frame:
  assumes "cp_law sh" "wperm w ''/tmp/httpd.conf''"
  obtains w' where "FTMC_SaveProfileConfig sh p w = Inr (0, w')" "os.more w' = os.more w"
    "files w' = (files w)(''/tmp/httpd.conf'' \<mapsto> profile_text p, ''/etc/httpd.conf'' \<mapsto> profile_text p)"
  using assms popen_SomeI [of sh cp_command "write_file ''/tmp/httpd.conf'' (profile_text p) w"]
  by (simp add: FTMC_SaveProfileConfig_def system_wait_def cp_law_def)

section \<open>Properties of the system command\<close>

text \<open>
  Changing the password works. With the current password and a new one of up to 32 characters that
  does not start or end in white space, \<open>chg_passwd\<close> answers OK, and the profile that is loaded from
  then on, by the login among others, has the new password and the same user.
\<close>

theorem chg_passwd_effective:
  assumes "cp_law sh" "wperm w ''/tmp/httpd.conf''" "getstr w ''cmd'' = Some ''chg_passwd''"
    and "FTMC_LoadProfileConfig (files w) = Inr (Some c)" "profile_ok c"
    and "model_file_ok (files w)" "sn_file_ok (files w)"
    and "getstr w ''passwd'' = Some (szPasswd c)" "getstr w ''new_passwd'' = Some new" "value_ok 32 new"
  shows "\<exists>w' q. FTMC_System sh room w = Inr (0, w') \<and> pool w' = pool w \<and>
    FTMC_LoadProfileConfig (files w') = Inr (Some q) \<and> szUserID q = szUserID c \<and> szPasswd q = new"
proof -
  obtain p where p: "strcpy_field off_Passwd 33 new c = Inr p" "szPasswd p = new" "szUserID p = szUserID c"
    "szLocation p = szLocation c" "nTimeout p = nTimeout c"
    by (rule strcpy_passwd [OF tail_sealed_load [OF assms(4)] assms(10)])
  then have ok: "profile_ok p" using assms(5,10) by (simp add: profile_ok_def)
  obtain w1 where w1: "FTMC_SaveProfileConfig sh p (XML_PutHeader w) = Inr (0, w1)"
    "os.more w1 = os.more (XML_PutHeader w)"
    "files w1 = (files w)(''/tmp/httpd.conf'' \<mapsto> profile_text p, ''/etc/httpd.conf'' \<mapsto> profile_text p)"
    using SaveProfile_frame [of sh "XML_PutHeader w" p] assms(1,2) by auto
  obtain q where q: "FTMC_LoadProfileConfig (files w1) = Inr (Some q)" "szUserID q = szUserID p" "szPasswd q = szPasswd p"
    by (rule load_saved_text [OF ok, of "files w1"]) (use assms(6,7) w1(3) in \<open>simp_all add: model_file_ok_def sn_file_ok_def\<close>)
  have "length (szPasswd c) \<le> 32" using assms(5) by (simp add: profile_ok_def value_ok_def)
  with assms w1(1) p(1) have "FTMC_System sh room w = Inr (0, XML_PutOK ''SYSTEM'' w1)"
    by (simp add: FTMC_System_def sys_chg_passwd_def Let_def save_and_answer_def)
  with q p os_more_cgi [OF w1(2)] show ?thesis by simp
qed

lemma length_cstr_nul:
  assumes "i \<le> k" "k < length s" "s ! k = nul"
  shows "length (cstr (drop i s)) \<le> k - i"
proof (rule ccontr)
  assume "\<not> length (cstr (drop i s)) \<le> k - i"
  then have "k - i < length (cstr (drop i s))" by simp
  then have "cstr (drop i s) ! (k - i) \<noteq> nul" using nth_mem cstr_no_nul by metis
  moreover have "cstr (drop i s) ! (k - i) = s ! k"
    using \<open>k - i < length (cstr (drop i s))\<close> assms(1,2) by (simp add: cstr_def takeWhile_nth)
  ultimately show False using assms(3) by simp
qed

text \<open>
  C18. The profile in memory. Whatever the three files contain, a profile that is loaded takes up exactly the 229
  bytes of its arrays, and the strings read from it end inside them, each within its own array but for the serial number,
  which may run on to the end of the location.
\<close>

theorem loaded_profile_wf:
  assumes "FTMC_LoadProfileConfig fs = Inr (Some c)"
  shows "length (chars c) = 229 \<and> length (szModel c) \<le> 64 \<and> length (szSerialNumber c) \<le> 97 \<and>
    length (szLocation c) \<le> 64 \<and> length (szUserID c) \<le> 32 \<and> length (szPasswd c) \<le> 32"
proof -
  have t: "length (chars c) = 229" "chars c ! 64 = nul" "chars c ! 162 = nul" "chars c ! 195 = nul" "chars c ! 228 = nul"
    using tail_sealed_load [OF assms] by (simp_all add: tail_sealed_def profile_wf_def sizeof_chars_def)
  show ?thesis
    using t length_cstr_nul [of 0 64 "chars c"] length_cstr_nul [of 65 162 "chars c"] length_cstr_nul [of 98 162 "chars c"]
      length_cstr_nul [of 163 195 "chars c"] length_cstr_nul [of 196 228 "chars c"]
    by (simp add: field_defs off_defs)
qed

theorem loaded_profile_wf_witness:
  "\<exists>c. FTMC_LoadProfileConfig demo_files = Inr (Some c) \<and> length (chars c) = 229"
proof -
  obtain c where c: "FTMC_LoadProfileConfig demo_files = Inr (Some c)" by (rule demo_files_load)
  with loaded_profile_wf [OF c] show ?thesis by blast
qed

lemma demo_files_profile:
  obtains q where "FTMC_LoadProfileConfig demo_files = Inr (Some q)" "profile_ok q"
    "szUserID q = ''admin''" "szPasswd q = ''pw''"
proof -
  obtain q b where "FTMC_LoadProfileConfig demo_files =
      bindE (load_id (demo_files ''/var/lib/misc/sn'') off_SerialNumber (q, Some b)) (\<lambda>st. Inr (Some (fst st)))"
    "szLocation q = szLocation demo_profile" "szUserID q = szUserID demo_profile"
    "szPasswd q = szPasswd demo_profile" "nTimeout q = min (nTimeout demo_profile) 0"
    by (rule LoadProfile_text [OF demo_profile_fields(5), of demo_files])
      (simp_all add: demo_files_def model_file_ok_def)
  then show thesis
    by (intro that) (simp_all add: demo_files_def load_id_def demo_profile_fields profile_ok_def value_ok_def isspace_def)
qed

theorem chg_passwd_effective_witness:
  "\<exists>w' q. FTMC_System web_shell 0 (web_world demo_files
      [(''cmd'', ''chg_passwd''), (''passwd'', ''pw''), (''new_passwd'', ''secret'')]) = Inr (0, w') \<and>
    FTMC_LoadProfileConfig (files w') = Inr (Some q) \<and> szUserID q = ''admin'' \<and> szPasswd q = ''secret''"
proof -
  obtain c where "FTMC_LoadProfileConfig demo_files = Inr (Some c)" "profile_ok c" "szUserID c = ''admin''" "szPasswd c = ''pw''"
    by (rule demo_files_profile)
  then show ?thesis
    using chg_passwd_effective [OF web_shell_cp, of "web_world demo_files
      [(''cmd'', ''chg_passwd''), (''passwd'', ''pw''), (''new_passwd'', ''secret'')]" c "''secret''" 0]
    by (auto simp: demo_files_def model_file_ok_def sn_file_ok_def value_ok_def isspace_def cstr_def)
qed

text \<open>
  C23. Refusal. Without the current password \<open>chg_passwd\<close> changes nothing: no file is written, no
  command started, and the answer is an error.
\<close>

theorem chg_passwd_refused:
  assumes "getstr w ''cmd'' = Some ''chg_passwd''" "FTMC_LoadProfileConfig (files w) = Inr (Some c)"
    and "getstr w ''passwd'' \<noteq> Some (szPasswd c)"
  shows "\<exists>w'. FTMC_System sh room w = Inr (- 1, w') \<and> files w' = files w \<and> cmds w' = cmds w \<and> pool w' = pool w \<and>
    w' = XML_PutError ''SYSTEM'' (Some ''Invalid password.'') (XML_PutHeader w)"
  using assms by (auto simp: FTMC_System_def sys_chg_passwd_def Let_def split: option.splits)

theorem chg_passwd_refused_witness:
  "\<exists>w'. FTMC_System web_shell 0 (web_world demo_files
      [(''cmd'', ''chg_passwd''), (''passwd'', ''guess''), (''new_passwd'', ''secret'')]) = Inr (- 1, w') \<and>
    files w' = demo_files"
proof -
  obtain c where "FTMC_LoadProfileConfig demo_files = Inr (Some c)" "szPasswd c = ''pw''"
    by (rule demo_files_profile)
  then show ?thesis
    using chg_passwd_refused [of "web_world demo_files
      [(''cmd'', ''chg_passwd''), (''passwd'', ''guess''), (''new_passwd'', ''secret'')]" c web_shell 0]
    by (auto simp: cstr_def)
qed

text \<open>
  A new password is not checked for its length: the right old password and a new one of 33 or more
  characters make \<open>strcpy\<close> write behind the profile.
\<close>

theorem chg_passwd_overflows:
  assumes "getstr w ''cmd'' = Some ''chg_passwd''" "FTMC_LoadProfileConfig (files w) = Inr (Some c)"
    and "getstr w ''passwd'' = Some (szPasswd c)" "length (szPasswd c) \<le> 32"
    and "getstr w ''new_passwd'' = Some new" "33 \<le> length new"
  shows "FTMC_System sh room w = Inl BufferOverflow"
  using assms by (simp add: FTMC_System_def sys_chg_passwd_def Let_def strcpy_field_def)

theorem chg_passwd_overflows_witness:
  "FTMC_System web_shell 0 (web_world demo_files
      [(''cmd'', ''chg_passwd''), (''passwd'', ''pw''), (''new_passwd'', replicate 40 (CHR ''x''))]) = Inl BufferOverflow"
proof -
  obtain c where "FTMC_LoadProfileConfig demo_files = Inr (Some c)" "szPasswd c = ''pw''"
    by (rule demo_files_profile)
  then show ?thesis
    using chg_passwd_overflows [of "web_world demo_files [(''cmd'', ''chg_passwd''), (''passwd'', ''pw''),
        (''new_passwd'', replicate 40 (CHR ''x''))]" c "replicate 40 (CHR ''x'')" web_shell 0]
    by (simp add: cstr_def takeWhile_replicate)
qed

lemma upload_core:
  assumes "getstr w ''cmd'' = Some ''fw_upload''" "qentry_get (req w) ''file'' = Some data" "data \<noteq> []"
    and "getint w ''file.length'' = int (length data)" "getstr w ''file.filename'' = Some name"
    and "wperm w ''/tmp/new_fw''" "length data \<le> room"
  shows "\<exists>r w'. FTMC_System sh room w = Inr (r, w') \<and> files w' = (files w)(''/tmp/new_fw'' \<mapsto> data) \<and>
    cmds w' = cmds w \<and> wperm w' = wperm w \<and> pool w' = pool w \<and> req_live w' = req_live w \<and> exited w' = exited w \<and> (r = 0 \<longleftrightarrow> 64 \<le> length data \<and> take 4 data = magic_bytes)"
proof -
  have "FTMC_ReadImageHeader new_fw (write_file new_fw data (XML_PutHeader w)) =
      (if 64 \<le> length data \<and> take 4 data = magic_bytes then Some (header_of (take 64 data)) else None)"
    by (rule ReadImageHeader_iff) simp
  with assms show ?thesis
    by (auto simp: FTMC_System_def sys_fw_upload_def Let_def fwrite_bytes_def new_fw_def FTMC_PrintImageHeader_def save_failed_def)
qed

text \<open>
  Upload. A complete upload always ends up in \<open>/tmp/new_fw\<close>, whatever it is; the answer is OK
  exactly if it has at least 64 bytes and starts with the magic number of an image. A refused image is
  not removed, so that the update scripts find it there all the same.
\<close>

theorem fw_upload_stored:
  assumes "getstr w ''cmd'' = Some ''fw_upload''" "qentry_get (req w) ''file'' = Some data" "data \<noteq> []"
    and "getint w ''file.length'' = int (length data)" "getstr w ''file.filename'' = Some name"
    and "wperm w ''/tmp/new_fw''" "length data \<le> room"
  shows "\<exists>r w'. FTMC_System sh room w = Inr (r, w') \<and> files w' = (files w)(''/tmp/new_fw'' \<mapsto> data) \<and>
    cmds w' = cmds w \<and> (r = 0 \<longleftrightarrow> 64 \<le> length data \<and> take 4 data = magic_bytes)"
  using upload_core [OF assms, of sh] by blast

theorem fw_upload_stored_witness:
  "\<exists>r w'. FTMC_System web_shell 100 (web_world Map.empty [(''cmd'', ''fw_upload''), (''file'', ''not an image''),
      (''file.length'', ''12''), (''file.filename'', ''fw'')]) = Inr (r, w') \<and> r \<noteq> 0 \<and>
    files w' ''/tmp/new_fw'' = Some ''not an image''"
proof -
  let ?w = "web_world Map.empty [(''cmd'', ''fw_upload''), (''file'', ''not an image''),
      (''file.length'', ''12''), (''file.filename'', ''fw'')]"
  have "getint ?w ''file.length'' = int (length ''not an image'')"
    by (simp add: getint_def cstr_def atoi_def isspace_def isdigit_def digits_val_def digit_val_def clamp32_def)
  from fw_upload_stored [OF _ _ _ this, of "''fw''" 100 web_shell] show ?thesis
    by (auto simp: cstr_def qentry_get_def)
qed

text \<open>
  C39. Reboot. The branch \<open>reboot\<close> releases the request, and \<open>main\<close> releases it again: with a live
  session every reboot request ends in a use of freed memory, after the script was started.
\<close>

theorem reboot_frees_twice:
  assumes "shm_wf (pool w)" "map_of table ''system'' = Some (returning (FTMC_System sh room))"
    and "getstr w ''ssid'' = Some tag" "live_session (pool w) tag (now w)" "getstr w ''cmd'' = Some ''reboot''"
    and "\<not> exited w"
  shows "req_main table ''system'' w = Some (Inl UseAfterFree)"
proof -
  obtain s where s: "session_gate (can_create w) (Some tag) (now w) (pool w) = (True, s)"
    using gate_accept [OF assms(1,4)] by metis
  let ?w = "w\<lparr>pool := s\<rparr>"
  obtain r w1 where p: "popen sh ''./reboot.sh'' ?w = (r, w1)" by fastforce
  from popen_more [OF p] have "exited w1 = exited w" by (cases w; cases w1) simp
  moreover have "getstr ?w ''cmd'' = Some ''reboot''" using assms(5) by (simp add: getstr_def)
  ultimately show ?thesis using assms(2,3,6) s p
    by (simp add: req_main_def req_serve_def FTMC_System_def sys_reboot_def req_free_def puts_def
        returning_def req_end_def)
qed

theorem reboot_frees_twice_witness:
  "req_main [(''system'', returning (FTMC_System web_shell 0))] ''system''
     ((web_world Map.empty [(''ssid'', tag_a), (''cmd'', ''reboot'')])\<lparr>pool := one_session\<rparr>) = Some (Inl UseAfterFree)"
  using reboot_frees_twice [of "(web_world Map.empty [(''ssid'', tag_a), (''cmd'', ''reboot'')])\<lparr>pool := one_session\<rparr>"
      "[(''system'', returning (FTMC_System web_shell 0))]" web_shell 0 tag_a]
  by (simp add: one_session_facts live_session_def VALID_TIME_def getstr_def qentry_get_def cstr_def tag_a_def
      web_world_def)

end
