(* ===== verification/Forms.thy ===== *)
theory Forms
  imports Gate
begin

text \<open>
  What the configuration pages of \<open>req.cgi\<close> share: numbered request fields (\<open>getstrf\<close> with \<open>%d\<close>),
  lines of words as \<open>sscanf\<close> splits them, loops that print something for every line of a script's
  output, and the answer that the pages write by hand.
\<close>

section \<open>Numbered fields\<close>

text \<open>\<open>pReq->getstrf(pReq, false, "name%d", i)\<close>.\<close>

definition numbered :: "qentry \<Rightarrow> string \<Rightarrow> nat \<Rightarrow> string option" where
  "numbered q name i = map_option cstr (qentry_get q (name @ show_nat i))"

lemma show_nat_inject [simp]: "show_nat m = show_nat n \<longleftrightarrow> m = n"
  by (metis digits_val_show_nat)

text \<open>
  A request has finitely many fields, so a loop that counts up while a numbered field is there comes to
  an end.
\<close>

lemma finite_numbered: "finite {i. numbered q name i \<noteq> None}"
proof (rule finite_imageD)
  have "(\<lambda>i. name @ show_nat i) ` {i. numbered q name i \<noteq> None} \<subseteq> fst ` set q"
    by (auto simp: numbered_def qentry_get_def dest: map_of_SomeD intro: rev_image_eqI)
  then show "finite ((\<lambda>i. name @ show_nat i) ` {i. numbered q name i \<noteq> None})"
    by (rule finite_subset) simp
qed (auto simp: inj_on_def)

lemma finite_decrease:
  assumes "finite {i. P i}" "P n"
  shows "card {i. Suc n \<le> i \<and> P i} < card {i. n \<le> i \<and> P i}"
proof (rule psubset_card_mono)
  show "finite {i. n \<le> i \<and> P i}" using assms(1) by (rule rev_finite_subset) auto
  have "n \<in> {i. n \<le> i \<and> P i} - {i. Suc n \<le> i \<and> P i}" using assms(2) by auto
  moreover have "{i. Suc n \<le> i \<and> P i} \<subseteq> {i. n \<le> i \<and> P i}" by auto
  ultimately show "{i. Suc n \<le> i \<and> P i} \<subset> {i. n \<le> i \<and> P i}" by blast
qed

lemma numbered_header [simp]:
  assumes "name \<noteq> []" "hd name \<noteq> CHR ''_''"
  shows "numbered (req (XML_PutHeader w)) name i = numbered (req w) name i"
proof -
  have "name @ show_nat i \<noteq> ''_Q_CONTENTTYPE''" using assms by (cases name) auto
  from getstr_header [OF this, of w] show ?thesis by (simp add: numbered_def getstr_def)
qed

lemma show_nat_small: "show_nat 0 = ''0''" "show_nat 1 = ''1''" "show_nat 2 = ''2''"
  by code_simp+

section \<open>Words of a line\<close>

text \<open>
  A row of \<open>%s\<close> conversions into arrays of the given sizes: the words that were converted. Their number
  is the value of \<open>sscanf\<close>; an array that got no word is read uninitialised.
\<close>

fun sscanf_words :: "nat list \<Rightarrow> string \<Rightarrow> string list res" where
  "sscanf_words [] s = Inr []"
| "sscanf_words (n # ns) s = bindE (scanf_s n s) (\<lambda>r. case r of
      None \<Rightarrow> Inr []
    | Some (t, rest) \<Rightarrow> bindE (sscanf_words ns rest) (\<lambda>ts. Inr (t # ts)))"

definition word_at :: "string list \<Rightarrow> nat \<Rightarrow> string res" where
  "word_at ws i = (if i < length ws then Inr (ws ! i) else Inl UninitRead)"

lemma sscanf_words_length: "sscanf_words ns s = Inr ws \<Longrightarrow> length ws \<le> length ns"
  by (induction ns s arbitrary: ws rule: sscanf_words.induct)
    (auto simp: bindE_eq_Inr_iff split: option.splits prod.splits)

text \<open>A line that is made of words and single blanks is split into these words.\<close>

definition plain_word :: "nat \<Rightarrow> string \<Rightarrow> bool" where
  "plain_word n v \<longleftrightarrow> v \<noteq> [] \<and> (\<forall>c \<in> set v. \<not> isspace c) \<and> length v < n"

lemma scanf_s_word_sp: "plain_word n v \<Longrightarrow> isspace d \<Longrightarrow> scanf_s n (v @ d # r) = Inr (Some (v, d # r))"
  using scan_tok_word_sp [of v d r] by (simp add: scanf_s_def plain_word_def)

lemma scanf_s_skip: "isspace d \<Longrightarrow> scanf_s n (d # s) = scanf_s n s"
  by (simp add: scanf_s_def scan_tok_skip)

lemma sscanf_words_skip: "isspace d \<Longrightarrow> sscanf_words ns (d # s) = sscanf_words ns s"
  by (cases ns) (simp_all add: scanf_s_skip)

lemma sscanf_words_sp:
  "plain_word n v \<Longrightarrow> isspace d \<Longrightarrow>
   sscanf_words (n # ns) (v @ d # r) = bindE (sscanf_words ns r) (\<lambda>ts. Inr (v # ts))"
  by (simp add: scanf_s_word_sp sscanf_words_skip)

section \<open>A reply for every line\<close>

fun each_line :: "(string \<Rightarrow> 'w \<Rightarrow> 'w res) \<Rightarrow> string list \<Rightarrow> 'w \<Rightarrow> 'w res" where
  "each_line f [] w = Inr w"
| "each_line f (c # cs) w = bindE (f (cstr c) w) (each_line f cs)"

text \<open>\<open>while (fgets(szBuf, sizeof(szBuf), fp)) ...\<close> with an array of 1024 bytes.\<close>

definition each_output_line :: "(string \<Rightarrow> cgi \<Rightarrow> cgi res) \<Rightarrow> string \<Rightarrow> cgi \<Rightarrow> cgi res" where
  "each_output_line f ans w = each_line f (fgets_all 1024 ans) w"

definition say :: "string list \<Rightarrow> cgi \<Rightarrow> cgi" where
  "say ls w = puts (concat (map line ls)) w"

text \<open>The interface of a function that only prints: the loop over all lines only prints, too.\<close>

locale line_printer =
  fixes f :: "string \<Rightarrow> cgi \<Rightarrow> cgi res"
  assumes prints: "f l w = Inr w' \<Longrightarrow> same_system w w'"
begin

lemma each_line_prints: "each_line f cs w = Inr w' \<Longrightarrow> same_system w w'"
proof (induction cs arbitrary: w)
  case (Cons c cs)
  then obtain v where "f (cstr c) w = Inr v" "each_line f cs v = Inr w'" by (auto simp: bindE_eq_Inr_iff)
  with prints Cons.IH show ?case by (blast intro: same_system_trans)
qed simp

lemma each_output_line_prints: "each_output_line f ans w = Inr w' \<Longrightarrow> same_system w w'"
  by (simp add: each_output_line_def each_line_prints)

end

lemma say_frame [simp]:
  "files (say ls w) = files w" "wperm (say ls w) = wperm w" "cmds (say ls w) = cmds w" "clock (say ls w) = clock w"
  "out (say ls w) = out w @ concat (map line ls)" "req (say ls w) = req w" "req_live (say ls w) = req_live w"
  "pool (say ls w) = pool w" "can_create (say ls w) = can_create w" "now (say ls w) = now w"
  "remote (say ls w) = remote w" "exited (say ls w) = exited w" "same_system w (say ls w)"
  by (simp_all add: say_def) (simp_all add: puts_def)

lemma getstr_say [simp]: "getstr (say ls w) n = getstr w n"
  by (simp add: getstr_def)

lemma same_system_header [simp]: "same_system w (XML_PutHeader w)"
  by (simp add: same_system_def)

text \<open>
  A shell whose commands leave the files alone: what a script that only reports something is documented
  to do.
\<close>

definition reporting :: "shell \<Rightarrow> string \<Rightarrow> bool" where
  "reporting sh cmd \<longleftrightarrow> (\<forall>t fs ans fs'. sh cmd t fs = Some (ans, fs') \<longrightarrow> fs' = fs)"

text \<open>Two worlds in which at most more commands have been started.\<close>

definition same_state :: "cgi \<Rightarrow> cgi \<Rightarrow> bool" where
  "same_state w w' \<longleftrightarrow> files w' = files w \<and> pool w' = pool w"

lemma same_state_refl [simp]: "same_state w w"
  by (simp add: same_state_def)

lemma same_state_trans [trans]: "same_state u v \<Longrightarrow> same_state v w \<Longrightarrow> same_state u w"
  by (simp add: same_state_def)

lemma same_system_state: "same_system w w' \<Longrightarrow> same_state w w'"
  by (simp add: same_system_def same_state_def)

lemma popen_reporting:
  assumes "reporting sh cmd" "popen sh cmd w = (r, w')"
  shows "same_state w w'"
proof -
  from assms have "files w' = files w"
    by (auto simp: popen_def Let_def reporting_def split: option.splits)
  with os_more_cgi [OF popen_more [OF assms(2)]] show ?thesis by (simp add: same_state_def)
qed

text \<open>A command that may change other files, but not this one.\<close>

definition leaves :: "shell \<Rightarrow> string \<Rightarrow> string \<Rightarrow> bool" where
  "leaves sh cmd path \<longleftrightarrow> (\<forall>t fs ans fs'. sh cmd t fs = Some (ans, fs') \<longrightarrow> fs' path = fs path)"

lemma popen_leaves: "leaves sh cmd path \<Longrightarrow> popen sh cmd w = (r, w') \<Longrightarrow> files w' path = files w path"
  by (auto simp: popen_def Let_def leaves_def split: option.splits)

lemma leaves_wait:
  assumes "shell_up sh" "leaves sh cmd path"
  obtains w' where "system_wait sh cmd w = Inr w'" "files w' path = files w path" "cmds w' = cmds w @ [cmd]"
proof -
  obtain ans w' where p: "popen sh cmd w = (Some ans, w')" by (rule shell_up_popen [OF assms(1)])
  with popen_leaves [OF assms(2) p] popen_cmds [OF p] show thesis by (intro that [of w']) (simp_all add: system_wait_def)
qed

section \<open>Writing a configuration file\<close>

text \<open>A command that copies one file to another place, \<open>cp -f from to\<close>, and prints nothing.\<close>

definition copies :: "shell \<Rightarrow> string \<Rightarrow> string \<Rightarrow> string \<Rightarrow> bool" where
  "copies sh cmd from to \<longleftrightarrow> (\<forall>t fs. sh cmd t fs = Some ([], fs(to := fs from)))"

lemma system_wait_copies:
  "copies sh cmd from to \<Longrightarrow>
   system_wait sh cmd w = Inr (w\<lparr>cmds := cmds w @ [cmd], files := (files w)(to := files w from)\<rparr>)"
  by (simp add: system_wait_def copies_def popen_def Let_def)

section \<open>Reading a line back as words\<close>

text \<open>The words of a line, as a program that splits its input at white space sees them.\<close>

function split_words :: "string \<Rightarrow> string list" where
  "split_words s = (case scan_tok s of None \<Rightarrow> [] | Some (t, r) \<Rightarrow> t # split_words r)"
  by pat_completeness auto
termination
proof (relation "measure length")
  fix s x t r
  assume "scan_tok s = Some x" "(t, r) = x"
  then have "t \<noteq> []" "length t + length r \<le> length s" using scan_tok_SomeD [of s t r] by auto
  then show "(r, s) \<in> measure length" by (cases t) auto
qed simp

declare split_words.simps [simp del]

lemma split_words_Nil [simp]: "split_words [] = []"
  by (simp add: split_words.simps scan_tok_def)

lemma split_words_skip: "(\<forall>c \<in> set sp. isspace c) \<Longrightarrow> split_words (sp @ s) = split_words s"
proof (induction sp)
  case (Cons c sp)
  then show ?case using split_words.simps [of "c # sp @ s"] split_words.simps [of "sp @ s"]
    by (simp add: scan_tok_skip)
qed simp

definition word_sep :: "string \<times> string \<Rightarrow> bool" where
  "word_sep = (\<lambda>(v, sp). v \<noteq> [] \<and> list_all (\<lambda>c. \<not> isspace c) v \<and> sp \<noteq> [] \<and> list_all isspace sp)"

lemma split_words_append:
  "list_all word_sep ps \<Longrightarrow> split_words (concat (map (\<lambda>(v, sp). v @ sp) ps) @ s) = map fst ps @ split_words s"
proof (induction ps)
  case (Cons p ps)
  obtain v sp where p: "p = (v, sp)" by fastforce
  then have v: "v \<noteq> []" "\<forall>c \<in> set v. \<not> isspace c" "sp \<noteq> []" "\<forall>c \<in> set sp. isspace c"
    using Cons.prems by (auto simp: word_sep_def list_all_iff)
  then obtain d sp' where sp: "sp = d # sp'" "isspace d" by (cases sp) auto
  let ?r = "concat (map (\<lambda>(v, sp). v @ sp) ps) @ s"
  have "split_words (v @ sp @ ?r) = v # split_words (sp @ ?r)"
    using scan_tok_word_sp [OF v(1,2) sp(2), of "sp' @ ?r"] split_words.simps [of "v @ sp @ ?r"] by (simp add: sp(1))
  also have "\<dots> = v # map fst ps @ split_words s"
    using split_words_skip [OF v(4), of ?r] Cons.IH Cons.prems by simp
  finally show ?case by (simp add: p)
qed simp

lemma split_words_join_end:
  assumes "list_all word_sep ps" "v \<noteq> []" "\<forall>c \<in> set v. \<not> isspace c"
  shows "split_words (concat (map (\<lambda>(v, sp). v @ sp) ps) @ v) = map fst ps @ [v]"
  using split_words_append [OF assms(1), of v] scan_tok_exact [OF assms(2,3)] split_words.simps [of v] by simp

lemma word_sep_plain: "plain_word n v \<Longrightarrow> isspace d \<Longrightarrow> word_sep (v, [d])"
  by (simp add: word_sep_def plain_word_def list_all_iff)

end
