(* ===== verification/Netfilter.thy ===== *)
theory Netfilter
  imports Forms
begin

text \<open>
  \<open>www/cgi-src/netfilter.c\<close>: the firewall page. \<open>status\<close> shows the rules that an awk script extracts
  from \<open>/etc/iptables\<close>; \<open>set\<close> writes a new rule file from the numbered fields of the request and
  restarts the service.
\<close>

abbreviation tab :: char where "tab \<equiv> CHR 0x09"

section \<open>Showing the rules\<close>

definition iptables_state :: "'a os_scheme \<Rightarrow> string res" where
  "iptables_state w = (case files w ''/etc/service/iptables'' of
      None \<Rightarrow> Inr ''disabled''
    | Some c \<Rightarrow> bindE (scanf_s 1024 c) (\<lambda>r. Inr (case r of
        None \<Rightarrow> ''disabled''
      | Some (t, _) \<Rightarrow> if t = ''enabled'' then ''enabled'' else ''disabled'')))"

definition rule_tags :: "string list" where
  "rule_tags = [''PIPE'', ''DIR'', ''IF'', ''SIP'', ''DIP'', ''PROTO'', ''SPORT'', ''DPORT'', ''POLICY'']"

text \<open>One line of the script's output: a table, the policy of a chain or a rule.\<close>

definition status_line :: "string \<Rightarrow> cgi \<Rightarrow> cgi res" where
  "status_line szBuf w =
     bindE (sscanf_words [64] szBuf) (\<lambda>ws. bindE (word_at ws 0) (\<lambda>szType.
     if szType = ''TABLE'' then
       bindE (sscanf_words [64, 64] szBuf) (\<lambda>ws. bindE (word_at ws 1) (\<lambda>szName.
         Inr (print (elem ''TABLE'' szName) w)))
     else if szType = ''CHAIN'' then
       bindE (sscanf_words [64, 64, 64] szBuf) (\<lambda>ws. bindE (word_at ws 1) (\<lambda>szName.
         bindE (word_at ws 2) (\<lambda>szPolicy. Inr (print (elem szType (elem szName szPolicy)) w))))
     else if szType = ''RULE'' then
       bindE (sscanf_words (replicate 10 64) szBuf) (\<lambda>ws. bindE (word_at ws 1) (\<lambda>szPipe.
         if szPipe \<noteq> ''INPUT'' then Inr w
         else bindE (word_at ws 9) (\<lambda>_.
           Inr (say ([open_tag szType] @ map (\<lambda>(t, v). elem t v) (zip rule_tags (tl ws)) @ [close_tag szType]) w))))
     else Inr w))"

definition nf_status_script :: string where
  "nf_status_script = ''cat /etc/iptables | awk -f /www/cgi-bin/status_iptables.awk''"

definition nf_status :: "shell \<Rightarrow> handler" where
  "nf_status sh w = (let w = print (open_tag ''STATUS_NETWORK'') (XML_PutHeader w) in
     bindE (iptables_state w) (\<lambda>state.
     let w = print (elem ''STATE'' state) w in
     case popen sh nf_status_script w of
       (None, w) \<Rightarrow> Inr (0, w)
     | (Some ans, w) \<Rightarrow> bindE (each_output_line status_line ans w) (\<lambda>w.
         Inr (0, print (close_tag ''STATUS_NETWORK'') w))))"

section \<open>Writing the rules\<close>

definition nf_head :: string where
  "nf_head = concat (map line
     [''*raw'', '':PREROUTING ACCEPT'', '':OUTPUT ACCEPT'', ''COMMIT'', [],
      ''*nat'', '':PREROUTING ACCEPT'', '':INPUT ACCEPT'', '':OUTPUT ACCEPT'', '':POSTROUTING ACCEPT'',
      ''-A POSTROUTING -o ppp0 -j MASQUERADE'', ''COMMIT'', [],
      ''*mangle'', '':PREROUTING ACCEPT'', '':INPUT ACCEPT'', '':FORWARD ACCEPT'', '':OUTPUT ACCEPT'',
      '':POSTROUTING ACCEPT'', ''COMMIT'', [],
      ''*filter'', '':INPUT ACCEPT'', '':FORWARD ACCEPT'', '':OUTPUT ACCEPT''])"

definition nf_tail :: "string \<Rightarrow> string" where
  "nf_tail szIF = concat (map line
     [''-A OUTPUT  -o '' @ szIF @ '' -p icmp --icmp-type echo-reply -j ACCEPT'',
      ''-A FORWARD -i eth0 -j ACCEPT'', ''-A FORWARD -o eth0 -j ACCEPT'',
      ''-A FORWARD -i eth1 -j ACCEPT'', ''-A FORWARD -o eth1 -j ACCEPT'', ''COMMIT''])"

definition rule_text :: "string option \<Rightarrow> string option \<Rightarrow> string option \<Rightarrow> string res" where
  "rule_text lpszSIP lpszProto lpszDPort =
     bindE (deref lpszSIP) (\<lambda>sip. bindE (deref lpszProto) (\<lambda>proto.
     Inr (''-A INPUT '' @ [tab] @ (if sip \<noteq> ''0.0.0.0'' then ''-s '' @ sip @ [tab] else []) @
       (if proto = ''all'' then ''-p '' @ proto @ [tab]
        else if proto = ''icmp'' then ''-p '' @ proto @ '' --icmp-type echo-request'' @ [tab]
        else ''-p '' @ proto @ '' --dport '' @ str_arg lpszDPort @ [tab]) @
       ''-j DROP'' @ [nl])))"

definition has_rule :: "qentry \<Rightarrow> nat \<Rightarrow> bool" where
  "has_rule q n \<longleftrightarrow> numbered q ''sip'' n \<noteq> None \<or> numbered q ''proto'' n \<noteq> None \<or> numbered q ''dport'' n \<noteq> None"

lemma finite_rules: "finite {n. has_rule q n}"
  using finite_numbered [of q "''sip''"] finite_numbered [of q "''proto''"] finite_numbered [of q "''dport''"]
  by (auto simp: has_rule_def Collect_disj_eq)

function nf_rules :: "qentry \<Rightarrow> nat \<Rightarrow> string res" where
  "nf_rules q nRules = (if \<not> has_rule q nRules then Inr []
     else bindE (rule_text (numbered q ''sip'' nRules) (numbered q ''proto'' nRules) (numbered q ''dport'' nRules))
       (\<lambda>s. bindE (nf_rules q (Suc nRules)) (\<lambda>rest. Inr (s @ rest))))"
  by pat_completeness auto
termination
  by (relation "measure (\<lambda>(q, n). card {i. n \<le> i \<and> has_rule q i})") (auto simp: finite_decrease finite_rules)

declare nf_rules.simps [simp del]

text \<open>The interface of the network side, \<open>ppp0\<close> unless \<open>/etc/wan\<close> names another.\<close>

definition wan_if :: "'a os_scheme \<Rightarrow> string res" where
  "wan_if w = (case files w ''/etc/wan'' of
      None \<Rightarrow> Inr ''ppp0''
    | Some c \<Rightarrow> bindE (scanf_s 64 c) (\<lambda>r. Inr (case r of None \<Rightarrow> ''ppp0'' | Some (t, _) \<Rightarrow> t)))"

definition nf_copy :: string where "nf_copy = ''cp -f /tmp/iptables /etc/iptables;sync;sync''"

definition nf_set :: "shell \<Rightarrow> handler" where
  "nf_set sh w = (let w = XML_PutHeader w in
     case getstr w ''state'' of
       None \<Rightarrow> Inr (- 1, XML_PutError ''STATUS_NETFILTER'' None w)
     | Some lpszState \<Rightarrow>
        bindE (wan_if w) (\<lambda>szIF.
        if \<not> wperm w ''/tmp/iptables'' then
          Inr (- 1, XML_PutError ''SET_NETFILTER'' (Some (''Can'' @ [CHR 0x27] @ ''t not create file'' @ [nl])) w)
        else bindE (nf_rules (req w) 0) (\<lambda>rules.
          let w = write_file ''/tmp/iptables'' (nf_head @ rules @ nf_tail szIF) w in
          if \<not> wperm w ''/etc/service/iptables'' then Inl NullPointer
          else let w = write_file ''/etc/service/iptables'' lpszState w in
            bindE (system_wait sh nf_copy w) (\<lambda>w.
            let w = XML_PutHeader w in
            case popen sh ''service iptables restart'' w of
              (Some _, w) \<Rightarrow> Inr (0, XML_PutOK ''SET_NETFILTER'' w)
            | (None, w) \<Rightarrow> Inr (0, XML_PutError ''SET_NETFILTER'' (Some (''Occurred error when iptables updating'' @ [nl])) w)))))"

definition FTMC_Netfilter :: "shell \<Rightarrow> handler" where
  "FTMC_Netfilter sh w = bindE (deref (getstr w ''cmd'')) (\<lambda>lpszCmd.
     if lpszCmd = ''status'' then nf_status sh w
     else if lpszCmd = ''set'' then nf_set sh w
     else Inr (0, XML_PutError ''SET_NETFILTER'' (Some (''Invalid command'' @ [nl])) (XML_PutHeader w)))"

section \<open>Showing changes nothing\<close>

interpretation nf: line_printer status_line
  by unfold_locales (auto simp: status_line_def bindE_eq_Inr_iff split: if_splits)

lemma nf_status_reads:
  assumes "nf_status sh w = Inr (r, w')" "reporting sh nf_status_script"
  shows "same_state w w'"
proof -
  let ?w = "print (open_tag ''STATUS_NETWORK'') (XML_PutHeader w)"
  from assms(1) obtain state where "iptables_state ?w = Inr state"
    by (auto simp: nf_status_def Let_def bindE_eq_Inr_iff)
  moreover obtain a v where p: "popen sh nf_status_script (print (elem ''STATE'' state) ?w) = (a, v)" by fastforce
  ultimately have "same_state v w'" using assms(1)
    by (auto simp: nf_status_def Let_def bindE_eq_Inr_iff same_state_def split: option.splits
        dest!: nf.each_output_line_prints [THEN same_system_state])
  moreover have "same_state w v" using popen_reporting [OF assms(2) p] by (simp add: same_state_def)
  ultimately show ?thesis by (rule same_state_trans [rotated])
qed

section \<open>The rule file\<close>

type_synonym fw_rule = "string \<times> string \<times> string"

text \<open>What a rule of the page stands for, as the arguments of \<open>iptables\<close>.\<close>

definition drop_args :: "fw_rule \<Rightarrow> string list" where
  "drop_args = (\<lambda>(sip, proto, dport).
     [''-A'', ''INPUT''] @ (if sip = ''0.0.0.0'' then [] else [''-s'', sip]) @ [''-p'', proto] @
     (if proto = ''all'' then [] else if proto = ''icmp'' then [''--icmp-type'', ''echo-request''] else [''--dport'', dport]) @
     [''-j'', ''DROP''])"

definition fw_rule_ok :: "fw_rule \<Rightarrow> bool" where
  "fw_rule_ok = (\<lambda>(sip, proto, dport). plain_word 1000 sip \<and> plain_word 1000 proto \<and> plain_word 1000 dport)"

definition posted :: "qentry \<Rightarrow> fw_rule list \<Rightarrow> bool" where
  "posted q rs \<longleftrightarrow> \<not> has_rule q (length rs) \<and> (\<forall>i < length rs. case rs ! i of (sip, proto, dport) \<Rightarrow>
     numbered q ''sip'' i = Some sip \<and> numbered q ''proto'' i = Some proto \<and> numbered q ''dport'' i = Some dport)"

lemma plain_word_nl: "plain_word n v \<Longrightarrow> nl \<notin> set v"
proof -
  have "isspace nl" by (simp add: isspace_def)
  then show "plain_word n v \<Longrightarrow> nl \<notin> set v" unfolding plain_word_def by blast
qed

lemma rule_text_words:
  assumes "fw_rule_ok (sip, proto, dport)"
  obtains l where "rule_text (Some sip) (Some proto) (Some dport) = Inr (line l)" "split_words l = drop_args (sip, proto, dport)"
    "nl \<notin> set l"
proof -
  define src where "src = (if sip = ''0.0.0.0'' then [] else [(''-s'', '' ''), (sip, [tab])])"
  define prt where "prt = (if proto = ''all'' then [(proto, [tab])]
     else if proto = ''icmp'' then [(proto, '' ''), (''--icmp-type'', '' ''), (''echo-request'', [tab])]
     else [(proto, '' ''), (''--dport'', '' ''), (dport, [tab])])"
  let ?ps = "[(''-A'', '' ''), (''INPUT'', '' '' @ [tab])] @ src @ [(''-p'', '' '')] @ prt @ [(''-j'', '' '')]"
  let ?join = "\<lambda>ps. concat (map (\<lambda>(v, sp). v @ sp) ps)"
  have "?join src = (if sip \<noteq> ''0.0.0.0'' then ''-s '' @ sip @ [tab] else [])" by (simp add: src_def)
  moreover have "''-p '' @ ?join prt = (if proto = ''all'' then ''-p '' @ proto @ [tab]
      else if proto = ''icmp'' then ''-p '' @ proto @ '' --icmp-type echo-request'' @ [tab]
      else ''-p '' @ proto @ '' --dport '' @ dport @ [tab])" by (simp add: prt_def)
  ultimately have "rule_text (Some sip) (Some proto) (Some dport) = Inr (line (?join ?ps @ ''DROP''))"
    by (simp add: rule_text_def str_arg_def line_def)
  moreover have ws: "list_all word_sep ?ps"
  proof -
    have w: "plain_word 1000 sip" "plain_word 1000 proto" "plain_word 1000 dport"
      using assms by (simp_all add: fw_rule_ok_def)
    have sp: "isspace (CHR '' '')" "isspace tab" by (simp_all add: isspace_def)
    note v = w [THEN word_sep_plain, OF sp(1)] w [THEN word_sep_plain, OF sp(2)]
    have k: "word_sep (''-A'', '' '')" "word_sep (''INPUT'', '' '' @ [tab])" "word_sep (''-s'', '' '')"
      "word_sep (''-p'', '' '')" "word_sep (''--icmp-type'', '' '')" "word_sep (''echo-request'', [tab])"
      "word_sep (''--dport'', '' '')" "word_sep (''-j'', '' '')"
      by (simp_all add: word_sep_def isspace_def)
    have "list_all word_sep src" "list_all word_sep prt" unfolding src_def prt_def using v k by auto
    with k show "list_all word_sep ?ps" by simp
  qed
  moreover have "split_words (?join ?ps @ ''DROP'') = map fst ?ps @ [''DROP'']"
    using split_words_join_end [OF ws, of "''DROP''"] by (simp add: isspace_def)
  moreover have "map fst ?ps @ [''DROP''] = drop_args (sip, proto, dport)" by (simp add: src_def prt_def drop_args_def)
  moreover have "nl \<notin> set (?join ?ps @ ''DROP'')"
  proof -
    have "nl \<notin> set sip" "nl \<notin> set proto" "nl \<notin> set dport"
      using assms plain_word_nl [of 1000] unfolding fw_rule_ok_def by auto
    then show ?thesis by (simp add: src_def prt_def)
  qed
  ultimately show thesis by (intro that [of "?join ?ps @ ''DROP''"]) simp_all
qed

lemma nf_rules_posted:
  assumes "posted q rs" "\<forall>r \<in> set rs. fw_rule_ok r"
  obtains ls where "nf_rules q 0 = Inr (concat (map line ls))" "map split_words ls = map drop_args rs" "\<forall>l \<in> set ls. nl \<notin> set l"
proof -
  have "\<exists>ls. nf_rules q (length rs - k) = Inr (concat (map line ls)) \<and>
      map split_words ls = map drop_args (drop (length rs - k) rs) \<and> (\<forall>l \<in> set ls. nl \<notin> set l)"
    if "k \<le> length rs" for k
    using that
  proof (induction k)
    case 0
    have "\<not> has_rule q (length rs)" using assms(1) by (simp add: posted_def)
    then show ?case by (simp add: nf_rules.simps [of q "length rs"])
  next
    case (Suc k)
    let ?i = "length rs - Suc k"
    obtain sip proto dport where r: "rs ! ?i = (sip, proto, dport)" by (metis prod_cases3)
    have i: "?i < length rs" "Suc ?i = length rs - k" using Suc.prems by auto
    note assms(1) [unfolded posted_def, THEN conjunct2, rule_format, OF i(1)]
    with r have f: "numbered q ''sip'' ?i = Some sip" "numbered q ''proto'' ?i = Some proto"
      "numbered q ''dport'' ?i = Some dport" by simp_all
    from assms(2) i(1) r have "fw_rule_ok (sip, proto, dport)" by (metis nth_mem)
    then obtain l where l: "rule_text (Some sip) (Some proto) (Some dport) = Inr (line l)"
      "split_words l = drop_args (sip, proto, dport)" "nl \<notin> set l" by (rule rule_text_words)
    from Suc obtain ls where ls: "nf_rules q (Suc ?i) = Inr (concat (map line ls))"
      "map split_words ls = map drop_args (drop (Suc ?i) rs)" "\<forall>l \<in> set ls. nl \<notin> set l" unfolding i(2) by auto
    have "nf_rules q ?i = Inr (concat (map line (l # ls)))"
      using f l(1) ls(1) by (simp add: nf_rules.simps [of q ?i] has_rule_def)
    moreover have "map split_words (l # ls) = map drop_args (drop ?i rs)"
      using Cons_nth_drop_Suc [OF i(1), symmetric] l(2) ls(2) r by simp
    moreover have "\<forall>l \<in> set (l # ls). nl \<notin> set l" using l(3) ls(3) by simp
    ultimately show ?case by blast
  qed
  from this [of "length rs"] show thesis using that by (simp only: diff_self_eq_0 drop0) blast
qed

section \<open>Properties of the firewall page\<close>

text \<open>
  C8. The rule file. If the request holds rules numbered from 0 without a gap, then after \<open>set\<close> the file
  \<open>/etc/iptables\<close> has, between the fixed head and tail, one line per rule in the order of the request, ended by a
  newline and with no other newline in it, and each line read as words is the intended \<open>iptables\<close> command: drop the packets from this source (any
  source for 0.0.0.0) of this protocol and port. The state of the service is stored, and the two
  commands are started in this order.
\<close>

theorem firewall_rules_written:
  assumes "getstr w ''cmd'' = Some ''set''" "getstr w ''state'' = Some state" "wan_if w = Inr szIF"
    and "wperm w ''/tmp/iptables''" "wperm w ''/etc/service/iptables''"
    and "copies sh nf_copy ''/tmp/iptables'' ''/etc/iptables''"
    and "shell_up sh"
    and "\<forall>path \<in> {''/etc/iptables'', ''/etc/service/iptables''}. leaves sh ''service iptables restart'' path"
    and "posted (req w) rs" "\<forall>r \<in> set rs. fw_rule_ok r"
  shows "\<exists>w' ls. FTMC_Netfilter sh w = Inr (0, w') \<and>
    files w' ''/etc/iptables'' = Some (nf_head @ concat (map (\<lambda>l. l @ [nl]) ls) @ nf_tail szIF) \<and>
    (\<forall>l \<in> set ls. nl \<notin> set l) \<and> map split_words ls = map drop_args rs \<and> files w' ''/etc/service/iptables'' = Some state \<and>
    cmds w' = cmds w @ [nf_copy, ''service iptables restart'']"
proof -
  have "posted (req (XML_PutHeader w)) rs" using assms(9) by (simp add: posted_def has_rule_def)
  then obtain ls where ls: "nf_rules (req (XML_PutHeader w)) 0 = Inr (concat (map line ls))"
    "map split_words ls = map drop_args rs" "\<forall>l \<in> set ls. nl \<notin> set l"
    using nf_rules_posted [OF _ assms(10)] by metis
  let ?w0 = "write_file ''/etc/service/iptables'' state
      (write_file ''/tmp/iptables'' (nf_head @ concat (map line ls) @ nf_tail szIF) (XML_PutHeader w))"
  let ?w1 = "?w0\<lparr>cmds := cmds ?w0 @ [nf_copy], files := (files ?w0)(''/etc/iptables'' := files ?w0 ''/tmp/iptables'')\<rparr>"
  obtain ans w2 where p: "popen sh ''service iptables restart'' (XML_PutHeader ?w1) = (Some ans, w2)"
    by (rule shell_up_popen [OF assms(7)])
  note p' = popen_leaves [OF assms(8) [rule_format] p, of "''/etc/iptables''"]
    popen_leaves [OF assms(8) [rule_format] p, of "''/etc/service/iptables''"] popen_cmds [OF p]
  have "wan_if (XML_PutHeader w) = Inr szIF" using assms(3) by (simp add: wan_if_def)
  with assms(1-5) ls(1) p system_wait_copies [OF assms(6), of ?w0]
  have "FTMC_Netfilter sh w = Inr (0, XML_PutOK ''SET_NETFILTER'' w2)"
    by (simp add: FTMC_Netfilter_def nf_set_def Let_def)
  moreover have "line = (\<lambda>l. l @ [nl])" by (simp add: line_def fun_eq_iff)
  ultimately show ?thesis using ls(2,3) p' by (intro exI [of _ "XML_PutOK ''SET_NETFILTER'' w2"] exI [of _ ls]) simp
qed

definition fw_shell :: shell where
  "fw_shell cmd t fs = (if cmd = nf_copy then Some ([], fs(''/etc/iptables'' := fs ''/tmp/iptables'')) else Some ([], fs))"

definition fw_request :: qentry where
  "fw_request = [(''cmd'', ''set''), (''state'', ''enabled''), (''sip0'', ''10.0.0.7''), (''proto0'', ''tcp''), (''dport0'', ''80''),
     (''sip1'', ''0.0.0.0''), (''proto1'', ''icmp''), (''dport1'', ''0'')]"

lemma fw_shell_facts:
  "copies fw_shell nf_copy ''/tmp/iptables'' ''/etc/iptables''" "shell_up fw_shell"
  "\<forall>path \<in> {''/etc/iptables'', ''/etc/service/iptables''}. leaves fw_shell ''service iptables restart'' path"
  by (simp_all add: fw_shell_def copies_def shell_up_def leaves_def nf_copy_def)

lemma fw_request_posted:
  "posted fw_request [(''10.0.0.7'', ''tcp'', ''80''), (''0.0.0.0'', ''icmp'', ''0'')]"
proof -
  have all2: "(\<forall>i < 2. P i) \<longleftrightarrow> P 0 \<and> P 1" for P :: "nat \<Rightarrow> bool" by (auto simp: less_2_cases_iff)
  have "\<not> has_rule fw_request 2"
    by (simp add: has_rule_def numbered_def show_nat_small) (simp add: fw_request_def qentry_get_def)
  moreover have "numbered fw_request ''sip'' 0 = Some ''10.0.0.7''" "numbered fw_request ''proto'' 0 = Some ''tcp''"
    "numbered fw_request ''dport'' 0 = Some ''80''" "numbered fw_request ''sip'' 1 = Some ''0.0.0.0''"
    "numbered fw_request ''proto'' 1 = Some ''icmp''" "numbered fw_request ''dport'' 1 = Some ''0''"
    by (simp_all only: numbered_def show_nat_small) (simp_all add: fw_request_def qentry_get_def cstr_def)
  ultimately show ?thesis by (simp add: posted_def all2 numeral_2_eq_2 [symmetric])
qed

theorem firewall_rules_written_witness:
  "\<exists>w' ls. FTMC_Netfilter fw_shell (web_world Map.empty fw_request) = Inr (0, w') \<and>
    files w' ''/etc/iptables'' = Some (nf_head @ concat (map (\<lambda>l. l @ [nl]) ls) @ nf_tail ''ppp0'') \<and>
    map split_words ls =
      [[''-A'', ''INPUT'', ''-s'', ''10.0.0.7'', ''-p'', ''tcp'', ''--dport'', ''80'', ''-j'', ''DROP''],
       [''-A'', ''INPUT'', ''-p'', ''icmp'', ''--icmp-type'', ''echo-request'', ''-j'', ''DROP'']]"
proof -
  let ?w = "web_world Map.empty fw_request"
  let ?rs = "[(''10.0.0.7'', ''tcp'', ''80''), (''0.0.0.0'', ''icmp'', ''0'')]"
  have ok: "\<forall>r \<in> set ?rs. fw_rule_ok r" by (simp add: fw_rule_ok_def plain_word_def isspace_def)
  have q: "getstr ?w ''cmd'' = Some ''set''" "getstr ?w ''state'' = Some ''enabled''" "wan_if ?w = Inr ''ppp0''"
    by (simp_all add: fw_request_def cstr_def wan_if_def)
  have "posted (req ?w) ?rs" using fw_request_posted by simp
  from firewall_rules_written [OF q web_world_sel(2) web_world_sel(2) fw_shell_facts this ok]
  obtain w' ls where "FTMC_Netfilter fw_shell ?w = Inr (0, w')"
    "files w' ''/etc/iptables'' = Some (nf_head @ concat (map (\<lambda>l. l @ [nl]) ls) @ nf_tail ''ppp0'')" "map split_words ls = map drop_args ?rs"
    by blast
  moreover have "map drop_args ?rs =
      [[''-A'', ''INPUT'', ''-s'', ''10.0.0.7'', ''-p'', ''tcp'', ''--dport'', ''80'', ''-j'', ''DROP''],
       [''-A'', ''INPUT'', ''-p'', ''icmp'', ''--icmp-type'', ''echo-request'', ''-j'', ''DROP'']]"
    by (simp add: drop_args_def)
  ultimately show ?thesis by metis
qed

end
