(* ===== verification/Network.thy ===== *)
theory Network
  imports Forms
begin

text \<open>
  \<open>www/cgi-src/network.c\<close> and \<open>syslog.c\<close>: the network page, which shows the interfaces and writes
  \<open>/etc/network/interfaces\<close>, and the log page, which cuts syslog lines into time, process and text.
\<close>

section \<open>Showing the interfaces\<close>

text \<open>
  \<open>sscanf(szBuf, "%s %d %s ...")\<close>: a word, a number and a row of words. \<open>None\<close> is a result below the
  number of conversions.
\<close>

definition scan_if_line :: "nat \<Rightarrow> string \<Rightarrow> (int \<times> string list) option res" where
  "scan_if_line k szBuf = bindE (scanf_s 64 szBuf) (\<lambda>r. case r of
      None \<Rightarrow> Inr None
    | Some (_, rest) \<Rightarrow> (case scanf_d rest of
        None \<Rightarrow> Inr None
      | Some (nIndex, rest) \<Rightarrow> bindE (sscanf_words (replicate k 64) rest) (\<lambda>ws.
          Inr (if length ws = k then Some (nIndex, ws) else None))))"

definition if_entry :: "string \<Rightarrow> string list \<Rightarrow> (int \<times> string list) option \<Rightarrow> cgi \<Rightarrow> cgi" where
  "if_entry tag names r w = (case r of
      None \<Rightarrow> w
    | Some (nIndex, ws) \<Rightarrow>
       say ([open_tag tag, elem ''INDEX'' (show_int nIndex)] @ map (\<lambda>(t, v). elem t v) (zip names ws) @ [close_tag tag]) w)"

definition net_line :: "string \<Rightarrow> cgi \<Rightarrow> cgi res" where
  "net_line szBuf w = (let w = print (elem ''CMT'' szBuf) w in
     bindE (scanf_s 64 szBuf) (\<lambda>r. case r of
       None \<Rightarrow> Inr w
     | Some (szType, _) \<Rightarrow>
        if szType = ''eth'' then
          bindE (scan_if_line 4 szBuf) (\<lambda>r. Inr (if_entry ''ETH'' [''IFNAME'', ''IPADDR'', ''NETMASK'', ''MACADDR''] r w))
        else if szType = ''p2p'' then
          bindE (scan_if_line 4 szBuf) (\<lambda>r. Inr (if_entry ''PTP'' [''IFNAME'', ''IPADDR'', ''NETMASK'', ''PEER''] r w))
        else if szType = ''dns'' then
          bindE (scan_if_line 2 szBuf) (\<lambda>r. Inr (if_entry ''DNS'' [''NAME'', ''IPADDR''] r w))
        else Inr w))"

definition net_status_script :: string where "net_status_script = ''/www/cgi-bin/status_network.sh''"

definition net_status :: "shell \<Rightarrow> handler" where
  "net_status sh w = (case popen sh net_status_script w of
      (None, w) \<Rightarrow> Inr (0, w)
    | (Some ans, w) \<Rightarrow>
       bindE (each_output_line net_line ans (print (open_tag ''STATUS_NETWORK'') (XML_PutHeader w))) (\<lambda>w.
         Inr (0, print (close_tag ''STATUS_NETWORK'') w)))"

section \<open>Writing the interfaces\<close>

definition if_text :: "string \<Rightarrow> string option \<Rightarrow> string option \<Rightarrow> string" where
  "if_text lpszIFName lpszIPAddr lpszNetmask = concat (map line
     [''auto '' @ lpszIFName, ''iface '' @ lpszIFName @ '' inet static'',
      [CHR 0x09] @ ''address '' @ str_arg lpszIPAddr, [CHR 0x09] @ ''netmask '' @ str_arg lpszNetmask,
      [CHR 0x09] @ ''pre-up [ -f /etc/network/local-network-ok ]'', []])"

function if_texts :: "qentry \<Rightarrow> nat \<Rightarrow> string" where
  "if_texts q i = (case numbered q ''ifname'' i of
      None \<Rightarrow> []
    | Some lpszIFName \<Rightarrow> if_text lpszIFName (numbered q ''ipaddr'' i) (numbered q ''netmask'' i) @ if_texts q (Suc i))"
  by pat_completeness auto
termination
  by (relation "measure (\<lambda>(q, n). card {i. n \<le> i \<and> numbered q ''ifname'' i \<noteq> None})")
    (auto intro!: finite_decrease finite_numbered [unfolded not_None_eq])

declare if_texts.simps [simp del]

definition if_head :: string where
  "if_head = concat (map line [''auto lo'', [CHR 0x09] @ ''iface lo inet loopback'', []])"

definition net_copy :: string where "net_copy = ''cp -f /tmp/interfaces /etc/network/interfaces;sync;sync''"

definition net_set :: "shell \<Rightarrow> handler" where
  "net_set sh w = (if \<not> wperm w ''/tmp/interfaces'' then Inr (- 1, print (elem ''RET'' ''ERROR'') w)
     else bindE (system_wait sh net_copy (write_file ''/tmp/interfaces'' (if_head @ if_texts (req w) 0) w)) (\<lambda>w.
       Inr (0, XML_PutOK ''CONFIG_NETWORK'' (XML_PutHeader w))))"

definition FTMC_Network :: "shell \<Rightarrow> handler" where
  "FTMC_Network sh w = bindE (deref (getstr w ''cmd'')) (\<lambda>lpszCmd.
     if lpszCmd = ''status'' then net_status sh w
     else if lpszCmd = ''set'' then net_set sh w
     else Inr (- 1, w))"

section \<open>The log page\<close>

text \<open>\<open>strchr\<close> and a terminator cut a string.\<close>

definition cut_at :: "char \<Rightarrow> string \<Rightarrow> string" where
  "cut_at c s = takeWhile (\<lambda>d. d \<noteq> c) s"

text \<open>
  One line of the log: 15 bytes of time, then host, facility and process. \<open>lpszContent\<close> is the text after
  the process, a null pointer when the line has fewer words.
\<close>

definition log_line :: "string \<Rightarrow> cgi \<Rightarrow> cgi res" where
  "log_line szBuf w = (let szTime = take 15 szBuf; lpszBuf = drop (length szTime) szBuf in
     bindE (sscanf_words [64, 64, 64] lpszBuf) (\<lambda>ws.
     let szProcess = (if length ws = 3 then ws ! 2 else []);
         lpszContent = (if length ws = 3
           then map_option (\<lambda>s. ltrim (drop (length szProcess) s)) (strstr_from lpszBuf szProcess) else None)
     in Inr (say [open_tag ''ENTITY'', elem ''TIME'' szTime,
       elem ''PROCESS'' (cut_at (CHR '':'') (cut_at (CHR ''['') szProcess)),
       elem ''LOG'' (str_arg lpszContent), close_tag ''ENTITY''] w)))"

definition count_line :: "string \<Rightarrow> cgi \<Rightarrow> cgi res" where
  "count_line szBuf w = Inr (case scanf_d szBuf of
      None \<Rightarrow> w
    | Some (nCount, _) \<Rightarrow> print (elem ''COUNT'' (show_int nCount)) w)"

definition log_info :: "shell \<Rightarrow> cgi \<Rightarrow> cgi res" where
  "log_info sh w = (case popen sh ''/www/cgi-bin/status_syslog.sh'' w of
      (None, w) \<Rightarrow> Inr w
    | (Some ans, w) \<Rightarrow> bindE (each_output_line count_line ans (print (open_tag ''INFO'') w)) (\<lambda>w.
        Inr (print (close_tag ''INFO'') w)))"

definition log_command :: "int \<Rightarrow> int \<Rightarrow> string" where
  "log_command nIndex nCount = ''/www/cgi-bin/get_syslog.sh '' @ show_int nIndex @ '' '' @ show_int nCount"

definition log_get :: "shell \<Rightarrow> cgi \<Rightarrow> cgi res" where
  "log_get sh w = (case (getstr w ''index'', getstr w ''count'') of
      (Some lpszIndex, Some lpszCount) \<Rightarrow>
        bindE (sprintf 1024 (log_command (atoi lpszIndex) (atoi lpszCount))) (\<lambda>szCmd.
        case popen sh szCmd w of
          (None, w) \<Rightarrow> Inr w
        | (Some ans, w) \<Rightarrow> each_output_line log_line ans w)
    | _ \<Rightarrow> Inr w)"

definition FTMC_Syslog :: "shell \<Rightarrow> handler" where
  "FTMC_Syslog sh w =
     bindE (log_info sh (print (open_tag ''SYSLOG'') (XML_PutHeader w))) (\<lambda>w.
     bindE (deref (getstr w ''cmd'')) (\<lambda>lpszCmd.
     bindE (if lpszCmd = ''get'' then log_get sh w else Inr w) (\<lambda>w.
     Inr (0, print (close_tag ''SYSLOG'') w))))"

section \<open>Showing changes nothing\<close>

lemma same_system_if_entry [simp]: "same_system w (if_entry tag names r w)"
  by (simp add: if_entry_def split: option.split prod.split)

interpretation net: line_printer net_line
proof unfold_locales
  fix l :: string and w w' :: cgi
  assume "net_line l w = Inr w'"
  then have "same_system (print (elem ''CMT'' l) w) w'"
    unfolding net_line_def Let_def bindE_def
    by (simp split: sum.splits option.splits prod.splits if_split_asm) auto
  then show "same_system w w'" by (rule same_system_trans [OF same_system_print])
qed

interpretation log: line_printer log_line
  by unfold_locales (auto simp: log_line_def Let_def bindE_eq_Inr_iff)

interpretation log_count: line_printer count_line
  by unfold_locales (auto simp: count_line_def split: option.splits)

lemma net_status_reads:
  assumes "net_status sh w = Inr (r, w')" "reporting sh net_status_script"
  shows "same_state w w'"
proof -
  obtain a v where p: "popen sh net_status_script w = (a, v)" by fastforce
  with assms(1) have "same_state v w'"
    by (auto simp: net_status_def bindE_eq_Inr_iff same_state_def split: option.splits
        dest!: net.each_output_line_prints [THEN same_system_state])
  with popen_reporting [OF assms(2) p] show ?thesis by (rule same_state_trans)
qed

lemma log_info_reads:
  assumes "log_info sh w = Inr w'" "reporting sh ''/www/cgi-bin/status_syslog.sh''"
  shows "same_state w w'"
proof -
  obtain a v where p: "popen sh ''/www/cgi-bin/status_syslog.sh'' w = (a, v)" by fastforce
  with assms(1) have "same_state v w'"
    by (auto simp: log_info_def bindE_eq_Inr_iff same_state_def split: option.splits
        dest!: log_count.each_output_line_prints [THEN same_system_state])
  with popen_reporting [OF assms(2) p] show ?thesis by (rule same_state_trans)
qed

lemma log_get_reads:
  assumes "log_get sh w = Inr w'" "\<And>i n. reporting sh (log_command i n)"
  shows "same_state w w'"
proof -
  consider "w' = w" | i n where "getstr w ''index'' = Some i" "getstr w ''count'' = Some n"
    using assms(1) by (auto simp: log_get_def split: option.splits)
  then show ?thesis
  proof cases
    case 2
    let ?c = "log_command (atoi i) (atoi n)"
    obtain a v where p: "popen sh ?c w = (a, v)" by fastforce
    with 2 assms(1) have "same_state v w'"
      by (auto simp: log_get_def bindE_eq_Inr_iff sprintf_def split: option.splits if_splits
          dest!: log.each_output_line_prints [THEN same_system_state])
    with popen_reporting [OF assms(2) p] show ?thesis by (rule same_state_trans)
  qed simp
qed

lemma FTMC_Syslog_reads:
  assumes "FTMC_Syslog sh w = Inr (r, w')" "reporting sh ''/www/cgi-bin/status_syslog.sh''"
    and "\<And>i n. reporting sh (log_command i n)"
  shows "same_state w w'"
proof -
  from assms(1) obtain u v cmd where u: "log_info sh (print (open_tag ''SYSLOG'') (XML_PutHeader w)) = Inr u"
    "(if cmd = ''get'' then log_get sh u else Inr u) = Inr v" "w' = print (close_tag ''SYSLOG'') v"
    by (auto simp: FTMC_Syslog_def bindE_eq_Inr_iff)
  have "same_state w u" using log_info_reads [OF u(1) assms(2)] by (simp add: same_state_def)
  moreover have "same_state u v" using u(2) log_get_reads [OF _ assms(3)] by (cases "cmd = ''get''") auto
  ultimately show ?thesis using u(3) by (simp add: same_state_def)
qed

section \<open>Cutting a log line\<close>

text \<open>
  A word that has a colon is first found where it is expected: before it there is text without a colon
  that ends in a blank, and the word has no blank.
\<close>

lemma word_not_earlier:
  assumes "CHR '':'' \<in> set v" "\<forall>c \<in> set v. \<not> isspace c" "CHR '':'' \<notin> set b" "k < length (b @ '' '')"
  shows "\<not> prefix v (drop k (b @ '' '') @ v @ r)"
proof
  assume "prefix v (drop k (b @ '' '') @ v @ r)"
  moreover have "drop k (b @ '' '') = drop k b @ '' ''" using assms(4) by simp
  ultimately obtain z where z: "drop k b @ CHR '' '' # v @ r = v @ z" by (auto simp: prefix_def)
  show False
  proof (cases "length v \<le> length (drop k b)")
    case True
    then have "v = take (length v) (drop k b)" using z by (metis append_eq_append_conv_if)
    then have "set v \<subseteq> set b" by (metis order_trans set_drop_subset set_take_subset)
    with assms(1,3) show False by blast
  next
    case False
    then have "v ! length (drop k b) = CHR '' ''" using z by (metis linorder_not_le nth_append nth_append_length)
    with False assms(2) show False by (metis isspace_def linorder_not_le nth_mem)
  qed
qed

text \<open>
  Log lines. A syslog line of 15 characters of time, host, facility and a process with a colon,
  each followed by one blank, and a text is cut into exactly these parts: the time, the name of the
  process without its number, and the text. Host and facility must not have a colon.
\<close>

theorem log_line_split:
  assumes "length time = 15" "plain_word 64 host" "plain_word 64 fac" "plain_word 64 (name @ mark # rest)"
    and "mark = CHR ''['' \<or> mark = CHR '':''" "CHR ''['' \<notin> set name" "CHR '':'' \<notin> set name"
    and "CHR '':'' \<in> set (mark # rest)" "CHR '':'' \<notin> set host" "CHR '':'' \<notin> set fac"
    and "msg \<noteq> []" "\<not> isspace (hd msg)"
  shows "log_line (time @ '' '' @ host @ '' '' @ fac @ '' '' @ (name @ mark # rest) @ '' '' @ msg @ [nl]) w =
    Inr (say [open_tag ''ENTITY'', elem ''TIME'' time, elem ''PROCESS'' name, elem ''LOG'' (msg @ [nl]), close_tag ''ENTITY''] w)"
proof -
  let ?p = "name @ mark # rest"
  let ?b = "'' '' @ host @ '' '' @ fac"
  let ?buf = "(?b @ '' '') @ ?p @ '' '' @ msg @ [nl]"
  have sp: "isspace (CHR '' '')" by (simp add: isspace_def)
  have "sscanf_words [64, 64, 64] ?buf = Inr [host, fac, ?p]"
    using sscanf_words_sp [OF assms(2) sp, of "[64, 64]" "fac @ '' '' @ ?p @ '' '' @ msg @ [nl]"]
      sscanf_words_sp [OF assms(3) sp, of "[64]" "?p @ '' '' @ msg @ [nl]"]
      sscanf_words_sp [OF assms(4) sp, of "[]" "msg @ [nl]"]
    by (simp add: sscanf_words_skip sp del: sscanf_words.simps) simp
  moreover have "strstr_from ?buf ?p = Some (?p @ '' '' @ msg @ [nl])"
  proof (rule strstr_from_skip)
    show "\<not> prefix ?p (drop k (?b @ '' '') @ ?p @ '' '' @ msg @ [nl])" if "k < length (?b @ '' '')" for k
      using assms(4,8,9,10) that by (intro word_not_earlier) (auto simp: plain_word_def)
  qed
  moreover have "ltrim ('' '' @ msg @ [nl]) = msg @ [nl]"
    using assms(11,12) by (cases msg) (simp_all add: ltrim_def sp)
  moreover have "cut_at (CHR '':'') (cut_at (CHR ''['') ?p) = name"
  proof (cases "mark = CHR ''[''")
    case True
    then have "cut_at (CHR ''['') ?p = name" unfolding cut_at_def using assms(6) by (intro takeWhile_append_stop) auto
    moreover have "cut_at (CHR '':'') name = name" unfolding cut_at_def using assms(7) by (intro takeWhile_all) auto
    ultimately show ?thesis by simp
  next
    case False
    then have "mark = CHR '':''" using assms(5) by simp
    moreover have "cut_at (CHR ''['') ?p = name @ mark # takeWhile (\<lambda>d. d \<noteq> CHR ''['') rest"
      unfolding cut_at_def using assms(6) False by (induction name) auto
    ultimately show ?thesis unfolding cut_at_def using assms(7) by (simp only:) (rule takeWhile_append_stop, auto)
  qed
  ultimately show ?thesis using assms(1) by (simp add: log_line_def Let_def str_arg_def)
qed

theorem log_line_split_witness:
  "log_line (''Jan  1 00:00:07 ftm50 daemon.info pppd[123]: link up'' @ [nl]) (web_world Map.empty []) =
    Inr (say [open_tag ''ENTITY'', elem ''TIME'' ''Jan  1 00:00:07'', elem ''PROCESS'' ''pppd'',
      elem ''LOG'' (''link up'' @ [nl]), close_tag ''ENTITY''] (web_world Map.empty []))"
  using log_line_split [of "''Jan  1 00:00:07''" "''ftm50''" "''daemon.info''" "''pppd''" "CHR ''[''" "''123]:''" "''link up''"
      "web_world Map.empty []"]
  by (simp add: plain_word_def isspace_def)

end
