(* ===== verification/Dhcp.thy ===== *)
theory Dhcp
  imports Forms
begin

text \<open>
  \<open>www/cgi-src/dhcp.c\<close>: the DHCP page. \<open>status\<close> shows the configuration and the leases, \<open>set\<close> writes
  \<open>/etc/udhcpd.conf\<close> and starts or stops the server.
\<close>

section \<open>Showing the configuration and the leases\<close>

definition conf_tags :: "(string \<times> string) list" where
  "conf_tags = [(''STATUS:'', ''STATUS''), (''INTERFACE:'', ''INTERFACE''), (''START:'', ''START''), (''END:'', ''END''),
     (''ROUTER:'', ''ROUTER''), (''TIME:'', ''TIME''), (''STATIC:'', ''STATIC''), (''DNS1:'', ''DNS1''), (''DNS2:'', ''DNS2'')]"

definition dhcp_conf_line :: "string \<Rightarrow> cgi \<Rightarrow> cgi res" where
  "dhcp_conf_line szBuf w = bindE (sscanf_words [64, 64, 64] szBuf) (\<lambda>ws. Inr (
     case ws of
       [tag, szData0] \<Rightarrow> (case map_of conf_tags tag of None \<Rightarrow> w | Some t \<Rightarrow> print (elem t szData0) w)
     | [tag, szData0, szData1] \<Rightarrow>
         if tag = ''STATIC_LEASE:''
         then say [open_tag ''STATIC_LEASE'', elem ''MAC'' szData0, elem ''IP'' szData1, close_tag ''STATIC_LEASE''] w
         else w
     | _ \<Rightarrow> w))"

definition dhcp_lease_line :: "string \<Rightarrow> cgi \<Rightarrow> cgi res" where
  "dhcp_lease_line szBuf w = bindE (sscanf_words [64, 64, 64, 64] szBuf) (\<lambda>ws. bindE (word_at ws 0) (\<lambda>tag.
     let words = concat (map (\<lambda>v. v @ '' '') (tl ws)) in
     if tag = ''<START>'' then Inr (print (open_tag ''LEASE'') w)
     else if tag = ''<END>'' then Inr (print (close_tag ''LEASE'') w)
     else if tag = ''MAC:'' then bindE (word_at ws 1) (\<lambda>v. Inr (print (elem ''MAC'' v) w))
     else if tag = ''IP:'' then bindE (word_at ws 1) (\<lambda>v. Inr (print (elem ''IP'' v) w))
     else if tag = ''HOSTNAME:'' then Inr (print (elem ''HOSTNAME'' words) w)
     else if tag = ''EXPIRESIN:'' then Inr (print (elem ''EXPIRESIN'' words) w)
     else Inr w))"

text \<open>\<open>popen\<close>, a loop over the lines if it worked, \<open>pclose\<close>.\<close>

definition with_output :: "shell \<Rightarrow> string \<Rightarrow> (string \<Rightarrow> cgi \<Rightarrow> cgi res) \<Rightarrow> cgi \<Rightarrow> cgi res" where
  "with_output sh cmd f w = (case popen sh cmd w of
      (None, w) \<Rightarrow> Inr w
    | (Some ans, w) \<Rightarrow> each_output_line f ans w)"

definition dhcp_conf_script :: string where "dhcp_conf_script = ''/www/cgi-bin/status_dhcp.sh''"
definition dhcp_lease_script :: string where
  "dhcp_lease_script = ''/usr/bin/dumpleases | awk -f /www/cgi-bin/parse_dumpleases.awk''"

definition dhcp_status :: "shell \<Rightarrow> handler" where
  "dhcp_status sh w =
     bindE (with_output sh dhcp_conf_script dhcp_conf_line (print (open_tag ''DHCP_SERVER'') (XML_PutHeader w))) (\<lambda>w.
     bindE (with_output sh dhcp_lease_script dhcp_lease_line w) (\<lambda>w.
     Inr (0, print (close_tag ''DHCP_SERVER'') w)))"

section \<open>Writing the configuration\<close>

definition toupper :: "char \<Rightarrow> char" where
  "toupper c = (let n = (of_char c :: nat) in if 97 \<le> n \<and> n \<le> 122 then char_of (n - 32) else c)"

text \<open>The loop that changes the letters of a value in place, in the entry of the request itself.\<close>

definition upcase_value :: "string \<Rightarrow> string" where
  "upcase_value v = map toupper (cstr v) @ drop (length (cstr v)) v"

fun upcase_entry :: "string \<Rightarrow> qentry \<Rightarrow> qentry" where
  "upcase_entry name [] = []"
| "upcase_entry name ((n, v) # q) = (if n = name then (n, upcase_value v) # q else (n, v) # upcase_entry name q)"

definition has_lease :: "qentry \<Rightarrow> nat \<Rightarrow> bool" where
  "has_lease q i \<longleftrightarrow> numbered q ''mac'' i \<noteq> None \<and> numbered q ''ip'' i \<noteq> None"

lemma upcase_entry_get:
  "qentry_get (upcase_entry name q) n = (if n = name then map_option upcase_value (qentry_get q n) else qentry_get q n)"
  unfolding qentry_get_def by (induction q) (auto split: if_splits)

lemma has_lease_upcase [simp]: "has_lease (upcase_entry name q) i = has_lease q i"
  by (simp add: has_lease_def numbered_def upcase_entry_get)

lemma finite_leases: "finite {i. has_lease q i}"
  using finite_numbered [of q "''mac''"] by (rule rev_finite_subset) (auto simp: has_lease_def)

text \<open>The lines \<open>static_lease\<close>, commented out unless \<open>static\<close> is set, and the request they leave.\<close>

function dhcp_leases :: "bool \<Rightarrow> qentry \<Rightarrow> nat \<Rightarrow> string \<times> qentry" where
  "dhcp_leases static q i = (if \<not> has_lease q i then ([], q)
     else let q' = upcase_entry (''mac'' @ show_nat i) q;
              l = (if static then [] else ''# '') @ ''static_lease '' @ the (numbered q' ''mac'' i) @ '' '' @ the (numbered q' ''ip'' i)
          in case dhcp_leases static q' (Suc i) of (ls, q'') \<Rightarrow> (line l @ ls, q''))"
  by pat_completeness auto
termination
  by (relation "measure (\<lambda>(s, q, n). card {i. n \<le> i \<and> has_lease q i})") (auto simp: finite_decrease finite_leases)

declare dhcp_leases.simps [simp del]

definition opt_line :: "string \<Rightarrow> string option \<Rightarrow> string list" where
  "opt_line key v = (case v of None \<Rightarrow> [] | Some s \<Rightarrow> [key @ s])"

definition is_true :: "string option \<Rightarrow> bool" where
  "is_true v \<longleftrightarrow> v = Some ''true''"

definition dhcp_head :: "cgi \<Rightarrow> string" where
  "dhcp_head w = concat (map line (
     [''static '' @ (if is_true (getstr w ''static'') then ''1'' else ''0''), [],
      ''# The start and end of the IP lease block''] @
     (case (getstr w ''start'', getstr w ''end'') of
        (Some s, Some e) \<Rightarrow> [''start '' @ s, ''end   '' @ e]
      | _ \<Rightarrow> []) @
     [[], ''# The interface that udhcpd will use'', ''interface '' @ str_arg (getstr w ''if''), [], ''# Options''] @
     opt_line ''opt lease '' (getstr w ''time'') @ [[]] @
     opt_line ''opt router '' (getstr w ''router'') @ [[], ''opt subnet 255.255.255.0'', []] @
     opt_line ''opt dns '' (getstr w ''dns1'') @ [[]] @
     opt_line ''opt dns '' (getstr w ''dns2'') @ [[], ''# Static leases map'']))"

definition dhcp_params :: "string list" where
  "dhcp_params = [''enable'', ''if'', ''static'', ''start'', ''end'', ''time'', ''dns1'', ''dns2'']"

definition dhcp_copy :: string where "dhcp_copy = ''cp -f /tmp/udhcpd.conf /etc/udhcpd.conf;sync;sync''"
definition dhcp_enable :: string where
  "dhcp_enable = ''cp /etc/init.d/save/udhcpd /etc/init.d/;sync;sync;service udhcpd start;''"
definition dhcp_disable :: string where
  "dhcp_disable = ''service udhcpd stop; rm /etc/init.d/udhcpd;sync;sync''"

definition dhcp_error :: "string \<Rightarrow> string \<Rightarrow> cgi \<Rightarrow> cgi" where
  "dhcp_error ret msg w = say [open_tag ''DHCP_CONFIG'', elem ''RET'' ret, elem ''MSG'' msg, close_tag ''DHCP_CONFIG'']
     (XML_PutHeader w)"

text \<open>A missing parameter is reported, but the handler goes on.\<close>

definition dhcp_set :: "shell \<Rightarrow> handler" where
  "dhcp_set sh w0 =
     (let lpszEnable = getstr w0 ''enable'';
          w = (if \<exists>p \<in> set dhcp_params. getstr w0 p = None then dhcp_error ''ERROR'' ''Invalid Parameter!'' w0 else w0)
      in if \<not> wperm w ''/tmp/udhcpd.conf'' then
           Inr (- 1, dhcp_error ''SYSTEM_ERROR'' (''Can'' @ [CHR 0x27] @ ''t create file'' @ [nl] @ ''[/tmp/udhcpd.conf]'') w)
         else case dhcp_leases (is_true (getstr w ''static'')) (req w) 0 of
           (leases, q) \<Rightarrow>
             bindE (system_wait sh dhcp_copy (write_file ''/tmp/udhcpd.conf'' (dhcp_head w @ leases) (w\<lparr>req := q\<rparr>))) (\<lambda>w.
             bindE (deref lpszEnable) (\<lambda>enable.
             bindE (if enable = ''true''
                    then bindE (system_wait sh dhcp_enable w) (system_wait sh ''service udhcpd restart'')
                    else system_wait sh dhcp_disable w) (\<lambda>w.
             Inr (0, XML_PutOK ''DHCP_CONFIG'' (XML_PutHeader w))))))"

definition FTMC_DHCP :: "shell \<Rightarrow> handler" where
  "FTMC_DHCP sh w = bindE (deref (getstr w ''cmd'')) (\<lambda>lpszCmd.
     if lpszCmd = ''status'' then dhcp_status sh w
     else if lpszCmd = ''config'' then Inr (0, w)
     else if lpszCmd = ''set'' then dhcp_set sh w
     else Inr (- 1, w))"

section \<open>Showing changes nothing\<close>

interpretation dhcp_conf: line_printer dhcp_conf_line
proof unfold_locales
  fix l :: string and w w' :: cgi
  assume "dhcp_conf_line l w = Inr w'"
  then show "same_system w w'"
    unfolding dhcp_conf_line_def bindE_def
    by (simp split: sum.splits list.splits option.splits if_split_asm del: sscanf_words.simps) auto
qed

interpretation dhcp_lease: line_printer dhcp_lease_line
proof unfold_locales
  fix l :: string and w w' :: cgi
  assume "dhcp_lease_line l w = Inr w'"
  then show "same_system w w'"
    unfolding dhcp_lease_line_def Let_def bindE_def
    by (simp split: sum.splits if_split_asm del: sscanf_words.simps) auto
qed

lemma with_output_reads:
  assumes "line_printer f" "reporting sh cmd" "with_output sh cmd f w = Inr w'"
  shows "same_state w w'"
proof -
  obtain a v where p: "popen sh cmd w = (a, v)" by fastforce
  with assms(3) have "same_state v w'"
    by (auto simp: with_output_def split: option.splits
        dest!: line_printer.each_output_line_prints [OF assms(1), THEN same_system_state])
  with popen_reporting [OF assms(2) p] show ?thesis by (rule same_state_trans)
qed

lemma dhcp_status_reads:
  assumes "dhcp_status sh w = Inr (r, w')" "reporting sh dhcp_conf_script" "reporting sh dhcp_lease_script"
  shows "same_state w w'"
proof -
  let ?w = "print (open_tag ''DHCP_SERVER'') (XML_PutHeader w)"
  from assms(1) obtain u v where "with_output sh dhcp_conf_script dhcp_conf_line ?w = Inr u"
    "with_output sh dhcp_lease_script dhcp_lease_line u = Inr v" "w' = print (close_tag ''DHCP_SERVER'') v"
    by (auto simp: dhcp_status_def bindE_eq_Inr_iff)
  with with_output_reads [OF dhcp_conf.line_printer_axioms assms(2)]
    with_output_reads [OF dhcp_lease.line_printer_axioms assms(3)]
  have "same_state ?w u" "same_state u v" "same_state v w'" by (auto simp: same_state_def)
  then show ?thesis by (simp add: same_state_def)
qed

section \<open>Static leases\<close>

definition leased :: "qentry \<Rightarrow> (string \<times> string) list \<Rightarrow> bool" where
  "leased q ms \<longleftrightarrow> \<not> has_lease q (length ms) \<and> (\<forall>i < length ms.
     numbered q ''mac'' i = Some (fst (ms ! i)) \<and> numbered q ''ip'' i = Some (snd (ms ! i)))"

definition lease_line :: "string \<times> string \<Rightarrow> string" where
  "lease_line = (\<lambda>(mac, ip). line (''static_lease '' @ map toupper mac @ '' '' @ ip))"

text \<open>The request as the loop leaves it after lease \<open>i\<close>: the later fields are as they were.\<close>

lemma numbered_upcase:
  "numbered (upcase_entry (''mac'' @ show_nat i) q) ''mac'' i = map_option (map toupper) (numbered q ''mac'' i)"
  "j \<noteq> i \<Longrightarrow> numbered (upcase_entry (''mac'' @ show_nat i) q) ''mac'' j = numbered q ''mac'' j"
  "numbered (upcase_entry (''mac'' @ show_nat i) q) ''ip'' j = numbered q ''ip'' j"
proof -
  have nz: "nul \<notin> set (map toupper (cstr v))" for v
  proof -
    have "toupper c \<noteq> nul" if "c \<noteq> nul" for c
    proof
      assume "toupper c = nul"
      with that have c: "97 \<le> (of_char c :: nat)" "of_char c \<le> (122 :: nat)" "char_of (of_char c - 32 :: nat) = nul"
        by (auto simp: toupper_def Let_def split: if_splits)
      from c(3) have "of_char (char_of (of_char c - 32 :: nat)) = (0 :: nat)" by simp
      then have "(of_char c - 32) mod 256 = (0 :: nat)" by (simp only: of_char_of)
      with c(1,2) show False by simp
    qed
    then have "\<forall>c \<in> set (cstr v). toupper c \<noteq> nul" using cstr_no_nul [of v] by metis
    then show ?thesis by (metis imageE list.set_map)
  qed
  have "cstr (upcase_value v) = map toupper (cstr v)" for v
  proof -
    have "drop (length (cstr v)) v = [] \<or> hd (drop (length (cstr v)) v) = nul"
      unfolding cstr_def by (metis (mono_tags, lifting) dropWhile_eq_drop hd_dropWhile)
    then show ?thesis unfolding upcase_value_def
      using cstr_append_nul [OF nz [of v]] cstr_id [OF nz [of v]] by (cases "drop (length (cstr v)) v") auto
  qed
  then show "numbered (upcase_entry (''mac'' @ show_nat i) q) ''mac'' i = map_option (map toupper) (numbered q ''mac'' i)"
    by (simp add: numbered_def upcase_entry_get option.map_comp comp_def)
qed (simp_all add: numbered_def upcase_entry_get)

lemma dhcp_leases_posted:
  assumes "leased q ms"
  shows "fst (dhcp_leases True q 0) = concat (map lease_line ms)"
proof -
  have "fst (dhcp_leases True q (length ms - k)) = concat (map lease_line (drop (length ms - k) ms))"
    if "k \<le> length ms" "\<not> has_lease q (length ms)"
      "\<forall>i < length ms. length ms - k \<le> i \<longrightarrow>
        numbered q ''mac'' i = Some (fst (ms ! i)) \<and> numbered q ''ip'' i = Some (snd (ms ! i))" for k q
    using that
  proof (induction k arbitrary: q)
    case 0
    then show ?case by (simp add: dhcp_leases.simps [of True q "length ms"])
  next
    case (Suc k)
    let ?i = "length ms - Suc k"
    let ?q = "upcase_entry (''mac'' @ show_nat ?i) q"
    have i: "?i < length ms" "Suc ?i = length ms - k" using Suc.prems(1) by auto
    note f = Suc.prems(3) [rule_format, OF i(1) order_refl]
    have "numbered ?q ''mac'' j = Some (fst (ms ! j)) \<and> numbered ?q ''ip'' j = Some (snd (ms ! j))"
      if "j < length ms" "length ms - k \<le> j" for j
      using Suc.prems(3) [rule_format, of j] that i numbered_upcase(2) [of j ?i q] numbered_upcase(3) [of ?i q j] by auto
    then have "fst (dhcp_leases True ?q (Suc ?i)) = concat (map lease_line (drop (Suc ?i) ms))"
      using Suc.IH [of ?q] Suc.prems(1,2) unfolding i(2) by auto
    moreover have "has_lease q ?i" using f by (simp add: has_lease_def)
    ultimately have "fst (dhcp_leases True q ?i) = lease_line (ms ! ?i) @ concat (map lease_line (drop (Suc ?i) ms))"
      using f numbered_upcase(1) [of ?i q] numbered_upcase(3) [of ?i q ?i]
      by (simp add: dhcp_leases.simps [of True q ?i] Let_def case_prod_beta lease_line_def)
    then show ?case using Cons_nth_drop_Suc [OF i(1), symmetric] by simp
  qed
  from this [of "length ms" q] assms show ?thesis by (simp add: leased_def)
qed

section \<open>Properties of the DHCP page\<close>

text \<open>The server is switched on and restarted, or switched off.\<close>

lemma dhcp_switched:
  fixes w :: cgi
  assumes "shell_up sh" "leaves sh dhcp_enable path" "leaves sh dhcp_disable path" "leaves sh ''service udhcpd restart'' path"
  obtains v where
    "(if on then bindE (system_wait sh dhcp_enable w) (system_wait sh ''service udhcpd restart'') else system_wait sh dhcp_disable w) = Inr v"
    "files v path = files w path"
    "cmds v = cmds w @ (if on then [dhcp_enable, ''service udhcpd restart''] else [dhcp_disable])"
proof (cases on)
  case True
  obtain u where u: "system_wait sh dhcp_enable w = Inr u" "files u path = files w path" "cmds u = cmds w @ [dhcp_enable]"
    by (rule leaves_wait [OF assms(1,2)])
  obtain v where "system_wait sh ''service udhcpd restart'' u = Inr v" "files v path = files u path"
    "cmds v = cmds u @ [''service udhcpd restart'']" by (rule leaves_wait [OF assms(1,4)])
  with True u that show thesis by simp
next
  case False
  obtain v where "system_wait sh dhcp_disable w = Inr v" "files v path = files w path" "cmds v = cmds w @ [dhcp_disable]"
    by (rule leaves_wait [OF assms(1,3)])
  with False that show thesis by simp
qed

text \<open>
  C25. Static leases. With \<open>static\<close> set and the addresses numbered from 0 without a gap, \<open>set\<close> leaves a
  configuration \<open>/etc/udhcpd.conf\<close> that ends in one line per lease, in order, with the hardware address in
  upper case; the server is started exactly if \<open>enable\<close> is set and stopped otherwise. The commands that
  switch the server install or remove its init script and may change any file but the configuration.
\<close>

theorem dhcp_set_writes:
  assumes "getstr w ''cmd'' = Some ''set''" "\<forall>p \<in> set dhcp_params. getstr w p \<noteq> None" "getstr w ''static'' = Some ''true''"
    and "getstr w ''enable'' = Some enable" "wperm w ''/tmp/udhcpd.conf''" "leased (req w) ms"
    and "copies sh dhcp_copy ''/tmp/udhcpd.conf'' ''/etc/udhcpd.conf''" "shell_up sh"
    and "leaves sh dhcp_enable ''/etc/udhcpd.conf''" "leaves sh dhcp_disable ''/etc/udhcpd.conf''"
    and "leaves sh ''service udhcpd restart'' ''/etc/udhcpd.conf''"
  shows "\<exists>w'. FTMC_DHCP sh w = Inr (0, w') \<and>
    files w' ''/etc/udhcpd.conf'' = Some (dhcp_head w @ concat (map lease_line ms)) \<and>
    cmds w' = cmds w @ (if enable = ''true'' then [dhcp_copy, dhcp_enable, ''service udhcpd restart''] else [dhcp_copy, dhcp_disable])"
proof -
  obtain q where q: "dhcp_leases True (req w) 0 = (concat (map lease_line ms), q)"
    using dhcp_leases_posted [OF assms(6)] by (metis prod.collapse)
  define w0 where "w0 = write_file ''/tmp/udhcpd.conf'' (dhcp_head w @ concat (map lease_line ms)) (w\<lparr>req := q\<rparr>)"
  obtain w1 where w1: "system_wait sh dhcp_copy w0 = Inr w1" "cmds w1 = cmds w0 @ [dhcp_copy]"
    "files w1 = (files w0)(''/etc/udhcpd.conf'' := files w0 ''/tmp/udhcpd.conf'')"
    using system_wait_copies [OF assms(7), of w0] by simp
  let ?switch = "\<lambda>w. if enable = ''true''
    then bindE (system_wait sh dhcp_enable w) (system_wait sh ''service udhcpd restart'') else system_wait sh dhcp_disable (w :: cgi)"
  obtain v where v: "?switch w1 = Inr v" "files v ''/etc/udhcpd.conf'' = files w1 ''/etc/udhcpd.conf''"
    "cmds v = cmds w1 @ (if enable = ''true'' then [dhcp_enable, ''service udhcpd restart''] else [dhcp_disable])"
    by (rule dhcp_switched [OF assms(8-11)])
  have "\<not> (\<exists>p \<in> set dhcp_params. getstr w p = None)" using assms(2) by blast
  with assms(3-5) q have "dhcp_set sh w = bindE (system_wait sh dhcp_copy w0) (\<lambda>w. bindE (?switch w) (\<lambda>w.
      Inr (0, XML_PutOK ''DHCP_CONFIG'' (XML_PutHeader w))))"
    unfolding dhcp_set_def Let_def w0_def by (simp only: if_False) (simp add: is_true_def)
  then have "FTMC_DHCP sh w = Inr (0, XML_PutOK ''DHCP_CONFIG'' (XML_PutHeader v))"
    using assms(1) w1(1) v(1) by (simp add: FTMC_DHCP_def)
  moreover have "cmds w0 = cmds w" "files w0 ''/tmp/udhcpd.conf'' = Some (dhcp_head w @ concat (map lease_line ms))"
    by (simp_all add: w0_def)
  ultimately show ?thesis using v(2,3) w1(2,3) by simp
qed

definition dhcp_request :: qentry where
  "dhcp_request = [(''cmd'', ''set''), (''enable'', ''true''), (''if'', ''eth0''), (''static'', ''true''), (''start'', ''10.0.0.10''),
     (''end'', ''10.0.0.20''), (''time'', ''3600''), (''dns1'', ''10.0.0.1''), (''dns2'', ''10.0.0.2''),
     (''mac0'', ''00:1f:ab:00:00:0c''), (''ip0'', ''10.0.0.11'')]"

definition dhcp_shell :: shell where
  "dhcp_shell cmd t fs = Some ([],
     if cmd = dhcp_copy then fs(''/etc/udhcpd.conf'' := fs ''/tmp/udhcpd.conf'')
     else if cmd = dhcp_enable then fs(''/etc/init.d/udhcpd'' := fs ''/etc/init.d/save/udhcpd'')
     else if cmd = dhcp_disable then fs(''/etc/init.d/udhcpd'' := None)
     else fs)"

lemma dhcp_request_leased: "leased dhcp_request [(''00:1f:ab:00:00:0c'', ''10.0.0.11'')]"
proof -
  have "\<not> has_lease dhcp_request 1" unfolding has_lease_def numbered_def show_nat_small
    by (simp add: dhcp_request_def qentry_get_def)
  moreover have "numbered dhcp_request ''mac'' 0 = Some ''00:1f:ab:00:00:0c''" "numbered dhcp_request ''ip'' 0 = Some ''10.0.0.11''"
    unfolding numbered_def show_nat_small by (simp_all add: dhcp_request_def qentry_get_def cstr_def)
  ultimately show ?thesis by (simp add: leased_def)
qed

theorem dhcp_set_writes_witness:
  "\<exists>w'. FTMC_DHCP dhcp_shell (web_world Map.empty dhcp_request) = Inr (0, w') \<and>
    files w' ''/etc/udhcpd.conf'' = Some (dhcp_head (web_world Map.empty dhcp_request) @
      line (''static_lease 00:1F:AB:00:00:0C 10.0.0.11'')) \<and>
    cmds w' = [dhcp_copy, dhcp_enable, ''service udhcpd restart'']"
proof -
  let ?w = "web_world Map.empty dhcp_request"
  have q: "getstr ?w ''cmd'' = Some ''set''" "\<forall>p \<in> set dhcp_params. getstr ?w p \<noteq> None"
    "getstr ?w ''static'' = Some ''true''" "getstr ?w ''enable'' = Some ''true''"
    by (simp_all add: dhcp_request_def dhcp_params_def cstr_def)
  have sh: "copies dhcp_shell dhcp_copy ''/tmp/udhcpd.conf'' ''/etc/udhcpd.conf''" "shell_up dhcp_shell"
    "leaves dhcp_shell dhcp_enable ''/etc/udhcpd.conf''" "leaves dhcp_shell dhcp_disable ''/etc/udhcpd.conf''"
    "leaves dhcp_shell ''service udhcpd restart'' ''/etc/udhcpd.conf''"
    by (simp_all add: dhcp_shell_def copies_def shell_up_def leaves_def dhcp_copy_def dhcp_enable_def dhcp_disable_def)
  have "leased (req ?w) [(''00:1f:ab:00:00:0c'', ''10.0.0.11'')]" using dhcp_request_leased by simp
  from dhcp_set_writes [OF q web_world_sel(2) this sh]
  have "\<exists>w'. FTMC_DHCP dhcp_shell ?w = Inr (0, w') \<and>
      files w' ''/etc/udhcpd.conf'' = Some (dhcp_head ?w @ concat (map lease_line [(''00:1f:ab:00:00:0c'', ''10.0.0.11'')])) \<and>
      cmds w' = [dhcp_copy, dhcp_enable, ''service udhcpd restart'']" by simp
  moreover have "concat (map lease_line [(''00:1f:ab:00:00:0c'', ''10.0.0.11'')]) = line ''static_lease 00:1F:AB:00:00:0C 10.0.0.11''"
    by code_simp
  ultimately show ?thesis by metis
qed

end
