(* ===== verification/Ssl.thy ===== *)
theory Ssl
  imports Forms
begin

text \<open>
  \<open>www/cgi-src/ssl.c\<close>, \<open>sslplus.c\<close> and \<open>secuwayssl.c\<close>: the VPN pages. One of two client programs is
  installed; both run as the service \<open>ssld\<close>. Each page loads the configuration, compares it with the
  request, writes it if it differs and restarts the service.
\<close>

section \<open>SSLPlus\<close>

text \<open>
  The struct is not initialised. A field is \<open>None\<close> while it cannot be read as a string: before the first
  copy, and after a copy of 255 or more bytes, which \<open>strncpy\<close> leaves without a terminator.
\<close>

record SSLPLUS_CONFIG =
  sp_bActive :: bool
  sp_xStatus :: PROC_STATUS
  sp_szUserID :: "string option"
  sp_szPasswd :: "string option"
  sp_szHostIP :: "string option"

definition strncpy_255 :: "string \<Rightarrow> string option" where
  "strncpy_255 s = (if length s < 255 then Some s else None)"

definition read_field :: "string option \<Rightarrow> string res" where
  "read_field f = (case f of None \<Rightarrow> Inl UninitRead | Some s \<Rightarrow> Inr s)"

definition sp_line :: "string \<Rightarrow> SSLPLUS_CONFIG \<Rightarrow> SSLPLUS_CONFIG res" where
  "sp_line szBuf c = (if take 1 szBuf = ''#'' then Inr c
     else bindE (sscanf_words [1024, 128, 1024] szBuf) (\<lambda>ws. Inr (
       case ws of
         [szName, szIndicator, szContent] \<Rightarrow>
           if szName = ''login_id'' then c\<lparr>sp_szUserID := strncpy_255 szContent\<rparr>
           else if szName = ''login_pw'' then c\<lparr>sp_szPasswd := strncpy_255 szContent\<rparr>
           else if szName = ''host'' then c\<lparr>sp_szHostIP := strncpy_255 szContent\<rparr>
           else c
       | _ \<Rightarrow> c)))"

fun sp_lines :: "string list \<Rightarrow> SSLPLUS_CONFIG \<Rightarrow> SSLPLUS_CONFIG res" where
  "sp_lines [] c = Inr c"
| "sp_lines (l # ls) c = bindE (sp_line (cstr l) c) (sp_lines ls)"

definition sp_conv :: string where
  "sp_conv = ''/www/cgi-bin/sslplus_conv /usr/local/frodo/sslplus.conf''"

text \<open>\<open>None\<close> is the return value \<open>-1\<close>.\<close>

definition SSLPLUS_LoadConfig :: "shell \<Rightarrow> cgi \<Rightarrow> (SSLPLUS_CONFIG option \<times> cgi) res" where
  "SSLPLUS_LoadConfig sh w =
     bindE (PROC_Active ''ssld'' w) (\<lambda>bActive.
     bindE (PROC_Status sh ''ssld'' w) (\<lambda>(xStatus, w).
     let c = \<lparr>sp_bActive = (bActive \<noteq> 0), sp_xStatus = xStatus, sp_szUserID = None, sp_szPasswd = None, sp_szHostIP = None\<rparr> in
     case popen sh sp_conv w of
       (None, w) \<Rightarrow> Inr (None, w)
     | (Some ans, w) \<Rightarrow> bindE (sp_lines (fgets_all 1024 ans) c) (\<lambda>c. Inr (Some c, w))))"

abbreviation quot :: char where "quot \<equiv> CHR 0x22"

definition json_pair :: "string \<Rightarrow> string \<Rightarrow> string" where
  "json_pair k v = [quot] @ k @ [quot] @ '': '' @ [quot] @ v @ [quot]"

definition sp_text :: "string \<Rightarrow> string \<Rightarrow> string \<Rightarrow> string" where
  "sp_text host user pw = concat (map line
     [''{'', [CHR 0x09, quot] @ ''hosts'' @ [quot] @ '':['', [CHR 0x09, CHR 0x09] @ ''{'',
      json_pair ''host'' host, json_pair ''description'' [], json_pair ''login_id'' user, json_pair ''login_pw'' pw,
      json_pair ''login_cacert'' ''/usr/local/frodo/cert/ca.crt'', json_pair ''login_cert'' ''/usr/local/frodo/cert/client1.crt'',
      json_pair ''login_key'' ''/usr/local/frodo/cert/client1.key'', json_pair ''login_keypw'' [],
      [CHR 0x09, CHR 0x09] @ ''}'', [CHR 0x09] @ '']'', ''}''])"

definition sp_copy :: string where
  "sp_copy = ''/bin/cp -f /tmp/sslplus.conf /usr/local/frodo;rm /tmp/sslplus.conf;sync;sync''"

definition SSLPLUS_SaveConfig :: "shell \<Rightarrow> SSLPLUS_CONFIG \<Rightarrow> cgi \<Rightarrow> (int \<times> cgi) res" where
  "SSLPLUS_SaveConfig sh c w = (if \<not> wperm w ''/tmp/sslplus.conf'' then Inr (- 1, w)
     else bindE (read_field (sp_szHostIP c)) (\<lambda>host. bindE (read_field (sp_szUserID c)) (\<lambda>user.
       bindE (read_field (sp_szPasswd c)) (\<lambda>pw.
       bindE (system_wait sh sp_copy (write_file ''/tmp/sslplus.conf'' (sp_text host user pw) w)) (\<lambda>w. Inr (0, w))))))"

definition yes_no :: "bool \<Rightarrow> string" where "yes_no b = (if b then ''yes'' else ''no'')"
definition status_name :: "PROC_STATUS \<Rightarrow> string" where
  "status_name s = (if s = PROC_STATUS_RUNNING then ''running'' else ''stopped'')"

definition SSLPLUS_Status :: "shell \<Rightarrow> handler" where
  "SSLPLUS_Status sh w = bindE (SSLPLUS_LoadConfig sh w) (\<lambda>(c, w). case c of
      None \<Rightarrow> Inr (- 1, XML_PutError ''SSL_CONFIG'' None w)
    | Some xConfig \<Rightarrow>
       bindE (read_field (sp_szUserID xConfig)) (\<lambda>user. bindE (read_field (sp_szPasswd xConfig)) (\<lambda>pw.
       bindE (read_field (sp_szHostIP xConfig)) (\<lambda>host.
       Inr (0, say [open_tag ''SSL_CONFIG'', elem ''PRODUCT'' ''SSLPlus'', elem ''MANUFACTURER'' ''Future System, Inc.'',
         elem ''STATUS'' (status_name (sp_xStatus xConfig)), elem ''ACTIVE'' (yes_no (sp_bActive xConfig)),
         elem ''USERID'' user, elem ''PASSWD'' pw, elem ''HOST'' host, close_tag ''SSL_CONFIG''] w)))))"

text \<open>One field of the form: a value that differs is copied and sets \<open>bModified\<close>.\<close>

definition change :: "string option \<Rightarrow> string \<Rightarrow> (string option \<times> bool) res" where
  "change old new = bindE (read_field old) (\<lambda>s. Inr (if s = new then (old, False) else (strncpy_255 new, True)))"

text \<open>The new configuration and \<open>bModified\<close>; an empty password means the old one.\<close>

definition sp_update :: "string option \<Rightarrow> string option \<Rightarrow> string option \<Rightarrow> SSLPLUS_CONFIG \<Rightarrow> (SSLPLUS_CONFIG \<times> bool) res" where
  "sp_update lpszUserID lpszPasswd lpszHostIP c =
     bindE (deref lpszUserID) (\<lambda>user. bindE (change (sp_szUserID c) user) (\<lambda>(u, m1).
     bindE (deref lpszPasswd) (\<lambda>pw. bindE (if pw = [] then read_field (sp_szPasswd c) else Inr pw) (\<lambda>pw.
     bindE (if pw = [] then Inr (sp_szPasswd c, False) else change (sp_szPasswd c) pw) (\<lambda>(p, m2).
     bindE (deref lpszHostIP) (\<lambda>host. bindE (change (sp_szHostIP c) host) (\<lambda>(h, m3).
     Inr (c\<lparr>sp_szUserID := u, sp_szPasswd := p, sp_szHostIP := h\<rparr>, m1 \<or> m2 \<or> m3))))))))"

text \<open>The switch of the service; \<open>bRestart\<close>.\<close>

definition sp_switch :: "shell \<Rightarrow> string option \<Rightarrow> SSLPLUS_CONFIG \<Rightarrow> cgi \<Rightarrow> (bool \<times> cgi) res" where
  "sp_switch sh lpszActive c w = bindE (deref lpszActive) (\<lambda>active.
     if (active = ''yes'') = sp_bActive c then Inr (False, w)
     else bindE (PROC_SetActive sh ''ssld'' (active = ''yes'') w) (\<lambda>w. Inr (True, w)))"

definition SSLPLUS_Set :: "shell \<Rightarrow> handler" where
  "SSLPLUS_Set sh w = bindE (SSLPLUS_LoadConfig sh w) (\<lambda>(c, w). case c of
      None \<Rightarrow> Inr (- 1, w)
    | Some xConfig \<Rightarrow>
       bindE (sp_switch sh (getstr w ''active'') xConfig w) (\<lambda>(bRestart, w).
       bindE (sp_update (getstr w ''userid'') (getstr w ''passwd'') (getstr w ''host'') xConfig) (\<lambda>(xConfig, bModified).
       bindE (if bModified then SSLPLUS_SaveConfig sh xConfig w else Inr (0, w)) (\<lambda>(r, w).
       if r < 0 then Inr (- 1, w)
       else bindE (if bRestart then PROC_Restart sh ''ssld'' w else Inr w) (\<lambda>w. Inr (0, w))))))"

definition FTMC_SSLPLUS :: "shell \<Rightarrow> handler" where
  "FTMC_SSLPLUS sh w = (let w = XML_PutHeader w in
     bindE (deref (getstr w ''cmd'')) (\<lambda>lpszCmd.
     if lpszCmd = ''status'' then SSLPLUS_Status sh w
     else if lpszCmd = ''set'' then bindE (SSLPLUS_Set sh w) (\<lambda>(r, w).
       if r < 0 then Inr (- 1, XML_PutError ''SSL_CONFIG'' None w) else Inr (0, XML_PutOK ''SSL_CONFIG'' w))
     else Inr (0, w)))"

section \<open>SecuwaySSL\<close>

text \<open>The static variables, all zero when the process starts.\<close>

record SECUWAY =
  g_bIsRunning :: bool
  g_bIsEnabled :: bool
  g_szUserID :: string
  g_szUserPW :: string
  g_szVPNIP :: string
  g_szVPNPort :: string
  g_szCrypto :: string
  g_szLogSize :: string
  g_szVersion3 :: string
  g_szSTS :: string

definition secuway_zero :: SECUWAY where
  "secuway_zero = \<lparr>g_bIsRunning = False, g_bIsEnabled = False, g_szUserID = [], g_szUserPW = [], g_szVPNIP = [],
     g_szVPNPort = [], g_szCrypto = [], g_szLogSize = [], g_szVersion3 = [], g_szSTS = []\<rparr>"

definition secuway_put :: "string \<Rightarrow> string \<Rightarrow> SECUWAY \<Rightarrow> SECUWAY" where
  "secuway_put szName v g =
     (if szName = ''userid:'' then g\<lparr>g_szUserID := v\<rparr>
      else if szName = ''userpw:'' then g\<lparr>g_szUserPW := v\<rparr>
      else if szName = ''vpn_ip:'' then g\<lparr>g_szVPNIP := v\<rparr>
      else if szName = ''vpn_port:'' then g\<lparr>g_szVPNPort := v\<rparr>
      else if szName = ''crypto:'' then g\<lparr>g_szCrypto := v\<rparr>
      else if szName = ''log_size:'' then g\<lparr>g_szLogSize := v\<rparr>
      else if szName = ''version3:'' then g\<lparr>g_szVersion3 := v\<rparr>
      else g\<lparr>g_szSTS := v\<rparr>)"

definition secuway_keys :: "string list" where
  "secuway_keys = [''userid:'', ''userpw:'', ''vpn_ip:'', ''vpn_port:'', ''crypto:'', ''log_size:'', ''version3:'', ''site-to-site:'']"

definition secuway_line :: "string \<Rightarrow> SECUWAY \<Rightarrow> SECUWAY res" where
  "secuway_line szBuf g = (if take 1 szBuf = ''#'' then Inr g
     else bindE (sscanf_words [1024, 1024] szBuf) (\<lambda>ws.
       case ws of
         [szName, szContent] \<Rightarrow>
           if szName \<notin> set secuway_keys then Inr g
           else if 256 \<le> length szContent then Inl BufferOverflow
           else Inr (secuway_put szName szContent g)
       | _ \<Rightarrow> Inr g))"

fun secuway_lines :: "string list \<Rightarrow> SECUWAY \<Rightarrow> SECUWAY res" where
  "secuway_lines [] g = Inr g"
| "secuway_lines (l # ls) g = bindE (secuway_line (cstr l) g) (secuway_lines ls)"

text \<open>
  \<open>FTMC_LoadConfig\<close> of \<open>secuwayssl.c\<close>. \<open>szBuf\<close> keeps the status word when \<open>/etc/service/ssld\<close> is empty.
\<close>

definition secuway_conf :: string where "secuway_conf = ''/usr/local/secuwayssl/conf/client.info''"

definition FTMC_LoadConfig :: "shell \<Rightarrow> SECUWAY \<Rightarrow> cgi \<Rightarrow> (SECUWAY \<times> cgi) res" where
  "FTMC_LoadConfig sh g w = (case popen sh ''/usr/bin/service ssld status'' w of
      (None, _) \<Rightarrow> Inl NullPointer
    | (Some ans, w) \<Rightarrow>
       bindE (fscanf_word 1024 ans) (\<lambda>szBuf.
       bindE (deref (files w ''/etc/service/ssld'')) (\<lambda>c.
       bindE (scanf_s 1024 c) (\<lambda>r.
       let szBuf2 = (case r of None \<Rightarrow> szBuf | Some (t, _) \<Rightarrow> t);
           g = g\<lparr>g_bIsRunning := (szBuf = ''running''), g_bIsEnabled := (szBuf2 = ''enabled'')\<rparr> in
       case files w secuway_conf of
         None \<Rightarrow> Inr (g, w)
       | Some c \<Rightarrow> bindE (secuway_lines (fgets_all 1024 c) g) (\<lambda>g. Inr (g, w))))))"

definition secuway_status :: "shell \<Rightarrow> handler" where
  "secuway_status sh w = bindE (FTMC_LoadConfig sh secuway_zero (print (open_tag ''SSL_CONFIG'') (XML_PutHeader w))) (\<lambda>(g, w).
     Inr (0, say [elem ''PRODUCT'' ''SecuwaySSL'', elem ''MANUFACTURER'' ''Secuwiz'',
       elem ''STATUS'' (if g_bIsRunning g then ''running'' else ''stopped''),
       elem ''ENABLED'' (if g_bIsEnabled g then ''true'' else ''false''),
       elem ''USERID'' (g_szUserID g), elem ''PASSWD'' (g_szUserPW g), elem ''VPN_IP'' (g_szVPNIP g),
       elem ''VPN_PORT'' (g_szVPNPort g), elem ''CRYPTO'' (g_szCrypto g), elem ''LOG_SIZE'' (g_szLogSize g),
       elem ''VERSION3'' (g_szVersion3 g), elem ''STS'' (g_szSTS g), elem ''RET'' ''OK'', close_tag ''SSL_CONFIG''] w))"

text \<open>The fields of the form in the order of the file.\<close>

definition secuway_values :: "SECUWAY \<Rightarrow> string list" where
  "secuway_values g = [g_szUserID g, g_szUserPW g, g_szVPNIP g, g_szVPNPort g, g_szCrypto g, g_szLogSize g, g_szVersion3 g, g_szSTS g]"

definition secuway_text :: "string list \<Rightarrow> string" where
  "secuway_text vs = concat (map (\<lambda>(k, v). line (k @ '' '' @ v)) (zip secuway_keys vs))"

definition secuway_copy :: string where
  "secuway_copy = ''/bin/cp -f /tmp/client.info /usr/local/secuwayssl/conf/;/bin/rm /tmp/client.info; sync; sync''"

definition echo_service :: "bool \<Rightarrow> string" where
  "echo_service on = (if on then ''echo enabled > /etc/service/ssld;sync;sync'' else ''echo disabled > /etc/service/ssld;sync;sync'')"

definition secuway_switch :: "shell \<Rightarrow> bool \<Rightarrow> SECUWAY \<Rightarrow> cgi \<Rightarrow> (bool \<times> cgi) res" where
  "secuway_switch sh on g w = (if on = g_bIsEnabled g then Inr (False, w)
     else bindE (system_wait sh (echo_service on) w) (\<lambda>w. Inr (True, w)))"

text \<open>Writing \<open>client.info\<close>; a file that cannot be created is passed over.\<close>

definition secuway_write :: "shell \<Rightarrow> string list \<Rightarrow> cgi \<Rightarrow> cgi res" where
  "secuway_write sh vs w = (if \<not> wperm w ''/tmp/client.info'' then Inr w
     else case popen sh secuway_copy (write_file ''/tmp/client.info'' (secuway_text vs) w) of
       (None, _) \<Rightarrow> Inl NullPointer
     | (Some ans, w) \<Rightarrow> bindE (scanf_s 1024 ans) (\<lambda>_. Inr w))"

text \<open>The parameters in the order in which the code touches them; every one is needed.\<close>

fun all_given :: "string option list \<Rightarrow> string list res" where
  "all_given [] = Inr []"
| "all_given (p # ps) = bindE (deref p) (\<lambda>v. bindE (all_given ps) (\<lambda>vs. Inr (v # vs)))"

definition secuway_params :: "cgi \<Rightarrow> string option list" where
  "secuway_params w = map (getstr w) [''userid'', ''passwd'', ''vpn_ip'', ''vpn_port'', ''crypto'', ''log_size'', ''version3'', ''sts'']"

definition secuway_set :: "shell \<Rightarrow> handler" where
  "secuway_set sh w =
     bindE (FTMC_LoadConfig sh secuway_zero (print (open_tag ''SSL_CONFIG'') (XML_PutHeader w))) (\<lambda>(g, w).
     bindE (deref (getstr w ''enable'')) (\<lambda>lpszEnabled.
     bindE (secuway_switch sh (lpszEnabled = ''true'') g w) (\<lambda>(bRestart, w).
     bindE (all_given (secuway_params w)) (\<lambda>vs.
     let vs = (if vs ! 1 = [] then vs[1 := g_szUserPW g] else vs);
         bChanged = (vs \<noteq> secuway_values g) in
     bindE (if bChanged then secuway_write sh vs w else Inr w) (\<lambda>w.
     bindE (if bChanged \<or> bRestart then system_wait sh ''/usr/bin/service ssld restart &'' w else Inr w) (\<lambda>w.
     Inr (0, say [elem ''RET'' ''OK'', close_tag ''SSL_CONFIG''] w)))))))"

definition FTMC_SECUWAYSSL :: "shell \<Rightarrow> handler" where
  "FTMC_SECUWAYSSL sh w = bindE (deref (getstr w ''cmd'')) (\<lambda>lpszCmd.
     if lpszCmd = ''status'' then secuway_status sh w
     else if lpszCmd = ''set'' then secuway_set sh w
     else Inr (0, w))"

section \<open>The installed client\<close>

definition service_enabled :: "string \<Rightarrow> 'a os_scheme \<Rightarrow> bool res" where
  "service_enabled path w = (case files w path of
      None \<Rightarrow> Inr False
    | Some c \<Rightarrow> bindE (scanf_s 64 c) (\<lambda>r. Inr (case r of None \<Rightarrow> False | Some (t, _) \<Rightarrow> t = ''enabled'')))"

definition FTMC_SSL :: "shell \<Rightarrow> handler" where
  "FTMC_SSL sh w = bindE (service_enabled ''/etc/service/sslplus'' w) (\<lambda>plus.
     if plus then FTMC_SSLPLUS sh w
     else bindE (service_enabled ''/etc/service/secuwayssl'' w) (\<lambda>secuway.
       if secuway then FTMC_SECUWAYSSL sh w
       else Inr (0, say [open_tag ''SSL_CONFIG'', elem ''RET'' ''FAILED'', close_tag ''SSL_CONFIG''] (XML_PutHeader w))))"

section \<open>Reading \<open>client.info\<close> back\<close>

lemma secuway_line_key:
  assumes "key \<in> set secuway_keys" "plain_word 256 v"
  shows "secuway_line (key @ '' '' @ v @ [nl]) g = Inr (secuway_put key v g)"
proof -
  have sp: "isspace (CHR '' '')" "isspace nl" by (simp_all add: isspace_def)
  have key: "plain_word 1024 key" "take 1 (key @ r) \<noteq> ''#''" for r
    using assms(1) by (auto simp: secuway_keys_def plain_word_def isspace_def)
  have v: "plain_word 1024 v" using assms(2) by (simp add: plain_word_def)
  have "sscanf_words [1024, 1024] (key @ '' '' @ v @ [nl]) = Inr [key, v]"
    using sscanf_words_sp [OF key(1) sp(1), of "[1024]" "v @ [nl]"] sscanf_words_sp [OF v sp(2), of "[]" "[]"] by simp
  with key(2) assms show ?thesis unfolding secuway_line_def by (simp add: plain_word_def del: sscanf_words.simps)
qed

lemma plain_word_chars:
  "plain_word n v \<Longrightarrow> nul \<notin> set v \<Longrightarrow> nl \<notin> set v \<and> length v < n"
  by (auto simp: plain_word_def isspace_def)

text \<open>The keys have at most 13 characters, so a line with a value of up to 255 fits the buffer.\<close>

lemma secuway_keys_chars: "key \<in> set secuway_keys \<Longrightarrow> nl \<notin> set key \<and> nul \<notin> set key \<and> length key \<le> 13"
  by (auto simp: secuway_keys_def)

definition vpn_value :: "string \<Rightarrow> bool" where
  "vpn_value v \<longleftrightarrow> plain_word 256 v \<and> nul \<notin> set v"

lemma secuway_lines_pairs:
  assumes "\<forall>(k, v) \<in> set kvs. k \<in> set secuway_keys \<and> vpn_value v"
  shows "secuway_lines (fgets_all 1024 (concat (map (\<lambda>(k, v). line (k @ '' '' @ v)) kvs))) g =
    Inr (foldl (\<lambda>g (k, v). secuway_put k v g) g kvs)"
  using assms
proof (induction kvs arbitrary: g)
  case (Cons kv kvs)
  obtain k v where kv: "kv = (k, v)" by fastforce
  with Cons.prems have k: "k \<in> set secuway_keys" "plain_word 256 v" "nul \<notin> set v" by (auto simp: vpn_value_def)
  note c = secuway_keys_chars [OF k(1)] plain_word_chars [OF k(2,3)]
  let ?r = "concat (map (\<lambda>(k, v). line (k @ '' '' @ v)) kvs)"
  have "fgets_all 1024 ((k @ '' '' @ v) @ nl # ?r) = ((k @ '' '' @ v) @ [nl]) # fgets_all 1024 ?r"
    using c by (intro fgets_all_line) auto
  moreover have "cstr ((k @ '' '' @ v) @ [nl]) = k @ '' '' @ v @ [nl]" using c k(3) by (simp add: cstr_id)
  ultimately show ?case using Cons secuway_line_key [OF k(1,2), of g] by (simp add: kv line_def)
qed simp

lemma secuway_text_read:
  assumes "length vs = 8" "\<forall>v \<in> set vs. vpn_value v"
  obtains g' where "secuway_lines (fgets_all 1024 (secuway_text vs)) g = Inr g'" "secuway_values g' = vs"
    "g_bIsRunning g' = g_bIsRunning g" "g_bIsEnabled g' = g_bIsEnabled g"
proof -
  from assms(1) obtain a b c d e f h i where vs: "vs = [a, b, c, d, e, f, h, i]"
    by (auto simp: length_Suc_conv eval_nat_numeral)
  have "\<forall>(k, v) \<in> set (zip secuway_keys vs). k \<in> set secuway_keys \<and> vpn_value v"
    using assms(2) by (auto dest: set_zip_leftD set_zip_rightD)
  from secuway_lines_pairs [OF this, of g] show thesis
    by (intro that [of "foldl (\<lambda>g (k, v). secuway_put k v g) g (zip secuway_keys vs)"])
      (simp_all add: secuway_text_def, simp_all add: vs secuway_keys_def secuway_values_def secuway_put_def)
qed

text \<open>What the load makes of the status word and the files.\<close>

definition secuway_parse :: "string \<Rightarrow> files \<Rightarrow> SECUWAY \<Rightarrow> SECUWAY res" where
  "secuway_parse ans fs g =
     bindE (fscanf_word 1024 ans) (\<lambda>szBuf. bindE (deref (fs ''/etc/service/ssld'')) (\<lambda>c. bindE (scanf_s 1024 c) (\<lambda>r.
     let szBuf2 = (case r of None \<Rightarrow> szBuf | Some (t, _) \<Rightarrow> t);
         g = g\<lparr>g_bIsRunning := (szBuf = ''running''), g_bIsEnabled := (szBuf2 = ''enabled'')\<rparr> in
     case fs secuway_conf of None \<Rightarrow> Inr g | Some c \<Rightarrow> secuway_lines (fgets_all 1024 c) g)))"

abbreviation ssld_status :: string where "ssld_status \<equiv> ''/usr/bin/service ssld status''"
abbreviation ssld_restart :: string where "ssld_restart \<equiv> ''/usr/bin/service ssld restart &''"

lemma LoadConfig_parse:
  assumes "sh ssld_status (clock w) (files w) = Some (ans, files w)"
  shows "FTMC_LoadConfig sh g w = bindE (secuway_parse ans (files w) g) (\<lambda>g. Inr (g, w\<lparr>cmds := cmds w @ [ssld_status]\<rparr>))"
proof -
  have "popen sh ssld_status w = (Some ans, w\<lparr>cmds := cmds w @ [ssld_status]\<rparr>)"
    using popen_SomeI [of sh ssld_status w ans "files w"] assms by simp
  then show ?thesis
    by (simp add: FTMC_LoadConfig_def secuway_parse_def Let_def bindE_def split: sum.split option.split)
qed

lemma secuway_parse_text:
  assumes "secuway_parse ans fs g0 = Inr g" "length vs = 8" "\<forall>v \<in> set vs. vpn_value v"
    and "fs' ''/etc/service/ssld'' = fs ''/etc/service/ssld''" "fs' secuway_conf = Some (secuway_text vs)"
  obtains g' where "secuway_parse ans fs' g0 = Inr g'" "secuway_values g' = vs"
proof -
  from assms(1) obtain b c r where bcr: "fscanf_word 1024 ans = Inr b" "fs ''/etc/service/ssld'' = Some c" "scanf_s 1024 c = Inr r"
    by (auto simp: secuway_parse_def bindE_eq_Inr_iff)
  let ?g = "g0\<lparr>g_bIsRunning := (b = ''running''), g_bIsEnabled := ((case r of None \<Rightarrow> b | Some (t, _) \<Rightarrow> t) = ''enabled'')\<rparr>"
  obtain g' where "secuway_lines (fgets_all 1024 (secuway_text vs)) ?g = Inr g'" "secuway_values g' = vs"
    by (rule secuway_text_read [OF assms(2,3), of ?g])
  with bcr assms(4,5) show thesis by (intro that [of g']) (simp_all add: secuway_parse_def Let_def)
qed

section \<open>Properties of the VPN pages\<close>

text \<open>\<open>/bin/cp -f from dir; /bin/rm from\<close>: the file is moved and nothing printed.\<close>

definition moves :: "shell \<Rightarrow> string \<Rightarrow> string \<Rightarrow> string \<Rightarrow> bool" where
  "moves sh cmd from to \<longleftrightarrow> (\<forall>t fs. sh cmd t fs = Some ([], fs(to := fs from, from := None)))"

text \<open>Writing the settings and restarting the service.\<close>

lemma secuway_written:
  fixes w :: cgi
  assumes "wperm w ''/tmp/client.info''" "moves sh secuway_copy ''/tmp/client.info'' secuway_conf"
    and "\<forall>fs. sh ssld_restart (clock w) fs = Some ([], fs)"
  obtains w' where "bindE (secuway_write sh vs w) (system_wait sh ssld_restart) = Inr w'" "clock w' = clock w"
    "files w' = (files w)(secuway_conf \<mapsto> secuway_text vs, ''/tmp/client.info'' := None)"
    "cmds w' = cmds w @ [secuway_copy, ssld_restart]"
proof -
  define w2 where "w2 = w\<lparr>cmds := cmds w @ [secuway_copy],
    files := (files w)(secuway_conf \<mapsto> secuway_text vs, ''/tmp/client.info'' := None)\<rparr>"
  have "secuway_write sh vs w = Inr w2"
    using assms(1,2) popen_SomeI [of sh secuway_copy "write_file ''/tmp/client.info'' (secuway_text vs) w"]
    by (simp add: secuway_write_def moves_def w2_def secuway_conf_def scanf_s_def scan_tok_def write_file_def)
  moreover have "system_wait sh ssld_restart w2 = Inr (w2\<lparr>cmds := cmds w2 @ [ssld_restart]\<rparr>)"
    using assms(3) popen_SomeI [of sh ssld_restart w2] by (simp add: system_wait_def w2_def)
  ultimately show thesis by (intro that [of "w2\<lparr>cmds := cmds w2 @ [ssld_restart]\<rparr>"]) (simp_all add: w2_def)
qed

text \<open>
  C24. The VPN settings are stored. When the service is not switched, a \<open>set\<close> request with values that
  are single words of up to 255 characters leaves a \<open>client.info\<close> from which the next load reads exactly
  these values; an empty password stands for the stored one. If the values are the stored ones, nothing is
  written or restarted.
\<close>

theorem secuway_set_roundtrip:
  assumes "getstr w ''cmd'' = Some ''set''"
    and "secuway_parse ans (files w) secuway_zero = Inr g" "\<forall>fs. sh ssld_status (clock w) fs = Some (ans, fs)"
    and "getstr w ''enable'' = Some (if g_bIsEnabled g then ''true'' else ''false'')"
    and "secuway_params w = map Some vs" "vs' = (if vs ! 1 = [] then vs[1 := g_szUserPW g] else vs)"
    and "\<forall>v \<in> set vs'. vpn_value v" "wperm w ''/tmp/client.info''"
    and "moves sh secuway_copy ''/tmp/client.info'' secuway_conf" "\<forall>fs. sh ssld_restart (clock w) fs = Some ([], fs)"
  shows "\<exists>w' g' u. FTMC_SECUWAYSSL sh w = Inr (0, w') \<and> FTMC_LoadConfig sh secuway_zero w' = Inr (g', u) \<and>
    secuway_values g' = vs' \<and>
    cmds w' = cmds w @ ssld_status # (if vs' = secuway_values g then [] else [secuway_copy, ssld_restart])"
proof -
  have len: "length vs' = 8" using arg_cong [OF assms(5), of length] assms(6) by (simp add: secuway_params_def)
  let ?v = "print (open_tag ''SSL_CONFIG'') (XML_PutHeader w)"
  define w1 where "w1 = ?v\<lparr>cmds := cmds ?v @ [ssld_status]\<rparr>"
  have w1: "files w1 = files w" "clock w1 = clock w" "cmds w1 = cmds w @ [ssld_status]" "wperm w1 = wperm w"
    "getstr w1 ''enable'' = getstr w ''enable''" "secuway_params w1 = secuway_params w"
    by (simp_all add: w1_def secuway_params_def getstr_def) (simp_all flip: getstr_def)
  have given: "all_given (map Some xs) = Inr xs" for xs by (induction xs) simp_all
  have load: "FTMC_LoadConfig sh secuway_zero ?v = Inr (g, w1)"
    using LoadConfig_parse [of sh ?v ans secuway_zero] assms(2,3) by (simp add: w1_def)
  let ?ok = "say [elem ''RET'' ''OK'', close_tag ''SSL_CONFIG'']"
  have run: "FTMC_SECUWAYSSL sh w =
      (if vs' = secuway_values g then Inr (0, ?ok w1)
       else bindE (bindE (secuway_write sh vs' w1) (system_wait sh ssld_restart)) (\<lambda>w. Inr (0, ?ok w)))"
    using assms(1,4,5) w1(5,6) load
    by (simp add: FTMC_SECUWAYSSL_def secuway_set_def secuway_switch_def Let_def given bindE_assoc assms(6) [simplified, symmetric])
  show ?thesis
  proof (cases "vs' = secuway_values g")
    case True
    moreover have "\<exists>u. FTMC_LoadConfig sh secuway_zero (?ok w1) = Inr (g, u)"
      using LoadConfig_parse [of sh "?ok w1" ans] assms(2,3) w1(1,2) by simp
    ultimately show ?thesis using run w1(3) by auto
  next
    case False
    let ?fs = "(files w)(secuway_conf \<mapsto> secuway_text vs', ''/tmp/client.info'' := None)"
    obtain w3 where w3: "bindE (secuway_write sh vs' w1) (system_wait sh ssld_restart) = Inr w3" "clock w3 = clock w"
      "files w3 = ?fs" "cmds w3 = cmds w1 @ [secuway_copy, ssld_restart]"
      by (rule secuway_written [of w1 sh vs']) (use assms(8-10) w1 in simp_all)
    obtain g' where g': "secuway_parse ans ?fs secuway_zero = Inr g'" "secuway_values g' = vs'"
      by (rule secuway_parse_text [OF assms(2) len assms(7), of ?fs]) (simp_all add: secuway_conf_def)
    have "\<exists>u. FTMC_LoadConfig sh secuway_zero (?ok w3) = Inr (g', u)"
      using LoadConfig_parse [of sh "?ok w3" ans] assms(3) w3(2,3) g'(1) by simp
    with run w3(1,4) g'(2) False w1(3) show ?thesis by auto
  qed
qed

definition vpn_shell :: shell where
  "vpn_shell cmd t fs = (if cmd = ssld_status then Some (''running'' @ [nl], fs)
     else if cmd = secuway_copy then Some ([], fs(secuway_conf := fs ''/tmp/client.info'', ''/tmp/client.info'' := None))
     else Some ([], fs))"

definition vpn_request :: qentry where
  "vpn_request = [(''cmd'', ''set''), (''enable'', ''true''), (''userid'', ''unit7''), (''passwd'', ''pw''), (''vpn_ip'', ''10.1.1.1''),
     (''vpn_port'', ''443''), (''crypto'', ''aes''), (''log_size'', ''100''), (''version3'', ''no''), (''sts'', ''no'')]"

definition vpn_files :: files where
  "vpn_files = [''/etc/service/ssld'' \<mapsto> ''enabled'']"

lemma vpn_parse:
  "secuway_parse (''running'' @ [nl]) vpn_files secuway_zero =
    Inr (secuway_zero\<lparr>g_bIsRunning := True, g_bIsEnabled := True\<rparr>)"
  by (simp add: secuway_parse_def fscanf_word_def scanf_s_def scan_tok_def isspace_def secuway_conf_def Let_def vpn_files_def)

theorem secuway_set_roundtrip_witness:
  "\<exists>w' g' u. FTMC_SECUWAYSSL vpn_shell (web_world vpn_files vpn_request) = Inr (0, w') \<and>
    FTMC_LoadConfig vpn_shell secuway_zero w' = Inr (g', u) \<and> g_szVPNIP g' = ''10.1.1.1'' \<and>
    cmds w' = [ssld_status, secuway_copy, ssld_restart]"
proof -
  let ?w = "web_world vpn_files vpn_request"
  let ?g = "secuway_zero\<lparr>g_bIsRunning := True, g_bIsEnabled := True\<rparr>"
  let ?vs = "[''unit7'', ''pw'', ''10.1.1.1'', ''443'', ''aes'', ''100'', ''no'', ''no'']"
  have q: "getstr ?w ''cmd'' = Some ''set''" "getstr ?w ''enable'' = Some (if g_bIsEnabled ?g then ''true'' else ''false'')"
    "secuway_params ?w = map Some ?vs"
    by (simp_all add: vpn_request_def secuway_params_def cstr_def)
  have sh: "\<forall>fs. vpn_shell ssld_status (clock ?w) fs = Some (''running'' @ [nl], fs)"
    "moves vpn_shell secuway_copy ''/tmp/client.info'' secuway_conf" "\<forall>fs. vpn_shell ssld_restart (clock ?w) fs = Some ([], fs)"
    by (simp_all add: vpn_shell_def moves_def secuway_copy_def)
  have parse: "secuway_parse (''running'' @ [nl]) (files ?w) secuway_zero = Inr ?g" using vpn_parse by simp
  have vs: "?vs = (if ?vs ! 1 = [] then ?vs[1 := g_szUserPW ?g] else ?vs)" "\<forall>v \<in> set ?vs. vpn_value v"
    by (simp_all add: vpn_value_def plain_word_def isspace_def)
  have ne: "?vs \<noteq> secuway_values ?g" by (simp add: secuway_values_def secuway_zero_def)
  from secuway_set_roundtrip [OF q(1) parse sh(1) q(2,3) vs web_world_sel(2) sh(2,3)] ne
  have "\<exists>w' g' u. FTMC_SECUWAYSSL vpn_shell ?w = Inr (0, w') \<and> FTMC_LoadConfig vpn_shell secuway_zero w' = Inr (g', u) \<and>
      secuway_values g' = ?vs \<and> cmds w' = [ssld_status, secuway_copy, ssld_restart]" by simp
  then show ?thesis by (auto simp: secuway_values_def)
qed

text \<open>
  SSLPlus does not notice new settings. If the request leaves the service switched as it is, a
  successful \<open>set\<close> starts no restart of the service: after the status query and the load, at most the copy
  of the new file is started, whether or not user, password or host changed.
\<close>

theorem sslplus_set_no_restart:
  assumes "SSLPLUS_LoadConfig sh w = Inr (Some c, w1)" "getstr w1 ''active'' = Some (yes_no (sp_bActive c))"
    and "SSLPLUS_Set sh w = Inr (r, w')"
  shows "cmds w' = cmds w1 \<or> cmds w' = cmds w1 @ [sp_copy]"
proof -
  have sw: "sp_switch sh (getstr w1 ''active'') c w1 = Inr (False, w1)"
    using assms(2) by (simp add: sp_switch_def yes_no_def)
  have save: "cmds v = cmds w1 @ (if x = 0 then [sp_copy] else [])" "x = 0 \<or> x = - 1"
    if "SSLPLUS_SaveConfig sh d w1 = Inr (x, v)" for d x v
    using that by (auto simp: SSLPLUS_SaveConfig_def bindE_eq_Inr_iff split: if_splits dest: system_wait_cmds)
  let ?up = "sp_update (getstr w1 ''userid'') (getstr w1 ''passwd'') (getstr w1 ''host'') c"
  from assms(1,3) sw obtain d m where u: "?up = Inr (d, m)" by (auto simp: SSLPLUS_Set_def bindE_eq_Inr_iff)
  with assms(1,3) sw have "\<exists>x. (if m then SSLPLUS_SaveConfig sh d w1 else Inr (0, w1)) = Inr (x, w')"
    by (auto simp: SSLPLUS_Set_def bindE_eq_Inr_iff split: if_splits)
  then show ?thesis using save by (cases m) (auto split: if_splits)
qed

definition sp_shell :: shell where
  "sp_shell cmd t fs = (if cmd = ssld_status then Some (''running'' @ [nl], fs)
     else if cmd = sp_conv then Some (''login_id : unit7'' @ nl # ''login_pw : pw'' @ nl # ''host : 10.1.1.1'' @ [nl], fs)
     else Some ([], fs))"

definition sp_world :: cgi where
  "sp_world = web_world vpn_files [(''active'', ''yes''), (''userid'', ''unit8''), (''passwd'', []), (''host'', ''10.1.1.2'')]"

definition sp_config :: SSLPLUS_CONFIG where
  "sp_config = \<lparr>sp_bActive = True, sp_xStatus = PROC_STATUS_RUNNING, sp_szUserID = Some ''unit7'', sp_szPasswd = Some ''pw'',
     sp_szHostIP = Some ''10.1.1.1''\<rparr>"

lemma sp_world_load:
  obtains w1 where "SSLPLUS_LoadConfig sp_shell sp_world = Inr (Some sp_config, w1)" "getstr w1 ''active'' = Some ''yes''"
proof -
  have "case SSLPLUS_LoadConfig sp_shell sp_world of
      Inr (Some c, w1) \<Rightarrow> c = sp_config \<and> getstr w1 ''active'' = Some ''yes'' | _ \<Rightarrow> False"
    by code_simp
  then show thesis by (auto split: sum.splits prod.splits option.splits intro: that)
qed

lemma sp_world_set:
  obtains w' where "SSLPLUS_Set sp_shell sp_world = Inr (0, w')"
proof -
  have "case SSLPLUS_Set sp_shell sp_world of Inr (r, w') \<Rightarrow> r = 0 | _ \<Rightarrow> False"
    by code_simp
  then show thesis by (auto split: sum.splits prod.splits intro: that)
qed

theorem sslplus_set_no_restart_witness:
  "\<exists>w1 w'. SSLPLUS_LoadConfig sp_shell sp_world = Inr (Some sp_config, w1) \<and>
    SSLPLUS_Set sp_shell sp_world = Inr (0, w') \<and> (cmds w' = cmds w1 \<or> cmds w' = cmds w1 @ [sp_copy])"
proof -
  obtain w1 where w1: "SSLPLUS_LoadConfig sp_shell sp_world = Inr (Some sp_config, w1)" "getstr w1 ''active'' = Some ''yes''"
    by (rule sp_world_load)
  obtain w' where "SSLPLUS_Set sp_shell sp_world = Inr (0, w')" by (rule sp_world_set)
  with w1 sslplus_set_no_restart [of sp_shell sp_world sp_config w1 0 w'] show ?thesis
    by (auto simp: sp_config_def yes_no_def)
qed

end
