(* ===== verification/Port.thy ===== *)
theory Port
  imports Forms
begin

text \<open>
  The modem port \<open>/dev/ttyS1\<close> as \<open>www/cgi-src/ota.c\<close> and the programs of \<open>uitool\<close> use it: opened without
  blocking, a command is written and the answers are polled until one of them is recognised, which may
  never happen. The polling is one partial function with the recogniser as an argument.
\<close>

text \<open>
  The port as the process finds it: the descriptor or failure of \<open>open\<close>, the error text of
  \<open>tcsetattr\<close> if it fails, and the result of the n-th \<open>read\<close>, \<open>None\<close> for an error and otherwise the bytes.
\<close>

record modem_port =
  mp_fd :: "int option"
  mp_setattr :: "string option"
  mp_read :: "nat \<Rightarrow> string option"

abbreviation MODEM :: string where "MODEM \<equiv> ''/dev/ttyS1''"

text \<open>
  \<open>res = read(fd, buf, 255); buf[res] = 0;\<close> on an array of 255 bytes. The terminator is outside of it for a
  result of \<open>-1\<close>, which is also what a descriptor of \<open>-1\<close> gives, and for a full buffer.
\<close>

definition port_read :: "modem_port \<Rightarrow> nat \<Rightarrow> string res" where
  "port_read m n = (case (if mp_fd m = None then None else mp_read m n) of
      None \<Rightarrow> Inl BufferOverflow
    | Some bs \<Rightarrow> if 255 \<le> length bs then Inl BufferOverflow else Inr (cstr bs))"

text \<open>The loop, from the n-th \<open>read\<close> on; \<open>code\<close> recognises an answer that ends it.\<close>

partial_function (option) poll :: "(string \<Rightarrow> 'r option) \<Rightarrow> modem_port \<Rightarrow> nat \<Rightarrow> 'r run" where
  "poll code m n = (case port_read m n of
      Inl f \<Rightarrow> Some (Inl f)
    | Inr buf \<Rightarrow> (case code buf of
        Some r \<Rightarrow> Some (Inr r)
      | None \<Rightarrow> poll code m (Suc n)))"

section \<open>How the wait ends\<close>

definition silent :: "(string \<Rightarrow> 'r option) \<Rightarrow> modem_port \<Rightarrow> nat \<Rightarrow> bool" where
  "silent code m n \<longleftrightarrow> (\<exists>buf. port_read m n = Inr buf \<and> code buf = None)"

text \<open>The first \<open>read\<close> that is not silent, as the loop reports it.\<close>

definition report :: "(string \<Rightarrow> 'r option) \<Rightarrow> modem_port \<Rightarrow> nat \<Rightarrow> 'r res" where
  "report code m k = bindE (port_read m k) (\<lambda>buf. Inr (the (code buf)))"

lemma poll_wait:
  assumes "\<And>i. n \<le> i \<Longrightarrow> i < k \<Longrightarrow> silent code m i" "n \<le> k"
  shows "poll code m n = poll code m k"
  using assms
proof (induction "k - n" arbitrary: n)
  case (Suc d)
  then have "silent code m n" by simp
  then have "poll code m n = poll code m (Suc n)" by (subst poll.simps) (auto simp: silent_def)
  also have "\<dots> = poll code m k" using Suc by (intro Suc.hyps(1)) auto
  finally show ?case .
qed simp

lemma poll_report:
  assumes "\<not> silent code m k"
  shows "poll code m k = Some (report code m k)"
proof (cases "port_read m k")
  case (Inl f)
  then show ?thesis by (subst poll.simps) (simp add: report_def)
next
  case (Inr buf)
  with assms obtain c where "code buf = Some c" by (auto simp: silent_def)
  with Inr show ?thesis by (subst poll.simps) (simp add: report_def)
qed

lemma poll_returns:
  assumes "poll code m n = Some r"
  shows "\<exists>k. \<not> silent code m k"
proof (rule poll.raw_induct [OF _ assms, of "\<lambda>code m n r. \<exists>k. \<not> silent code m k"])
  fix loop and code :: "string \<Rightarrow> 'a option" and m n r
  assume IH: "\<And>code m n r. loop code m n = Some r \<Longrightarrow> \<exists>k. \<not> silent code m k"
    and step: "(case port_read m n of Inl f \<Rightarrow> Some (Inl f)
      | Inr buf \<Rightarrow> (case code buf of Some r \<Rightarrow> Some (Inr r) | None \<Rightarrow> loop code m (Suc n))) = Some r"
  show "\<exists>k. \<not> silent code m k"
  proof (cases "silent code m n")
    case True
    with step have "loop code m (Suc n) = Some r" by (auto simp: silent_def)
    then show ?thesis by (rule IH)
  qed blast
qed

text \<open>
  Polling ends exactly if some \<open>read\<close> is not silent, and then with the report of the first one.
\<close>

lemma poll_outcome:
  "poll code m 0 = (if \<exists>k. \<not> silent code m k then Some (report code m (LEAST k. \<not> silent code m k)) else None)"
proof (cases "\<exists>k. \<not> silent code m k")
  case False
  then show ?thesis using poll_returns [of code m 0] by (cases "poll code m 0") auto
next
  case True
  define k where "k = (LEAST k. \<not> silent code m k)"
  have "\<not> silent code m k" unfolding k_def using True by (rule LeastI_ex)
  moreover have "silent code m i" if "i < k" for i using not_less_Least that unfolding k_def by blast
  ultimately have "poll code m 0 = Some (report code m k)" using poll_wait [of 0 k code m] poll_report [of code m k] by simp
  with True show ?thesis unfolding k_def by simp
qed

lemma poll_first:
  assumes "mp_fd m \<noteq> None" "mp_read m 0 = Some bs" "length bs < 255" "code (cstr bs) = Some r"
  shows "poll code m 0 = Some (Inr r)"
  using assms by (subst poll.simps) (simp add: port_read_def)

end
