(* ===== verification/Ota.thy ===== *)
theory Ota
  imports Port
begin

text \<open>
  \<open>www/cgi-src/ota.c\<close>: the page that asks the modem for an over-the-air activation. The serial port is
  opened without blocking, a command is written and the answers are polled until one of three codes
  arrives, which may never happen.
\<close>

text \<open>The settings the code makes out of the ones it finds.\<close>

definition raw_options :: "termios \<Rightarrow> termios" where
  "raw_options options = (let options = cfsetspeed B115200 options in
     options\<lparr>c_cflag := map_option (\<lambda>f. (((f OR (CLOCAL OR CREAD)) AND NOT (CSIZE OR PARENB OR CSTOPB OR CSIZE)) OR CS8)
         AND NOT CRTSCTS) (c_cflag options),
       c_lflag := map_option (\<lambda>f. f AND NOT (ICANON OR ECHO OR ECHOE OR ISIG)) (c_lflag options),
       c_iflag := map_option (\<lambda>f. f AND NOT (IXON OR IXOFF OR IXANY OR ICRNL OR INLCR OR IGNCR)) (c_iflag options),
       c_oflag := map_option (\<lambda>f. f AND NOT OPOST) (c_oflag options)\<rparr>)"

definition open_port :: "modem_port \<Rightarrow> cgi \<Rightarrow> int \<times> cgi" where
  "open_port m w = (case mp_fd m of
      None \<Rightarrow> (- 1, puts ''open_port: Unable to open the port - '' w)
    | Some fd \<Rightarrow>
       (fd, let w = puts (''Port '' @ MODEM @ '' with file descriptor='' @ show_int fd) w in
         case mp_setattr m of
           Some err \<Rightarrow> puts (''Error with tcsetattr = '' @ err @ [nl]) w
         | None \<Rightarrow> puts (''succeed'' @ [nl]) (w\<lparr>modem_tty := raw_options (modem_tty w)\<rparr>)))"

text \<open>\<open>write\<close> on the descriptor of a port that could not be opened does nothing.\<close>

definition modem_write :: "int \<Rightarrow> string \<Rightarrow> cgi \<Rightarrow> cgi" where
  "modem_write fd text w = (if fd < 0 then w else w\<lparr>modem_sent := modem_sent w @ [text]\<rparr>)"

definition ota_answer :: "string \<Rightarrow> cgi \<Rightarrow> cgi" where
  "ota_answer result w = say [open_tag ''OTA_REQUEST'', elem ''RESULT'' result, close_tag ''OTA_REQUEST''] (XML_PutHeader w)"

text \<open>The three codes that end the wait, in the order in which they are looked for.\<close>

definition ota_code :: "string \<Rightarrow> string option" where
  "ota_code buf =
     (if strstr buf ''#105'' then Some ''SUCCESS''
      else if strstr buf ''#308:3'' then Some ''STOP''
      else if strstr buf ''#308:7'' then Some ''RESTART''
      else None)"

definition FTMC_OTA :: "shell \<Rightarrow> modem_port \<Rightarrow> service" where
  "FTMC_OTA sh m w = (let lpszCmd = getstr w ''cmd''; (serialFD, w) = open_port m w in
     case lpszCmd of
       None \<Rightarrow> Some (Inl NullPointer)
     | Some cmd \<Rightarrow>
        if cmd = ''status'' then Some (Inr (0, w))
        else if cmd = ''ota'' then (let w = modem_write serialFD (''AT#COMS=00'' @ [cr]) w in
          bindR (poll ota_code m 0) (\<lambda>result. Some (Inr (0, ota_answer result w))))
        else if cmd = ''pppd'' then
          (case popen sh ''service pppd stop'' (snd (popen sh ''killall mmon'' w)) of
             (Some _, w) \<Rightarrow> Some (Inr (0, ota_answer ''OK'' w))
           | (None, w) \<Rightarrow> Some (Inr (0, w)))
        else if cmd = ''modem'' then
          (case popen sh ''service mdmctrl restart'' w of
             (Some _, w) \<Rightarrow> Some (Inr (0, ota_answer ''OK'' w))
           | (None, w) \<Rightarrow> Some (Inr (0, w)))
        else Some (Inr (0, w)))"

section \<open>Properties of the activation page\<close>

text \<open>Whatever was set before, the port then runs at 115200 baud with 8 bits, no parity and one stop bit.\<close>

lemma raw_options_8N1:
  assumes "c_cflag t = Some f"
  shows "\<exists>g. c_cflag (raw_options t) = Some g \<and> g AND CBAUD = B115200 \<and> g AND CSIZE = CS8 \<and>
    g AND (PARENB OR CSTOPB OR CRTSCTS) = 0 \<and> g AND (CLOCAL OR CREAD) = CLOCAL OR CREAD"
  using assms
  by (auto simp: raw_options_def cfsetspeed_def tty_flags B115200_def Let_def word_ao_dist word_bw_assocs)

text \<open>An answer of the modem that decides nothing: read in full, and with none of the codes in it.\<close>

definition undecided :: "modem_port \<Rightarrow> nat \<Rightarrow> bool" where
  "undecided m i \<longleftrightarrow> (\<exists>bs. mp_read m i = Some bs \<and> length bs < 255 \<and>
     \<not> strstr (cstr bs) ''#105'' \<and> \<not> strstr (cstr bs) ''#308:3'' \<and> \<not> strstr (cstr bs) ''#308:7'')"

lemma undecided_silent: "mp_fd m = Some fd \<Longrightarrow> silent ota_code m i \<longleftrightarrow> undecided m i"
  by (auto simp: silent_def undecided_def port_read_def ota_code_def split: option.splits if_splits)

lemma poll_decided:
  assumes "mp_fd m = Some fd" "\<forall>i < k. undecided m i" "\<not> undecided m k"
  shows "poll ota_code m 0 = Some (report ota_code m k)"
  using poll_wait [of 0 k ota_code m] poll_report [of ota_code m k] assms undecided_silent [OF assms(1)] by simp

lemma out_header_sent: "out (XML_PutHeader (v\<lparr>modem_sent := x\<rparr>)) = out (XML_PutHeader v)"
  by (simp add: XML_PutHeader_def qcgires_setcontenttype_def getstr_def)

lemma modem_sent_answer: "modem_sent (ota_answer r v) = modem_sent v"
  by (simp add: ota_answer_def XML_PutHeader_def qcgires_setcontenttype_def say_def print_def puts_def)

lemma ota_run:
  assumes "getstr w ''cmd'' = Some ''ota''" "mp_fd m = Some fd" "0 \<le> fd"
  obtains u where "FTMC_OTA sh m w = bindR (poll ota_code m 0) (\<lambda>result. Some (Inr (0, ota_answer result u)))"
    "modem_sent u = modem_sent w @ [''AT#COMS=00'' @ [cr]]" "files u = files w" "pool u = pool w"
    "out (XML_PutHeader u) = out (XML_PutHeader (snd (open_port m w)))" "cmds u = cmds w"
proof -
  let ?u = "modem_write fd (''AT#COMS=00'' @ [cr]) (snd (open_port m w))"
  have o: "open_port m w = (fd, snd (open_port m w))" using assms(2) by (simp add: open_port_def)
  have r: "FTMC_OTA sh m w = bindR (poll ota_code m 0) (\<lambda>result. Some (Inr (0, ota_answer result ?u)))"
    using assms(1) by (subst FTMC_OTA_def, subst o) (simp add: Let_def)
  show thesis
    by (rule that [of ?u, OF r]) (use assms(2,3) in \<open>auto simp: modem_write_def out_header_sent open_port_def Let_def puts_def split: option.split\<close>)
qed

text \<open>
  C33. The outcome. \<open>ota\<close> writes \<open>AT#COMS=00\<close> and a carriage return to the open port and reads until an answer has one of the codes. For
  the first answer that is not short and without a code: \<open>#105\<close> gives the result \<open>SUCCESS\<close>, else \<open>#308:3\<close> gives \<open>STOP\<close>,
  else \<open>#308:7\<close> gives \<open>RESTART\<close>, in exactly one page, and files, sessions and commands are as before. A \<open>read\<close> that fails or
  fills the buffer makes the code write its terminator outside of the buffer. Without any such answer the
  request never ends.
\<close>

theorem ota_outcome:
  assumes "getstr w ''cmd'' = Some ''ota''" "mp_fd m = Some fd" "0 \<le> fd"
  shows "(\<forall>k bs. (\<forall>i < k. undecided m i) \<and> mp_read m k = Some bs \<and> length bs < 255 \<longrightarrow>
      (\<forall>result. (result = ''SUCCESS'' \<and> strstr (cstr bs) ''#105'' \<or>
          result = ''STOP'' \<and> \<not> strstr (cstr bs) ''#105'' \<and> strstr (cstr bs) ''#308:3'' \<or>
          result = ''RESTART'' \<and> \<not> strstr (cstr bs) ''#105'' \<and> \<not> strstr (cstr bs) ''#308:3'' \<and> strstr (cstr bs) ''#308:7'') \<longrightarrow>
        (\<exists>w'. FTMC_OTA sh m w = Some (Inr (0, w')) \<and> modem_sent w' = modem_sent w @ [''AT#COMS=00'' @ [cr]] \<and>
           out w' = out (XML_PutHeader (snd (open_port m w))) @
             concat (map line [''<OTA_REQUEST>'', ''<RESULT>'' @ result @ ''</RESULT>'', ''</OTA_REQUEST>'']) \<and>
           files w' = files w \<and> pool w' = pool w \<and> cmds w' = cmds w))) \<and>
    (\<forall>k. (\<forall>i < k. undecided m i) \<and> (\<forall>bs. mp_read m k = Some bs \<longrightarrow> 255 \<le> length bs) \<longrightarrow>
      FTMC_OTA sh m w = Some (Inl BufferOverflow)) \<and>
    ((\<forall>i. undecided m i) \<longrightarrow> FTMC_OTA sh m w = None)"
proof -
  obtain u where u: "FTMC_OTA sh m w = bindR (poll ota_code m 0) (\<lambda>result. Some (Inr (0, ota_answer result u)))"
    "modem_sent u = modem_sent w @ [''AT#COMS=00'' @ [cr]]" "files u = files w" "pool u = pool w"
    "out (XML_PutHeader u) = out (XML_PutHeader (snd (open_port m w)))" "cmds u = cmds w"
    by (rule ota_run [OF assms])
  have page: "\<exists>w'. FTMC_OTA sh m w = Some (Inr (0, w')) \<and> modem_sent w' = modem_sent w @ [''AT#COMS=00'' @ [cr]] \<and>
      out w' = out (XML_PutHeader (snd (open_port m w))) @
        concat (map line [''<OTA_REQUEST>'', ''<RESULT>'' @ r @ ''</RESULT>'', ''</OTA_REQUEST>'']) \<and>
      files w' = files w \<and> pool w' = pool w \<and> cmds w' = cmds w"
    if "poll ota_code m 0 = Some (Inr r)" for r
    using u that
    by (simp add: modem_sent_answer) (simp add: ota_answer_def elem_def open_tag_def close_tag_def)
  have decide: "poll ota_code m 0 = Some (report ota_code m k)" if "\<forall>i < k. undecided m i" "\<not> undecided m k" for k
    using poll_decided [OF assms(2)] that by blast
  have 1: "poll ota_code m 0 = Some (Inr result)"
    if "\<forall>i < k. undecided m i" "mp_read m k = Some bs" "length bs < 255" "ota_code (cstr bs) = Some result" for k bs result
    using decide [OF that(1)] that(2-4) assms(2)
    by (simp add: undecided_def report_def port_read_def ota_code_def split: if_splits)
  have 2: "poll ota_code m 0 = Some (Inl BufferOverflow)"
    if "\<forall>i < k. undecided m i" "\<forall>bs. mp_read m k = Some bs \<longrightarrow> 255 \<le> length bs" for k
    using decide [OF that(1)] that(2) assms(2)
    by (cases "mp_read m k") (auto simp: undecided_def report_def port_read_def)
  have 3: "poll ota_code m 0 = None" if "\<forall>i. undecided m i"
    using that undecided_silent [OF assms(2)] by (simp add: poll_outcome)
  show ?thesis
  proof (intro conjI allI impI)
    fix k bs result
    assume "(\<forall>i < k. undecided m i) \<and> mp_read m k = Some bs \<and> length bs < 255"
      and "result = ''SUCCESS'' \<and> strstr (cstr bs) ''#105'' \<or>
          result = ''STOP'' \<and> \<not> strstr (cstr bs) ''#105'' \<and> strstr (cstr bs) ''#308:3'' \<or>
          result = ''RESTART'' \<and> \<not> strstr (cstr bs) ''#105'' \<and> \<not> strstr (cstr bs) ''#308:3'' \<and> strstr (cstr bs) ''#308:7''"
    then have "poll ota_code m 0 = Some (Inr result)" by (intro 1 [of k bs]) (auto simp: ota_code_def)
    then show "\<exists>w'. FTMC_OTA sh m w = Some (Inr (0, w')) \<and> modem_sent w' = modem_sent w @ [''AT#COMS=00'' @ [cr]] \<and>
      out w' = out (XML_PutHeader (snd (open_port m w))) @
        concat (map line [''<OTA_REQUEST>'', ''<RESULT>'' @ result @ ''</RESULT>'', ''</OTA_REQUEST>'']) \<and>
      files w' = files w \<and> pool w' = pool w \<and> cmds w' = cmds w" by (rule page)
  next
    fix k assume "(\<forall>i < k. undecided m i) \<and> (\<forall>bs. mp_read m k = Some bs \<longrightarrow> 255 \<le> length bs)"
    then show "FTMC_OTA sh m w = Some (Inl BufferOverflow)" using 2 [of k] u(1) by simp
  next
    assume "\<forall>i. undecided m i"
    then show "FTMC_OTA sh m w = None" using 3 u(1) by simp
  qed
qed

definition demo_port :: "string option \<Rightarrow> modem_port" where
  "demo_port first = \<lparr>mp_fd = Some 3, mp_setattr = None, mp_read = (\<lambda>n. if n = 0 then first else Some ''#105'')\<rparr>"

text \<open>The echo of the command first, then the code for a card that is not registered.\<close>

definition stop_port :: modem_port where
  "stop_port = \<lparr>mp_fd = Some 3, mp_setattr = None, mp_read = (\<lambda>n. Some (if n = 0 then ''AT'' else ''#308:3''))\<rparr>"

theorem ota_outcome_witness:
  "(\<exists>w'. FTMC_OTA web_shell stop_port (web_world Map.empty [(''cmd'', ''ota'')]) = Some (Inr (0, w')) \<and>
     modem_sent w' = [''AT#COMS=00'' @ [cr]]) \<and>
   FTMC_OTA web_shell (demo_port None) (web_world Map.empty [(''cmd'', ''ota'')]) = Some (Inl BufferOverflow)"
proof
  let ?w = "web_world Map.empty [(''cmd'', ''ota'')]"
  have c: "getstr ?w ''cmd'' = Some ''ota''" by (simp add: cstr_def)
  have s: "mp_fd stop_port = Some 3" "mp_fd (demo_port None) = Some 3" "modem_sent ?w = []"
    by (simp_all add: stop_port_def demo_port_def web_world_def)
  have p: "\<forall>i < 1. undecided stop_port i" "mp_read stop_port 1 = Some ''#308:3''"
    "\<not> strstr (cstr ''#308:3'') ''#105''" "strstr (cstr ''#308:3'') ''#308:3''"
    by (simp_all add: undecided_def stop_port_def cstr_def)
  show "\<exists>w'. FTMC_OTA web_shell stop_port ?w = Some (Inr (0, w')) \<and> modem_sent w' = [''AT#COMS=00'' @ [cr]]"
    using ota_outcome [OF c s(1), of web_shell, THEN conjunct1, rule_format, of 1 "''#308:3''" "''STOP''"] p s(3) by auto
  show "FTMC_OTA web_shell (demo_port None) ?w = Some (Inl BufferOverflow)"
    using ota_outcome [OF c s(2), of web_shell, THEN conjunct2, THEN conjunct1, rule_format, of 0]
    by (simp add: demo_port_def)
qed

end
