(* ===== verification/Query.thy ===== *)
theory Query
  imports Cgi
begin

text \<open>
  The request as it arrives: \<open>qcgireq.c\<close> and \<open>internal.c\<close> of the bundled \<open>qdecoder\<close> library decode the
  environment and the standard input of the process into the list that the handlers read. This theory
  has URL decoding and the three sources of a query; bodies in several parts are in \<open>Multipart\<close>.
  A \<open>char\<close> is unsigned, as on the ARM target.
\<close>

unbundle bit_operations_syntax

type_synonym env = "string \<Rightarrow> string option"

section \<open>URL encoding (internal.c)\<close>

definition x2c_digit :: "char \<Rightarrow> int" where
  "x2c_digit h = (if 65 \<le> (of_char h :: int) then ((of_char h AND 0xDF) - 65) + 10 else of_char h - 48)"

definition q_x2c :: "char \<Rightarrow> char \<Rightarrow> char" where
  "q_x2c hex_up hex_low = char_of ((16 * x2c_digit hex_up + x2c_digit hex_low) mod 256)"

text \<open>The part of a string before a stop character, and what is left of the string behind it.\<close>

definition q_makeword :: "char \<Rightarrow> string \<Rightarrow> string \<times> string" where
  "q_makeword stop str = (takeWhile (\<lambda>c. c \<noteq> stop) str, tl (dropWhile (\<lambda>c. c \<noteq> stop) str))"

text \<open>\<open>URLCHARTBL\<close>: the characters that stand for themselves.\<close>

definition url_plain :: "char \<Rightarrow> bool" where
  "url_plain c \<longleftrightarrow> c \<in> set (''-./0123456789:@ABCDEFGHIJKLMNOPQRSTUVWXYZ'' @ [CHR 0x5C] @ ''_abcdefghijklmnopqrstuvwxyz'')"

definition url_digit :: "nat \<Rightarrow> char" where
  "url_digit d = char_of (if d < 10 then d + 48 else (d - 10) + 97)"

definition url_char :: "char \<Rightarrow> string" where
  "url_char c = (if url_plain c then [c] else [CHR ''%'', url_digit (of_char c div 16), url_digit (of_char c mod 16)])"

definition q_urlencode :: "string \<Rightarrow> string" where
  "q_urlencode bin = concat (map url_char bin)"

text \<open>
  Decoding in place. Behind a percent sign two more characters are taken without a look at the terminator,
  so a string that ends too early is read past its end.
\<close>

fun q_urldecode :: "string \<Rightarrow> string res" where
  "q_urldecode [] = Inr []"
| "q_urldecode (c # s) =
     (if c = CHR ''+'' then map_sum id (Cons (CHR '' '')) (q_urldecode s)
      else if c = CHR ''%'' then
        (case s of u # l # t \<Rightarrow> map_sum id (Cons (q_x2c u l)) (q_urldecode t) | _ \<Rightarrow> Inl OutOfBoundsRead)
      else map_sum id (Cons c) (q_urldecode s))"

definition trim_char :: "char \<Rightarrow> bool" where
  "trim_char c \<longleftrightarrow> c = CHR '' '' \<or> c = CHR 0x09 \<or> c = cr \<or> c = nl"

definition q_strtrim :: "string \<Rightarrow> string" where
  "q_strtrim str = rev (dropWhile trim_char (rev (dropWhile trim_char str)))"

section \<open>Queries (qcgireq.c)\<close>

lemma makeword_shorter: "q \<noteq> [] \<Longrightarrow> length (snd (q_makeword stop q)) < length q"
  using length_dropWhile_le [of "\<lambda>c. c \<noteq> stop" q] length_greater_0_conv [of q]
  unfolding q_makeword_def snd_conv length_tl by linarith

function parse_query :: "char \<Rightarrow> char \<Rightarrow> string \<Rightarrow> qentry \<Rightarrow> qentry res" where
  "parse_query equalchar sepchar newquery request = (if newquery = [] then Inr request
     else let (word, newquery') = q_makeword sepchar newquery; (name, value) = q_makeword equalchar word in
       bindE (q_urldecode (q_strtrim name)) (\<lambda>name. bindE (q_urldecode value) (\<lambda>value.
         parse_query equalchar sepchar newquery' (qentry_putstr request (cstr name) (cstr value) False))))"
  by pat_completeness auto
termination
  by (relation "measure (\<lambda>(e, s, q, r). length q)") (auto dest: makeword_shorter [of _ _] simp: prod_eq_iff)

declare parse_query.simps [simp del]

text \<open>
  \<open>qcgireq_getquery\<close> for its three methods. The body of a POST is read byte by byte; at the end of the stream
  \<open>fgetc\<close> yields \<open>EOF\<close>, which is stored as the character 0xFF. The length is not checked: with -1 no memory is
  allocated for the terminator, with any other negative one (and with \<open>cl + 1\<close> beyond an \<open>int\<close>) \<open>malloc\<close> fails.
\<close>

definition getquery_get :: "env \<Rightarrow> string option" where
  "getquery_get getenv = (case getenv ''QUERY_STRING'' of
      None \<Rightarrow> None
    | Some query_string \<Rightarrow>
       (case getenv ''REQUEST_URI'' of
          Some req_uri \<Rightarrow> if query_string = [] then Some (tl (dropWhile (\<lambda>c. c \<noteq> CHR ''?'') req_uri)) else Some query_string
        | None \<Rightarrow> Some query_string))"

definition getquery_cookie :: "env \<Rightarrow> string option" where
  "getquery_cookie getenv = getenv ''HTTP_COOKIE''"

definition fgetc_n :: "nat \<Rightarrow> string \<Rightarrow> string" where
  "fgetc_n n stdin = take n stdin @ replicate (n - length stdin) (CHR 0xFF)"

definition getquery_post :: "env \<Rightarrow> string \<Rightarrow> (string option \<times> string) res" where
  "getquery_post getenv stdin =
     (case (getenv ''REQUEST_METHOD'', getenv ''CONTENT_LENGTH'') of
        (Some request_method, Some content_length) \<Rightarrow>
          if request_method \<noteq> ''POST'' then Inr (None, stdin)
          else let cl = atoi content_length in
            if cl = - 1 then Inl BufferOverflow
            else if cl < 0 \<or> cl = 2147483647 then Inl NullPointer
            else Inr (Some (cstr (fgetc_n (nat cl) stdin)), drop (nat cl) stdin)
      | _ \<Rightarrow> Inr (None, stdin))"

definition parse_opt :: "char \<Rightarrow> char \<Rightarrow> string option \<Rightarrow> qentry \<Rightarrow> qentry res" where
  "parse_opt equalchar sepchar query request = (case query of
      None \<Rightarrow> Inr request
    | Some q \<Rightarrow> parse_query equalchar sepchar q request)"

section \<open>Decoding what was encoded\<close>

lemma x2c_url_digit: "d < 16 \<Longrightarrow> x2c_digit (url_digit d) = int d"
proof -
  have "list_all (\<lambda>d. x2c_digit (url_digit d) = int d) [0..<16]" by code_simp
  then show "d < 16 \<Longrightarrow> ?thesis" by (simp add: list_all_iff)
qed

lemma char_nibble: "of_char c div 16 < (16 :: nat)" for c :: char
proof -
  have "(of_char c :: nat) < 16 * 16" using nat_of_char_less_256 [of c] by simp
  then show ?thesis by (rule less_mult_imp_div_less)
qed

lemma x2c_url_char: "q_x2c (url_digit (of_char c div 16)) (url_digit (of_char c mod 16)) = c"
proof -
  let ?n = "of_char c :: nat"
  have "?n < 256" using nat_of_char_less_256 [of c] .
  then have "x2c_digit (url_digit (?n div 16)) = int (?n div 16)" "x2c_digit (url_digit (?n mod 16)) = int (?n mod 16)"
    by (simp_all add: x2c_url_digit char_nibble)
  moreover have "16 * int (?n div 16) + int (?n mod 16) = int ?n" by presburger
  ultimately have "q_x2c (url_digit (?n div 16)) (url_digit (?n mod 16)) = char_of (int ?n mod 256)"
    unfolding q_x2c_def by (simp only:)
  then show ?thesis using \<open>?n < 256\<close> by simp
qed

lemma url_plain_char: "url_plain c \<Longrightarrow> c \<notin> {CHR ''+'', CHR ''%'', CHR ''&'', CHR ''='', CHR '';'', nul} \<and> \<not> trim_char c"
  by (auto simp: url_plain_def trim_char_def)

lemma urldecode_url_char: "q_urldecode (url_char c @ t) = map_sum id (Cons c) (q_urldecode t)"
  by (auto simp: url_char_def x2c_url_char dest: url_plain_char)

lemma urldecode_urlencode: "q_urldecode (q_urlencode s) = Inr s"
  by (induction s) (simp_all add: q_urlencode_def urldecode_url_char)

text \<open>The separators of a query do not occur in an encoded string.\<close>

definition url_safe :: "char \<Rightarrow> bool" where
  "url_safe c \<longleftrightarrow> url_plain c \<or> c = CHR ''%''"

lemma url_safe_char: "url_safe c \<Longrightarrow> c \<notin> {CHR ''&'', CHR ''='', CHR '';'', nul} \<and> \<not> trim_char c"
  using url_plain_char [of c] by (auto simp: url_safe_def trim_char_def)

lemma url_digit_plain: "d < 16 \<Longrightarrow> url_plain (url_digit d)"
proof -
  have "list_all (\<lambda>d. url_plain (url_digit d)) [0..<16]" by code_simp
  then show "d < 16 \<Longrightarrow> ?thesis" by (simp add: list_all_iff)
qed

lemma urlencode_safe: "c \<in> set (q_urlencode s) \<Longrightarrow> url_safe c"
  by (auto simp: q_urlencode_def url_char_def url_safe_def url_digit_plain char_nibble split: if_splits)

lemma strtrim_id: "\<forall>c \<in> set s. \<not> trim_char c \<Longrightarrow> q_strtrim s = s"
proof -
  assume a: "\<forall>c \<in> set s. \<not> trim_char c"
  then have "dropWhile trim_char s = s" by (cases s) auto
  moreover from a have "dropWhile trim_char (rev s) = rev s" by (cases s rule: rev_cases) auto
  ultimately show ?thesis by (simp add: q_strtrim_def)
qed

lemma strtrim_edges: "l \<noteq> [] \<Longrightarrow> \<not> trim_char (hd l) \<Longrightarrow> \<not> trim_char (last l) \<Longrightarrow> \<forall>c \<in> set e. trim_char c \<Longrightarrow> q_strtrim (l @ e) = l"
proof -
  assume a: "l \<noteq> []" "\<not> trim_char (hd l)" "\<not> trim_char (last l)" "\<forall>c \<in> set e. trim_char c"
  have "dropWhile trim_char (l @ e) = l @ e" using a(1,2) by (cases l) auto
  moreover have "dropWhile trim_char (rev e @ rev l) = dropWhile trim_char (rev l)"
    using a(4) by (subst dropWhile_append2) auto
  moreover have "dropWhile trim_char (rev l) = rev l" using a(1,3) by (cases l rule: rev_cases) auto
  ultimately show ?thesis by (simp add: q_strtrim_def)
qed

lemma makeword_stop: "stop \<notin> set a \<Longrightarrow> q_makeword stop (a @ stop # b) = (a, b)"
  by (induction a) (auto simp: q_makeword_def)

lemma makeword_end: "stop \<notin> set a \<Longrightarrow> q_makeword stop a = (a, [])"
  by (induction a) (auto simp: q_makeword_def)

text \<open>A form as a client encodes it.\<close>

definition form_field :: "string \<times> string \<Rightarrow> string" where
  "form_field f = q_urlencode (fst f) @ CHR ''='' # q_urlencode (snd f)"

fun form_text :: "char \<Rightarrow> qentry \<Rightarrow> string" where
  "form_text sepchar [] = []"
| "form_text sepchar [f] = form_field f"
| "form_text sepchar (f # fs) = form_field f @ sepchar # form_text sepchar fs"

definition plain_form :: "qentry \<Rightarrow> bool" where
  "plain_form fs \<longleftrightarrow> list_all (\<lambda>(n, v). nul \<notin> set n \<and> nul \<notin> set v) fs"

lemma parse_field:
  assumes "nul \<notin> set n" "nul \<notin> set v" "sepchar \<notin> set (form_field (n, v))" "rest = [] \<or> hd rest = sepchar"
  shows "parse_query (CHR ''='') sepchar (form_field (n, v) @ rest) request =
    parse_query (CHR ''='') sepchar (tl rest) (request @ [(n, v)])"
proof -
  let ?n = "q_urlencode n" and ?v = "q_urlencode v"
  have eq: "CHR ''='' \<notin> set ?n" using urlencode_safe [of _ n] url_safe_char by blast
  have trim: "q_strtrim ?n = ?n" by (rule strtrim_id) (use urlencode_safe [of _ n] url_safe_char in blast)
  have w: "q_makeword sepchar (form_field (n, v) @ rest) = (form_field (n, v), tl rest)"
    using assms(3,4) by (cases rest) (auto simp: makeword_stop makeword_end)
  have f: "q_makeword (CHR ''='') (form_field (n, v)) = (?n, ?v)" by (simp add: form_field_def makeword_stop eq)
  show ?thesis
    by (subst parse_query.simps) (use assms(1,2) in \<open>simp add: w f trim urldecode_urlencode cstr_id qentry_putstr_def form_field_def [symmetric], simp add: form_field_def\<close>)
qed

lemma form_field_seps: "{CHR ''&'', CHR '';'', nul} \<inter> set (form_field f) = {}"
  using urlencode_safe [of _ "fst f"] urlencode_safe [of _ "snd f"] url_safe_char by (fastforce simp: form_field_def)

lemma parse_form:
  assumes "plain_form fs" "sepchar \<in> {CHR ''&'', CHR '';''}"
  shows "parse_query (CHR ''='') sepchar (form_text sepchar fs) request = Inr (request @ fs)"
  using assms
proof (induction sepchar fs arbitrary: request rule: form_text.induct)
  case (1 sepchar)
  then show ?case by (simp add: parse_query.simps)
next
  case (2 sepchar f)
  moreover obtain n v where f: "f = (n, v)" by (cases f)
  ultimately have "parse_query (CHR ''='') sepchar (form_field f @ []) request = parse_query (CHR ''='') sepchar (tl []) (request @ [f])"
    using form_field_seps [of f] unfolding f by (intro parse_field) (auto simp: plain_form_def)
  then show ?case by (simp add: parse_query.simps [of _ _ "[]"])
next
  case (3 sepchar f g fs)
  obtain n v where f: "f = (n, v)" by (cases f)
  let ?rest = "sepchar # form_text sepchar (g # fs)"
  have "parse_query (CHR ''='') sepchar (form_field f @ ?rest) request = parse_query (CHR ''='') sepchar (tl ?rest) (request @ [f])"
    using 3(2,3) form_field_seps [of f] unfolding f by (intro parse_field) (auto simp: plain_form_def)
  with 3 show ?case by (simp add: plain_form_def)
qed

lemma form_text_no_nul: "sepchar \<noteq> nul \<Longrightarrow> nul \<notin> set (form_text sepchar fs)"
  by (induction sepchar fs rule: form_text.induct) (use form_field_seps in auto)

section \<open>An escape that is cut off\<close>

lemma urldecode_cut: "q_urldecode s = Inr t \<Longrightarrow> length r < 2 \<Longrightarrow> q_urldecode (s @ CHR ''%'' # r) = Inl OutOfBoundsRead"
proof (induction s arbitrary: t rule: q_urldecode.induct)
  case 1
  then show ?case by (auto split: list.splits)
next
  case (2 c s)
  show ?case
  proof (cases "c = CHR ''%''")
    case True
    with 2 show ?thesis by (auto split: list.splits sum.splits simp: map_sum_def)
  next
    case False
    with 2 show ?thesis by (cases "c = CHR ''+''"; cases "q_urldecode s") auto
  qed
qed

end
