(* ===== verification/Multipart.thy ===== *)
theory Multipart
  imports Query
begin

text \<open>
  Bodies in several parts (\<open>multipart/form-data\<close>) and the whole of \<open>qcgireq_parse\<close> (\<open>qcgireq.c\<close> of the bundled
  \<open>qdecoder\<close>). A part goes into the request list, or into a file if the list has an entry
  \<open>_Q_UPLOAD_BASEPATH\<close>. The loop over the parts need not end, so it is a partial function. \<open>mkstemp\<close>,
  \<open>malloc\<close> and \<open>write\<close> are parameters (\<open>platform\<close>): each of them may fail, and a write may be short.
\<close>

abbreviation crlf :: string where "crlf \<equiv> [cr, nl]"

section \<open>Lines and headers\<close>

text \<open>\<open>_q_fgets\<close>: a line that starts with a null byte counts as the end of the stream.\<close>

definition q_fgets :: "nat \<Rightarrow> string \<Rightarrow> string option \<times> string" where
  "q_fgets n fp = (let l = fgets_chunk n fp in
     (if cstr l = [] then None else Some (cstr l), drop (length l) fp))"

lemma fgets_shorter: "q_fgets n fp = (Some l, r) \<Longrightarrow> length r < length fp"
proof -
  assume a: "q_fgets n fp = (Some l, r)"
  then have "fgets_chunk n fp \<noteq> []" "r = drop (length (fgets_chunk n fp)) fp"
    by (auto simp: q_fgets_def Let_def cstr_def split: if_splits)
  moreover from this have "fp \<noteq> []" using fgets_chunk_prefix [of n fp] by auto
  ultimately show ?thesis by simp
qed

text \<open>The lines up to the first that is not blank.\<close>

function first_line :: "string \<Rightarrow> string option \<times> string" where
  "first_line stdin = (case q_fgets 1024 stdin of
      (None, r) \<Rightarrow> (None, r)
    | (Some buf, r) \<Rightarrow> if q_strtrim buf = [] then first_line r else (Some (q_strtrim buf), r))"
  by pat_completeness auto
termination
  by (relation "measure length") (auto dest: fgets_shorter [OF sym])

declare first_line.simps [simp del]

definition tolower :: "char \<Rightarrow> char" where
  "tolower c = (if 65 \<le> (of_char c :: nat) \<and> (of_char c :: nat) \<le> 90 then char_of ((of_char c :: nat) + 32) else c)"

definition strncasecmp_eq :: "string \<Rightarrow> string \<Rightarrow> nat \<Rightarrow> bool" where
  "strncasecmp_eq a b n \<longleftrightarrow> map tolower (take n a) = map tolower (take n b)"

record part =
  p_name :: "string option"
  p_filename :: "string option"
  p_contenttype :: "string option"

definition no_part :: part where
  "no_part = \<lparr>p_name = None, p_filename = None, p_contenttype = None\<rparr>"

definition disposition :: string where "disposition = ''Content-Disposition: ''"
definition disposition_name :: string where
  "disposition_name = ''Content-Disposition: form-data; name='' @ [CHR 0x22]"
definition filename_mark :: string where "filename_mark = ''; filename='' @ [CHR 0x22]"
definition content_type :: string where "content_type = ''Content-Type: ''"

definition unquote :: "string \<Rightarrow> string" where
  "unquote s = takeWhile (\<lambda>c. c \<noteq> CHR 0x22) s"

text \<open>A path in front of the name, as some browsers send it, becomes blanks up to the last backslash.\<close>

definition erase_path :: "string \<Rightarrow> string" where
  "erase_path s = (let name = rev (takeWhile (\<lambda>c. c \<noteq> CHR 0x5C) (rev s))
     in replicate (length s - length name) (CHR '' '') @ name)"

text \<open>
  The name starts at a fixed place of the line. In a line that is shorter the code reads what an earlier
  line left in the buffer behind the terminator.
\<close>

definition header_line :: "string \<Rightarrow> part \<Rightarrow> part res" where
  "header_line buf p =
     (if strncasecmp_eq buf disposition (length disposition) then
        (if length buf < length disposition_name then Inl UninitRead
         else let p = p\<lparr>p_name := Some (unquote (drop (length disposition_name) buf))\<rparr> in
           case strstr_from buf filename_mark of
             None \<Rightarrow> Inr p
           | Some s \<Rightarrow>
              (let filename = q_strtrim (erase_path (unquote (drop (length filename_mark) s)))
               in Inr (p\<lparr>p_filename := (if filename = [] then None else Some filename)\<rparr>)))
      else if strncasecmp_eq buf content_type (length content_type) then
        Inr (p\<lparr>p_contenttype := Some (q_strtrim (drop (length content_type) buf))\<rparr>)
      else Inr p)"

function headers :: "string \<Rightarrow> part \<Rightarrow> (part \<times> string) res" where
  "headers stdin p = (case q_fgets 1024 stdin of
      (None, r) \<Rightarrow> Inr (p, r)
    | (Some l, r) \<Rightarrow>
       (let buf = q_strtrim l in
        if buf = [] then Inr (p, r) else bindE (header_line buf p) (headers r)))"
  by pat_completeness auto
termination
  by (relation "measure (\<lambda>(s, p). length s)") (auto dest: fgets_shorter [OF sym])

declare headers.simps [simp del]

section \<open>The value of a part\<close>

text \<open>
  After a newline or a dash: does what has been read end with the delimiter? The answer is the length
  of the value and whether it was the last part. The two cases without a line break before the delimiter are for
  an empty value; \<open>whole\<close> tells that nothing of the value has been written to disk yet.
\<close>

definition value_end :: "string \<Rightarrow> bool \<Rightarrow> string \<Rightarrow> (nat \<times> bool) option" where
  "value_end boundary whole v =
     (if last v \<noteq> nl \<and> last v \<noteq> CHR ''-'' then None
      else if suffix (crlf @ boundary @ crlf) v then Some (length v - (2 + length boundary + 2), False)
      else if suffix (crlf @ boundary @ ''--'') v then Some (length v - (2 + length boundary + 2), True)
      else if whole \<and> v = boundary @ crlf then Some (0, False)
      else if whole \<and> v = boundary @ ''--'' then Some (0, True)
      else None)"

text \<open>
  In memory: the buffer of \<open>mallocsize\<close> bytes is allocated with the first byte and doubled when only the place of
  the terminator is left. The allocator is the parameter \<open>ok\<close>, which tells the sizes it grants. \<open>mallocsize\<close> is
  an \<open>int\<close>: doubling it at \<open>2 ^ 30\<close> leaves its range, and a request for as many bytes is more than any allocator grants.
\<close>

definition value_buffer :: "(nat \<Rightarrow> bool) \<Rightarrow> nat \<Rightarrow> nat \<Rightarrow> nat option" where
  "value_buffer ok mallocsize c_count = (let grant = \<lambda>n. if n < 2 ^ 31 \<and> ok n then Some n else None in
     if c_count = 0 then grant mallocsize
     else if c_count = mallocsize - 1 then grant (mallocsize * 2)
     else Some mallocsize)"

fun value_into_memory ::
  "(nat \<Rightarrow> bool) \<Rightarrow> nat \<Rightarrow> string \<Rightarrow> string \<Rightarrow> string \<Rightarrow> (string \<times> bool) option \<times> string" where
  "value_into_memory ok mallocsize boundary value [] = (None, [])"
| "value_into_memory ok mallocsize boundary value (c # stdin) = (case value_buffer ok mallocsize (length value) of
      None \<Rightarrow> (None, stdin)
    | Some mallocsize \<Rightarrow>
       (let value = value @ [c] in
        case value_end boundary True value of
          Some (len, finish) \<Rightarrow> (Some (take len value, finish), stdin)
        | None \<Rightarrow> value_into_memory ok mallocsize boundary value stdin))"

text \<open>
  On disk: a buffer of \<open>bsize\<close> bytes. When it is full, all but the last \<open>length boundary + 8\<close> bytes of it go to
  the file, or as many of them as the file takes; none are an error. The state is the file, the buffer and the
  number of bytes read, an \<open>int\<close>. \<open>memcpy\<close> to the front of the buffer is read as a copy in ascending order, which
  matters only if a short write leaves more than half of the buffer.
\<close>

definition flush_buffer :: "sink \<Rightarrow> nat \<Rightarrow> string \<Rightarrow> string \<times> string \<Rightarrow> (string \<times> string) option" where
  "flush_buffer taken bsize boundary st = (case st of (file, buffer) \<Rightarrow>
     if length buffer = bsize - 1
     then let savesize = length buffer - (length boundary + 8); saved = min (taken (length file) savesize) savesize in
       if saved = 0 then None else Some (file @ take saved buffer, drop saved buffer)
     else Some (file, buffer))"

text \<open>
  The rest of the buffer: whether an error occurred, and the file. After a short write the loop starts again at
  the front of the buffer, with fewer bytes.
\<close>

function save_rest :: "sink \<Rightarrow> string \<Rightarrow> string \<Rightarrow> bool \<times> string" where
  "save_rest taken file buffer = (if buffer = [] then (False, file)
     else let saved = min (taken (length file) (length buffer)) (length buffer) in
       if saved = 0 then (True, file)
       else save_rest taken (file @ take saved buffer) (take (length buffer - saved) buffer))"
  by pat_completeness auto
termination by (relation "measure (\<lambda>(t, f, b). length b)") auto

declare save_rest.simps [simp del]

fun value_into_disk ::
  "sink \<Rightarrow> nat \<Rightarrow> string \<Rightarrow> string \<times> string \<times> 32 word \<Rightarrow> string \<Rightarrow> (bool \<times> 32 word) option \<times> string \<times> string" where
  "value_into_disk taken bsize boundary (file, buffer, upload_length) [] = (None, snd (save_rest taken file buffer), [])"
| "value_into_disk taken bsize boundary (file, buffer, upload_length) (c # stdin) =
     (case flush_buffer taken bsize boundary (file, buffer) of
        None \<Rightarrow> (None, snd (save_rest taken file buffer), stdin)
      | Some (file, buffer) \<Rightarrow>
         (let buffer = buffer @ [c]; upload_length = upload_length + 1 in
          case value_end boundary (sint upload_length = int (length buffer)) buffer of
            Some (len, finish) \<Rightarrow>
              (case save_rest taken file (take len buffer) of (ioerror, file) \<Rightarrow>
                 (if ioerror then None else Some (finish, upload_length - word_of_nat (length buffer - len)), file, stdin))
          | None \<Rightarrow> value_into_disk taken bsize boundary (file, buffer, upload_length) stdin))"

definition CHUNK_SIZE :: nat where "CHUNK_SIZE = 16384"

section \<open>The parts and the request\<close>

text \<open>
  What the parser needs of the system: the path of a new file for a template of \<open>mkstemp\<close>, the sizes \<open>malloc\<close>
  grants for a value, and how much of a write the new file takes.
\<close>

record platform =
  pf_mkstemp :: "string \<Rightarrow> string option"
  pf_malloc :: "nat \<Rightarrow> bool"
  pf_write :: sink

definition put_info :: "string \<Rightarrow> int \<Rightarrow> part \<Rightarrow> qentry \<Rightarrow> qentry" where
  "put_info name valuelen p e = (case p_filename p of
      None \<Rightarrow> e
    | Some filename \<Rightarrow>
       (let ename = \<lambda>k. take 265 (name @ k);
            e = qentry_putstr e (ename ''.length'') (show_int valuelen) False;
            e = qentry_putstr e (ename ''.filename'') filename False
        in qentry_putstr e (ename ''.contenttype'') (case p_contenttype p of None \<Rightarrow> [] | Some t \<Rightarrow> t) False))"

definition parsing_failure :: string where "parsing_failure = ''(parsing failure)''"

text \<open>
  One part whose headers have been read: the list, the files, the rest of the input and whether it was the
  last. A file name's blanks become underscores, but \<open>mkstemp\<close> takes a name of its own in the base
  directory, of which \<open>snprintf\<close> keeps 4095 bytes.
\<close>

definition memory_part :: "platform \<Rightarrow> string \<Rightarrow> string \<Rightarrow> part \<Rightarrow> string \<Rightarrow> qentry \<Rightarrow> qentry \<times> bool \<times> string" where
  "memory_part pf boundary name p stdin e = (case value_into_memory (pf_malloc pf) CHUNK_SIZE boundary [] stdin of
      (None, r) \<Rightarrow> (qentry_putstr e name parsing_failure False, True, r)
    | (Some (v, finish), r) \<Rightarrow> (put_info name (int (length v)) p (qentry_putstr e name v False), finish, r))"

definition disk_part ::
  "platform \<Rightarrow> string \<Rightarrow> string \<Rightarrow> string \<Rightarrow> part \<Rightarrow> string \<Rightarrow> qentry \<Rightarrow> files \<Rightarrow> qentry \<times> bool \<times> string \<times> files" where
  "disk_part pf basepath boundary name p stdin e fs = (case pf_mkstemp pf (take 4095 (basepath @ ''/q_XXXXXX'')) of
      None \<Rightarrow> (qentry_putstr e name parsing_failure False, True, stdin, fs)
    | Some upload_path \<Rightarrow>
       (case value_into_disk (pf_write pf) CHUNK_SIZE boundary ([], [], 0) stdin of
          (None, content, r) \<Rightarrow> (qentry_putstr e name parsing_failure False, True, r, fs(upload_path \<mapsto> content))
        | (Some (finish, upload_length), content, r) \<Rightarrow>
           (qentry_putstr (put_info name (sint upload_length) p (qentry_putstr e name upload_path False))
              (take 265 (name @ ''.savepath'')) upload_path False,
            finish, r, fs(upload_path \<mapsto> content))))"

definition store_part ::
  "platform \<Rightarrow> string option \<Rightarrow> string \<Rightarrow> string \<Rightarrow> part \<Rightarrow> string \<Rightarrow> qentry \<Rightarrow> files \<Rightarrow> qentry \<times> bool \<times> string \<times> files" where
  "store_part pf basepath boundary name p stdin e fs = (case (p_filename p, basepath) of
      (Some _, Some dir) \<Rightarrow> disk_part pf dir boundary name p stdin e fs
    | _ \<Rightarrow> (case memory_part pf boundary name p stdin e of (e, finish, r) \<Rightarrow> (e, finish, r, fs)))"

partial_function (option) parts ::
  "platform \<Rightarrow> string option \<Rightarrow> string \<Rightarrow> string \<Rightarrow> qentry \<Rightarrow> files \<Rightarrow> (qentry \<times> string \<times> files) run" where
  "parts pf basepath boundary stdin e fs = (case headers stdin no_part of
      Inl f \<Rightarrow> Some (Inl f)
    | Inr (p, r) \<Rightarrow>
       (case p_name p of
          None \<Rightarrow> parts pf basepath boundary r e fs
        | Some name \<Rightarrow>
           (case store_part pf basepath boundary name p r e fs of (e, finish, r, fs) \<Rightarrow>
              if finish then Some (Inr (e, r, fs)) else parts pf basepath boundary r e fs)))"

definition strunchar :: "char \<Rightarrow> char \<Rightarrow> string \<Rightarrow> string" where
  "strunchar head tail str = (if 2 \<le> length str \<and> hd str = head \<and> last str = tail then butlast (tl str) else str)"

definition parse_multipart ::
  "platform \<Rightarrow> string \<Rightarrow> string \<Rightarrow> qentry \<Rightarrow> files \<Rightarrow> (qentry \<times> string \<times> files) run" where
  "parse_multipart pf ctype stdin e fs = (case strstr_from ctype ''boundary='' of
      None \<Rightarrow> Some (Inl NullPointer)
    | Some s \<Rightarrow>
       (let b = drop 9 s in
        if 256 \<le> 2 + length b + 2 + 2 then Some (Inr (e, stdin, fs))
        else let boundary_orig = strunchar (CHR 0x22) (CHR 0x22) (q_strtrim b); boundary = ''--'' @ boundary_orig in
          case first_line stdin of
            (None, r) \<Rightarrow> Some (Inr (e, r, fs))
          | (Some buf, r) \<Rightarrow>
             if buf \<noteq> boundary then Some (Inr (e, r, fs))
             else parts pf (map_option cstr (qentry_get e ''_Q_UPLOAD_BASEPATH'')) boundary r e fs))"

text \<open>\<open>qcgireq_parse(NULL, 0)\<close>: cookies first, then the body, then the query string, into one list.\<close>

definition qcgireq_parse :: "platform \<Rightarrow> env \<Rightarrow> string \<Rightarrow> files \<Rightarrow> (qentry \<times> string \<times> files) run" where
  "qcgireq_parse pf getenv stdin fs =
     bindR (Some (parse_opt (CHR ''='') (CHR '';'') (getquery_cookie getenv) [])) (\<lambda>e.
     let ctype = (case getenv ''CONTENT_TYPE'' of None \<Rightarrow> [] | Some t \<Rightarrow> t) in
     bindR (if prefix ''application/x-www-form-urlencoded'' ctype then
         Some (bindE (getquery_post getenv stdin) (\<lambda>(q, r).
           bindE (parse_opt (CHR ''='') (CHR ''&'') q e) (\<lambda>e. Inr (e, r, fs))))
       else if prefix ''multipart/form-data'' ctype then parse_multipart pf ctype stdin e fs
       else Some (Inr (e, stdin, fs))) (\<lambda>(e, r, fs).
     bindR (Some (parse_opt (CHR ''='') (CHR ''&'') (getquery_get getenv) e)) (\<lambda>e. Some (Inr (e, r, fs)))))"

section \<open>On disk as in memory\<close>

lemma suffix_append_short: "length p \<le> length x \<Longrightarrow> suffix p (s @ x) \<longleftrightarrow> suffix p x"
  by (auto simp: suffix_append)

lemma value_end_split:
  assumes "sv \<noteq> []" "length b + 4 \<le> length x"
  shows "value_end b True (sv @ x) = map_option (\<lambda>(n, f). (length sv + n, f)) (value_end b False x)"
proof -
  have "x \<noteq> []" "sv @ x \<noteq> b @ crlf" "sv @ x \<noteq> b @ ''--''"
    using assms by (auto dest: arg_cong [of _ _ length])
  moreover have "suffix (crlf @ b @ e) (sv @ x) \<longleftrightarrow> suffix (crlf @ b @ e) x" if "length e = 2" for e
    using assms(2) that by (intro suffix_append_short) simp
  ultimately show ?thesis using assms(2) by (auto simp: value_end_def)
qed

text \<open>The plain reading of a value, which both routines are compared with: no buffer and no failure.\<close>

fun scan_value :: "string \<Rightarrow> string \<Rightarrow> string \<Rightarrow> (string \<times> bool) option \<times> string" where
  "scan_value b acc [] = (None, [])"
| "scan_value b acc (c # stdin) = (case value_end b True (acc @ [c]) of
      Some (len, finish) \<Rightarrow> (Some (take len (acc @ [c]), finish), stdin)
    | None \<Rightarrow> scan_value b (acc @ [c]) stdin)"

text \<open>
  Memory for a value of up to \<open>n\<close> bytes: the buffer is at most twice as long as what has been read, or has its first
  size. A file that takes all of every write.
\<close>

definition memory_for :: "(nat \<Rightarrow> bool) \<Rightarrow> nat \<Rightarrow> bool" where
  "memory_for ok n \<longleftrightarrow> (\<forall>size \<le> max CHUNK_SIZE (2 * n). ok size)"

definition takes_all :: "sink \<Rightarrow> bool" where
  "takes_all taken \<longleftrightarrow> (\<forall>pos n. n \<le> taken pos n)"

lemma value_buffer_grows:
  assumes "memory_for ok n" "14 \<le> k" "k \<le> 30" "c_count < 2 ^ k" "Suc c_count \<le> n" "n < 2 ^ 30" "c_count = 0 \<longrightarrow> k = 14"
  obtains k' where "value_buffer ok (2 ^ k) c_count = Some (2 ^ k')" "14 \<le> k'" "k' \<le> 30" "Suc c_count < 2 ^ k'"
proof (cases "c_count = 2 ^ k - 1")
  case True
  have "k \<noteq> 30" using True assms(5,6) by (intro notI) simp
  then have k: "Suc k \<le> 30" using assms(3) by simp
  have "(2::nat) ^ Suc k \<le> 2 ^ 30" using k by (intro power_increasing) simp_all
  moreover have c: "(2::nat) ^ 14 \<le> 2 ^ k" using assms(2) by (intro power_increasing) simp_all
  moreover have "(2::nat) ^ Suc k \<le> 2 * n" using True assms(5) by simp
  then have "ok (2 ^ Suc k)" using assms(1) by (simp add: memory_for_def)
  ultimately have "value_buffer ok (2 ^ k) c_count = Some (2 ^ Suc k)" "Suc c_count < 2 ^ Suc k"
    using True by (simp_all add: value_buffer_def Let_def mult.commute)
  with that [of "Suc k"] k assms(2) show ?thesis by simp
next
  case False
  have "(2::nat) ^ k \<le> 2 ^ 30" using assms(3) by (intro power_increasing) simp_all
  moreover have "ok (2 ^ 14)" using assms(1) by (simp add: memory_for_def CHUNK_SIZE_def)
  ultimately have "value_buffer ok (2 ^ k) c_count = Some (2 ^ k)"
    using False assms(7) by (auto simp: value_buffer_def Let_def)
  with that [of k] False assms(2-4) show ?thesis by simp
qed

lemma memory_scan_from:
  assumes "memory_for ok n" "n < 2 ^ 30"
    and "14 \<le> k" "k \<le> 30" "length acc < 2 ^ k" "length acc + length stdin \<le> n" "acc = [] \<longrightarrow> k = 14"
  shows "value_into_memory ok (2 ^ k) b acc stdin = scan_value b acc stdin"
  using assms(3-)
proof (induction stdin arbitrary: k acc)
  case (Cons c stdin)
  have "Suc (length acc) \<le> n" "length acc = 0 \<longrightarrow> k = 14" using Cons.prems(4,5) by simp_all
  then obtain k' where k': "value_buffer ok (2 ^ k) (length acc) = Some (2 ^ k')" "14 \<le> k'" "k' \<le> 30" "Suc (length acc) < 2 ^ k'"
    using value_buffer_grows [OF assms(1) Cons.prems(1-3) _ assms(2)] by blast
  from Cons.IH [OF k'(2,3), of "acc @ [c]"] k'(4) Cons.prems(4)
  have "value_into_memory ok (2 ^ k') b (acc @ [c]) stdin = scan_value b (acc @ [c]) stdin" by simp
  then show ?case using k'(1) by (auto simp: Let_def split: option.splits)
qed simp

lemma memory_scan:
  assumes "memory_for ok n" "n < 2 ^ 30" "length stdin \<le> n"
  shows "value_into_memory ok CHUNK_SIZE b [] stdin = scan_value b [] stdin"
proof -
  have "CHUNK_SIZE = 2 ^ 14" by (simp add: CHUNK_SIZE_def)
  then show ?thesis using memory_scan_from [of ok n 14 "[]" stdin b] assms by simp
qed

lemma flush_buffer_facts:
  assumes "flush_buffer taken n b (sv, bf) = Some (sv', bf')" "length b + 9 < n" "sv = [] \<or> length b + 8 \<le> length bf" "length bf < n"
  shows "sv' @ bf' = sv @ bf" "sv' = [] \<or> length b + 8 \<le> length bf'" "Suc (length bf') < n"
  using assms by (auto simp: flush_buffer_def Let_def split: if_splits)

lemma flush_buffer_takes_all:
  assumes "takes_all taken" "length b + 9 < n"
  shows "flush_buffer taken n b st \<noteq> None"
proof -
  have "m \<le> taken p m" for p m using assms(1) by (simp add: takes_all_def)
  then have "min (taken p m) m = m" for p m by (intro min_absorb2)
  then show ?thesis using assms(2) by (auto simp: flush_buffer_def Let_def split: prod.splits)
qed

lemma save_rest_length: "save_rest taken old buffer = (False, new) \<Longrightarrow> length new = length old + length buffer"
proof (induction "length buffer" arbitrary: old buffer rule: less_induct)
  case less
  let ?saved = "min (taken (length old) (length buffer)) (length buffer)"
  show ?case
  proof (cases "buffer = []")
    case False
    with less.prems have s: "?saved \<noteq> 0" "save_rest taken (old @ take ?saved buffer) (take (length buffer - ?saved) buffer) = (False, new)"
      by (subst (asm) save_rest.simps; simp add: Let_def split: if_splits)+
    with less.hyps [OF _ s(2)] False show ?thesis by simp
  qed (use less.prems in \<open>simp add: save_rest.simps\<close>)
qed

lemma save_rest_takes_all: "takes_all taken \<Longrightarrow> save_rest taken file buffer = (False, file @ buffer)"
  by (subst save_rest.simps) (auto simp: takes_all_def Let_def min_absorb2 save_rest.simps [of _ _ "[]"])

text \<open>The case for an empty value can only arise while the buffer holds all of the value.\<close>

lemma value_end_long: "length b + 2 < length x \<Longrightarrow> value_end b w x = value_end b w' x"
  by (auto simp: value_end_def)

lemma value_end_buffer:
  assumes "sv = [] \<or> length b + 8 \<le> length bf" "length bf < 2 ^ 31 - 1" "x = bf @ [c]"
  shows "value_end b True (sv @ x) =
    map_option (\<lambda>(n, f). (length sv + n, f)) (value_end b (sint (word_of_nat (length (sv @ x)) :: 32 word) = int (length x)) x)"
proof (cases "sv = []")
  case True
  have "sint (word_of_nat (length x) :: 32 word) = int (length x)"
    using assms(2,3) sint_small [of "int (length x)"] by simp
  with True show ?thesis by (simp add: option.map_id0 case_prod_eta)
next
  case False
  with assms(1,3) have "length b + 4 \<le> length x" by simp
  moreover from this have "value_end b w x = value_end b False x" for w by (intro value_end_long) simp
  ultimately show ?thesis using value_end_split [OF False, of b x] by metis
qed

text \<open>
  A result \<open>d\<close> of the routine on disk against the plain reading \<open>s\<close> of the same bytes \<open>all\<close>: equal where every write is
  complete; on any file, success is reported only with the length, the rest and the flag of the plain reading.
\<close>

definition disk_agrees ::
  "sink \<Rightarrow> string \<Rightarrow> (string \<times> bool) option \<times> string \<Rightarrow> (bool \<times> 32 word) option \<times> string \<times> string \<Rightarrow> bool" where
  "disk_agrees taken all s d \<longleftrightarrow> (case s of
      (None, r) \<Rightarrow> fst d = None \<and> (takes_all taken \<longrightarrow> d = (None, all, r))
    | (Some (v, finish), r) \<Rightarrow>
       (takes_all taken \<longrightarrow> d = (Some (finish, word_of_nat (length v)), v, r)) \<and>
       (fst d \<noteq> None \<longrightarrow> (\<exists>file. d = (Some (finish, word_of_nat (length v)), file, r) \<and> length file = length v)))"

lemma disk_agrees_end:
  assumes "len \<le> length x" "fst (save_rest taken sv (take len x)) = ioerror"
  shows "disk_agrees taken all (Some (sv @ take len x, finish), r)
    (if ioerror then None else Some (finish, word_of_nat (length (sv @ x)) - word_of_nat (length x - len)),
     snd (save_rest taken sv (take len x)), r)"
proof -
  define v where "v = sv @ take len x"
  have "word_of_nat (length (sv @ x)) - word_of_nat (length x - len) = (word_of_nat (length (sv @ take len x)) :: 32 word)"
    using assms(1) by (simp add: of_nat_diff)
  then have w: "word_of_nat (length (sv @ x)) - word_of_nat (length x - len) = (word_of_nat (length v) :: 32 word)"
    by (simp only: v_def)
  obtain stored where f: "save_rest taken sv (take len x) = (ioerror, stored)" using assms(2) by (cases "save_rest taken sv (take len x)") auto
  have "\<not> ioerror \<Longrightarrow> length stored = length v" using f save_rest_length [of taken sv "take len x" stored] by (simp add: v_def)
  moreover have "takes_all taken \<Longrightarrow> \<not> ioerror \<and> stored = v" using f save_rest_takes_all [of taken sv "take len x"] by (simp add: v_def)
  ultimately show ?thesis unfolding f w v_def [symmetric] by (auto simp: disk_agrees_def)
qed

lemma value_end_le: "value_end b w x = Some (len, f) \<Longrightarrow> len \<le> length x"
  by (auto simp: value_end_def split: if_splits)

lemma disk_scan:
  assumes "length b + 9 < n" "n < 2 ^ 31" "sv = [] \<or> length b + 8 \<le> length bf" "length bf < n"
  shows "disk_agrees taken (sv @ bf @ stdin) (scan_value b (sv @ bf) stdin)
    (value_into_disk taken n b (sv, bf, word_of_nat (length (sv @ bf))) stdin)"
  using assms(3,4)
proof (induction stdin arbitrary: sv bf)
  case Nil
  then show ?case using save_rest_takes_all [of taken sv bf] by (simp add: disk_agrees_def)
next
  case (Cons c stdin)
  show ?case
  proof (cases "flush_buffer taken n b (sv, bf)")
    case None
    then show ?thesis using flush_buffer_takes_all [OF _ assms(1), of taken "(sv, bf)"]
      by (auto simp: disk_agrees_def split: prod.splits option.splits)
  next
    case (Some st)
    obtain sv' bf' where st: "st = (sv', bf')" by fastforce
    note ff = flush_buffer_facts [OF Some [unfolded st] assms(1) Cons.prems]
    define x where "x = bf' @ [c]"
    have same: "(sv @ bf) @ [c] = sv' @ x" "sv @ bf @ c # stdin = sv' @ x @ stdin"
      unfolding x_def using ff(1) by (simp_all only: append_assoc [symmetric] append_Cons append_Nil) simp
    have count: "word_of_nat (length (sv @ bf)) + 1 = (word_of_nat (length (sv' @ x)) :: 32 word)"
      using arg_cong [OF same(1), of "\<lambda>l. word_of_nat (length l) :: 32 word"] by (simp add: add.commute)
    let ?e = "value_end b (sint (word_of_nat (length (sv' @ x)) :: 32 word) = int (length x)) x"
    have "length bf' < 2 ^ 31 - 1" using ff(3) assms(2) by linarith
    note e = value_end_buffer [OF ff(2) this x_def]
    have d: "value_into_disk taken n b (sv, bf, word_of_nat (length (sv @ bf))) (c # stdin) = (case ?e of
        Some (len, finish) \<Rightarrow> (case save_rest taken sv' (take len x) of (ioerror, file) \<Rightarrow>
          (if ioerror then None else Some (finish, word_of_nat (length (sv' @ x)) - word_of_nat (length x - len)), file, stdin))
      | None \<Rightarrow> value_into_disk taken n b (sv', x, word_of_nat (length (sv' @ x))) stdin)"
      unfolding value_into_disk.simps Some st option.case prod.case Let_def x_def [symmetric] count ..
    show ?thesis
    proof (cases ?e)
      case None
      with Cons.IH [of sv' x] ff(2,3) e show ?thesis
        unfolding d same(2) by (simp only: scan_value.simps same(1) option.map option.case) (auto simp: x_def)
    next
      case (Some r)
      obtain len finish where r: "r = (len, finish)" by (cases r)
      from disk_agrees_end [OF value_end_le [OF Some [unfolded r]] refl] show ?thesis
        unfolding d same(2) scan_value.simps same(1) e Some r option.map option.case prod.case
        by (simp add: case_prod_beta take_add)
    qed
  qed
qed

section \<open>Where the value ends\<close>

lemma memory_skip:
  assumes "\<And>k. 0 < k \<Longrightarrow> k \<le> length xs \<Longrightarrow> value_end b True (acc @ take k xs) = None"
  shows "scan_value b acc (xs @ stdin) = scan_value b (acc @ xs) stdin"
  using assms
proof (induction xs arbitrary: acc)
  case (Cons x xs)
  from Cons.prems [of 1] have "value_end b True (acc @ [x]) = None" by simp
  moreover have "scan_value b (acc @ [x]) (xs @ stdin) = scan_value b ((acc @ [x]) @ xs) stdin"
  proof (rule Cons.IH)
    fix k assume "0 < k" "k \<le> length xs"
    with Cons.prems [of "Suc k"] show "value_end b True ((acc @ [x]) @ take k xs) = None" by simp
  qed
  ultimately show ?case by (simp add: Let_def)
qed simp

text \<open>A string without a carriage return in its tail cannot reach over the one at the end of the value.\<close>

lemma no_straddle:
  assumes "prefix (y @ p) (v @ cr # s)" "cr \<notin> set (tl p)" "p \<noteq> []" "length y < length v"
  shows "prefix (y @ p) v"
proof -
  have "length (y @ p) \<le> length v"
  proof (rule ccontr)
    assume "\<not> ?thesis"
    then have n: "length v < length (y @ p)" by simp
    from assms(1) obtain zs where "v @ cr # s = (y @ p) @ zs" by (auto simp: prefix_def)
    then have "((y @ p) @ zs) ! length v = cr" by (metis nth_append_length)
    then have "(y @ p) ! length v = cr" using n by (subst (asm) nth_append) (simp only: if_True)
    then have "p ! (length v - length y) = cr" using assms(4) by (simp add: nth_append)
    moreover have "p ! (length v - length y) \<in> set (tl p)"
      using n assms(4) by (cases p) (auto simp: nth_Cons split: nat.splits)
    ultimately show False using assms(2) by simp
  qed
  with assms(1) show ?thesis using prefix_length_prefix [OF assms(1), of v] by simp
qed

text \<open>The delimiter does not occur in the value.\<close>

definition delimits :: "string \<Rightarrow> string \<Rightarrow> bool" where
  "delimits boundary v \<longleftrightarrow> cr \<notin> set boundary \<and> boundary \<noteq> [] \<and> \<not> sublist (crlf @ boundary) v \<and> \<not> prefix boundary v"

lemma value_end_early:
  assumes "delimits b v" "k < length (v @ crlf @ b @ e)" "length e = 2"
  shows "value_end b True (take k (v @ crlf @ b @ e)) = None"
proof -
  let ?t = "v @ crlf @ b @ e"
  have b: "cr \<notin> set b" "b \<noteq> []" "\<not> sublist (crlf @ b) v" "\<not> prefix b v" using assms(1) by (auto simp: delimits_def)
  have pre: "prefix u ?t" if "take k ?t = u @ z" for u z using that by (metis append_assoc append_take_drop_id prefix_def)
  have s: "\<not> suffix (crlf @ b @ e') (take k ?t)" if "length e' = 2" for e'
  proof
    assume "suffix (crlf @ b @ e') (take k ?t)"
    then obtain y where y: "take k ?t = (y @ crlf @ b) @ e'" by (auto simp: suffix_def)
    have "length y < length v" using arg_cong [OF y, of length] assms(2,3) that by simp
    moreover have "prefix (y @ crlf @ b) (v @ cr # nl # b @ e)" using pre [OF y] by simp
    ultimately have "prefix (y @ crlf @ b) v" using no_straddle [of y "crlf @ b" v "nl # b @ e"] b(1) by simp
    then show False using b(3) by (metis prefix_def sublist_appendI append_assoc)
  qed
  have m: "take k ?t \<noteq> b @ e'" for e'
  proof
    assume y: "take k ?t = b @ e'"
    have "v \<noteq> []" using pre [OF y] b(1,2) by (cases v; cases b) auto
    moreover have "cr \<notin> set (tl b)" using b(1) by (cases b) auto
    ultimately have "prefix ([] @ b) v" using no_straddle [of "[]" b v "nl # b @ e"] b(2) pre [OF y] by simp
    then show False using b(4) by simp
  qed
  show ?thesis using s [of crlf] s [of "''--''"] m [of crlf] m [of "''--''"] by (simp add: value_end_def)
qed

lemma value_end_here:
  assumes "delimits b v" "e = crlf \<or> e = ''--''"
  shows "value_end b True (v @ crlf @ b @ e) = Some (length v, e = ''--'')"
proof -
  have s: "suffix (crlf @ b @ e) (v @ crlf @ b @ e)" by (simp add: suffix_def)
  have "\<not> suffix (crlf @ b @ crlf) (v @ crlf @ b @ ''--'')"
  proof
    assume "suffix (crlf @ b @ crlf) (v @ crlf @ b @ ''--'')"
    then obtain y where "v @ crlf @ b @ ''--'' = y @ crlf @ b @ crlf" by (auto simp: suffix_def)
    then have "last (v @ crlf @ b @ ''--'') = last (y @ crlf @ b @ crlf)" by (rule arg_cong)
    then show False by simp
  qed
  note n = this
  from assms(2) show ?thesis
  proof
    assume "e = crlf"
    with s show ?thesis by (simp add: value_end_def)
  next
    assume "e = ''--''"
    with s n show ?thesis by (simp add: value_end_def)
  qed
qed

lemma memory_value:
  assumes "delimits b v" "e = crlf \<or> e = ''--''"
  shows "scan_value b [] (v @ crlf @ b @ e @ rest) = (Some (v, e = ''--''), rest)"
proof -
  let ?t = "v @ crlf @ b @ e"
  have len: "length e = 2" using assms(2) by auto
  have t: "?t = butlast ?t @ [last ?t]" by (rule append_butlast_last_id [symmetric]) simp
  have "scan_value b [] (butlast ?t @ last ?t # rest) = scan_value b ([] @ butlast ?t) (last ?t # rest)"
  proof (rule memory_skip)
    fix k assume "0 < k" "k \<le> length (butlast ?t)"
    moreover from this have "take k (butlast ?t) = take k ?t" by (intro take_butlast) simp
    ultimately show "value_end b True ([] @ take k (butlast ?t)) = None"
      using value_end_early [OF assms(1), of k e] len by simp
  qed
  also have "\<dots> = (Some (v, e = ''--''), rest)"
    using value_end_here [OF assms] t by (simp only: append_Nil scan_value.simps Let_def option.case prod.case) simp
  finally have "scan_value b [] ((butlast ?t @ [last ?t]) @ rest) = (Some (v, e = ''--''), rest)" by simp
  then show ?thesis unfolding t [symmetric] by simp
qed

section \<open>Reading the headers of a file\<close>

lemma fgets_crlf:
  assumes "nl \<notin> set l" "nul \<notin> set l" "length l < 1000"
  shows "q_fgets 1024 (l @ crlf @ r) = (Some (l @ crlf), r)"
proof -
  have "fgets_chunk 1024 (l @ crlf @ r) = l @ crlf" using fgets_chunk_line [of "l @ [cr]" 1024 r] assms(1,3) by simp
  moreover have "cstr (l @ crlf) = l @ crlf" using assms(2) by (intro cstr_id) auto
  ultimately show ?thesis by (simp add: q_fgets_def Let_def)
qed

definition header_text :: "string \<Rightarrow> bool" where
  "header_text l \<longleftrightarrow> l \<noteq> [] \<and> nl \<notin> set l \<and> nul \<notin> set l \<and> \<not> trim_char (hd l) \<and> \<not> trim_char (last l) \<and> length l < 1000"

lemma header_text_trim: "header_text l \<Longrightarrow> q_strtrim (l @ crlf) = l"
  by (rule strtrim_edges) (auto simp: header_text_def trim_char_def)

lemma headers_step: "header_text l \<Longrightarrow> headers (l @ crlf @ r) p = bindE (header_line l p) (headers r)"
  using fgets_crlf [of l r] header_text_trim [of l]
  by (subst headers.simps) (simp add: Let_def header_text_def)

lemma headers_end: "headers (crlf @ r) p = Inr (p, r)"
  using fgets_crlf [of "[]" r] by (subst headers.simps) (simp add: Let_def q_strtrim_def trim_char_def)

lemma first_line_step: "header_text l \<Longrightarrow> first_line (l @ crlf @ r) = (Some l, r)"
  using fgets_crlf [of l r] header_text_trim [of l]
  by (subst first_line.simps) (simp add: header_text_def)

lemmas strstr_from_Cons = strstr_from.simps [of "c # t" for c t]

lemma strstr_skip_disposition: "strstr_from (disposition_name @ s) filename_mark = strstr_from s filename_mark"
  by (simp add: disposition_name_def filename_mark_def strstr_from_Cons)

lemma strstr_skip_plain: "CHR '';'' \<notin> set a \<Longrightarrow> strstr_from (a @ s) filename_mark = strstr_from s filename_mark"
  by (induction a) (simp_all add: strstr_from_Cons filename_mark_def)

lemma strstr_here: "strstr_from (filename_mark @ s) filename_mark = Some (filename_mark @ s)"
  by (subst strstr_from.simps) simp

text \<open>A name as a form gives it.\<close>

definition field_name :: "string \<Rightarrow> bool" where
  "field_name s \<longleftrightarrow> header_text s \<and> length s < 250 \<and> {CHR 0x22, CHR '';'', CHR 0x5C} \<inter> set s = {}"

definition file_header :: "string \<Rightarrow> string \<Rightarrow> string" where
  "file_header name filename =
     disposition_name @ name @ CHR 0x22 # filename_mark @ filename @ [CHR 0x22]"

lemma file_header_text: "field_name name \<Longrightarrow> field_name filename \<Longrightarrow> header_text (file_header name filename)"
  by (auto simp: field_name_def header_text_def file_header_def disposition_name_def filename_mark_def trim_char_def)

lemma unquote_stop: "CHR 0x22 \<notin> set a \<Longrightarrow> unquote (a @ CHR 0x22 # b) = a"
  unfolding unquote_def by (rule takeWhile_append_stop) auto

lemma erase_path_plain: "CHR 0x5C \<notin> set a \<Longrightarrow> erase_path a = a"
proof -
  assume "CHR 0x5C \<notin> set a"
  then have "takeWhile (\<lambda>c. c \<noteq> CHR 0x5C) (rev a) = rev a" by (intro takeWhile_all) auto
  then show ?thesis by (simp only: erase_path_def Let_def) simp
qed

lemma file_header_line:
  assumes "field_name name" "field_name filename"
  shows "header_line (file_header name filename) p = Inr (p\<lparr>p_name := Some name, p_filename := Some filename\<rparr>)"
proof -
  have n: "CHR 0x22 \<notin> set name" "CHR '';'' \<notin> set name" "CHR 0x22 \<notin> set filename" "CHR 0x5C \<notin> set filename"
    using assms by (auto simp: field_name_def)
  have d: "strncasecmp_eq (file_header name filename) disposition (length disposition)"
    by (simp add: strncasecmp_eq_def file_header_def disposition_def disposition_name_def)
  have "strstr_from (file_header name filename) filename_mark = Some (filename_mark @ filename @ [CHR 0x22])"
    using n(2) strstr_skip_plain [of "name @ [CHR 0x22]" "filename_mark @ filename @ [CHR 0x22]"]
    by (simp add: file_header_def strstr_skip_disposition strstr_here)
  moreover have "unquote (drop (length disposition_name) (file_header name filename)) = name"
    using n(1) by (simp add: file_header_def unquote_stop)
  moreover have "q_strtrim (erase_path (unquote (filename @ [CHR 0x22]))) = filename"
    using strtrim_edges [of filename "[]"] assms(2) n(3,4) by (simp add: unquote_stop erase_path_plain field_name_def header_text_def)
  moreover have "\<not> length (file_header name filename) < length disposition_name" by (simp add: file_header_def)
  ultimately show ?thesis using d assms(2) by (simp add: header_line_def Let_def field_name_def header_text_def)
qed

text \<open>The body a browser sends for a form with one file.\<close>

definition upload_body :: "string \<Rightarrow> string \<Rightarrow> string \<Rightarrow> string \<Rightarrow> string \<Rightarrow> string" where
  "upload_body bound name filename ctype data =
     ''--'' @ bound @ crlf @ file_header name filename @ crlf @ (content_type @ ctype) @ crlf @ crlf @
     data @ crlf @ (''--'' @ bound) @ ''--'' @ crlf"

lemma type_header:
  assumes "header_text ctype" "length ctype < 256"
  shows "header_text (content_type @ ctype)" "header_line (content_type @ ctype) p = Inr (p\<lparr>p_contenttype := Some ctype\<rparr>)"
proof -
  show "header_text (content_type @ ctype)"
    using assms by (auto simp: header_text_def content_type_def trim_char_def)
  have "q_strtrim ctype = ctype" using strtrim_edges [of ctype "[]"] assms(1) by (simp add: header_text_def)
  moreover have "\<not> strncasecmp_eq (content_type @ ctype) disposition (length disposition)"
    by (simp add: strncasecmp_eq_def content_type_def disposition_def tolower_def)
  moreover have "strncasecmp_eq (content_type @ ctype) content_type (length content_type)" by (simp add: strncasecmp_eq_def)
  ultimately show "header_line (content_type @ ctype) p = Inr (p\<lparr>p_contenttype := Some ctype\<rparr>)"
    by (simp add: header_line_def)
qed

lemma upload_headers:
  assumes "field_name name" "field_name filename" "header_text ctype" "length ctype < 256"
  shows "headers (file_header name filename @ crlf @ (content_type @ ctype) @ crlf @ crlf @ r) no_part =
    Inr (\<lparr>p_name = Some name, p_filename = Some filename, p_contenttype = Some ctype\<rparr>, r)"
  using headers_step [OF file_header_text [OF assms(1,2)]] headers_step [OF type_header(1) [OF assms(3,4)]] headers_end
  by (simp add: file_header_line [OF assms(1,2)] type_header(2) [OF assms(3,4)] no_part_def)

text \<open>What a file in memory leaves in the list.\<close>

definition file_entries :: "string \<Rightarrow> string \<Rightarrow> string \<Rightarrow> string \<Rightarrow> qentry" where
  "file_entries name filename ctype data =
     [(name, data), (name @ ''.length'', show_nat (length data)), (name @ ''.filename'', filename),
      (name @ ''.contenttype'', ctype)]"

lemma upload_parts:
  assumes "field_name name" "field_name filename" "header_text ctype" "length ctype < 256" "delimits (''--'' @ bound) data"
    and "memory_for (pf_malloc pf) (length (upload_body bound name filename ctype data))" "length (upload_body bound name filename ctype data) < 2 ^ 30"
  shows "parts pf None (''--'' @ bound) (file_header name filename @ crlf @ (content_type @ ctype) @ crlf @ crlf @
      data @ crlf @ (''--'' @ bound) @ ''--'' @ crlf) e fs = Some (Inr (e @ file_entries name filename ctype data, crlf, fs))"
proof -
  have "length name < 250" using assms(1) by (simp add: field_name_def)
  then have "put_info name (int (length data)) \<lparr>p_name = Some name, p_filename = Some filename, p_contenttype = Some ctype\<rparr> (qentry_putstr e name data False) =
      e @ file_entries name filename ctype data"
    by (simp add: put_info_def Let_def qentry_putstr_def file_entries_def show_int_def)
  moreover have "value_into_memory (pf_malloc pf) CHUNK_SIZE (''--'' @ bound) [] (data @ crlf @ (''--'' @ bound) @ ''--'' @ crlf) = (Some (data, True), crlf)"
    using memory_value [OF assms(5), of "''--''" crlf] assms(7) by (subst memory_scan [OF assms(6,7)]) (simp_all add: upload_body_def)
  moreover note upload_headers [OF assms(1-4)]
  ultimately show ?thesis by (subst parts.simps) (simp add: store_part_def memory_part_def)
qed

section \<open>Requests of a browser\<close>

lemma getquery_get_form:
  assumes "getenv ''QUERY_STRING'' = Some (form_text (CHR ''&'') fs)" "fs \<noteq> [] \<or> getenv ''REQUEST_URI'' = None"
  shows "getquery_get getenv = Some (form_text (CHR ''&'') fs)"
proof -
  have "form_text sep fs \<noteq> []" if "fs \<noteq> []" for sep using that by (cases "(sep, fs)" rule: form_text.cases) (auto simp: form_field_def)
  with assms show ?thesis by (auto simp: getquery_get_def split: option.splits)
qed

text \<open>The cookies and the query string of a request, as the list has them.\<close>

definition browser_sends :: "env \<Rightarrow> qentry \<Rightarrow> qentry \<Rightarrow> bool" where
  "browser_sends getenv cs fs \<longleftrightarrow> plain_form cs \<and> plain_form fs \<and>
     getenv ''HTTP_COOKIE'' = (if cs = [] then None else Some (form_text (CHR '';'') cs)) \<and>
     getenv ''QUERY_STRING'' = Some (form_text (CHR ''&'') fs) \<and> (fs \<noteq> [] \<or> getenv ''REQUEST_URI'' = None)"

lemma browser_parse:
  assumes "browser_sends getenv cs fs"
  shows "parse_opt (CHR ''='') (CHR '';'') (getquery_cookie getenv) [] = Inr cs"
    "parse_opt (CHR ''='') (CHR ''&'') (getquery_get getenv) e = Inr (e @ fs)"
proof -
  show "parse_opt (CHR ''='') (CHR '';'') (getquery_cookie getenv) [] = Inr cs"
    using assms parse_form [of cs "CHR '';''" "[]"] by (auto simp: browser_sends_def parse_opt_def getquery_cookie_def)
  have "getquery_get getenv = Some (form_text (CHR ''&'') fs)"
    using assms by (intro getquery_get_form) (auto simp: browser_sends_def)
  then show "parse_opt (CHR ''='') (CHR ''&'') (getquery_get getenv) e = Inr (e @ fs)"
    using assms parse_form [of fs "CHR ''&''" e] by (simp add: browser_sends_def parse_opt_def)
qed

lemma get_request_parsed:
  assumes "browser_sends getenv cs fs" "getenv ''CONTENT_TYPE'' = None"
  shows "qcgireq_parse pf getenv stdin fs0 = Some (Inr (cs @ fs, stdin, fs0))"
  using assms(2) by (simp add: qcgireq_parse_def browser_parse [OF assms(1)])

text \<open>A body in the form of a query, as long as the header says.\<close>

lemma post_request_parsed:
  assumes "browser_sends getenv cs fs" "getenv ''CONTENT_TYPE'' = Some ''application/x-www-form-urlencoded''"
    and "getenv ''REQUEST_METHOD'' = Some ''POST''"
    and "plain_form ps" "getenv ''CONTENT_LENGTH'' = Some (show_nat (length (form_text (CHR ''&'') ps)))"
    and "length (form_text (CHR ''&'') ps) < 2147483647"
  shows "qcgireq_parse pf getenv (form_text (CHR ''&'') ps @ rest) fs0 = Some (Inr (cs @ ps @ fs, rest, fs0))"
proof -
  let ?b = "form_text (CHR ''&'') ps"
  have "atoi (show_nat (length ?b)) = int (length ?b)"
    using assms(6) atoi_show_int [of "int (length ?b)" "[]"] by (simp add: show_int_def)
  moreover have "cstr ?b = ?b" using form_text_no_nul [of "CHR ''&''" ps] by (intro cstr_id) simp
  ultimately have "getquery_post getenv (?b @ rest) = Inr (Some ?b, rest)"
    using assms(3,5,6) by (simp add: getquery_post_def Let_def fgetc_n_def)
  moreover have "parse_opt (CHR ''='') (CHR ''&'') (Some ?b) cs = Inr (cs @ ps)"
    using parse_form [OF assms(4)] by (simp add: parse_opt_def)
  ultimately show ?thesis using assms(2) by (simp add: qcgireq_parse_def browser_parse [OF assms(1)])
qed

text \<open>A boundary that arrives as it is: it is short, not quoted and has no blanks at its ends.\<close>

definition plain_boundary :: "string \<Rightarrow> bool" where
  "plain_boundary bound \<longleftrightarrow> header_text bound \<and> cr \<notin> set bound \<and> length bound < 250 \<and> hd bound \<noteq> CHR 0x22"

definition multipart_type :: "string \<Rightarrow> string" where
  "multipart_type bound = ''multipart/form-data; boundary='' @ bound"

lemma multipart_starts:
  assumes "plain_boundary bound"
  shows "parse_multipart pf (multipart_type bound) (''--'' @ bound @ crlf @ r) e fs0 =
    parts pf (map_option cstr (qentry_get e ''_Q_UPLOAD_BASEPATH'')) (''--'' @ bound) r e fs0"
proof -
  have b: "bound \<noteq> []" "hd bound \<noteq> CHR 0x22" "length bound < 250" "header_text bound" using assms by (auto simp: plain_boundary_def header_text_def)
  have "strstr_from (multipart_type bound) ''boundary='' = Some (''boundary='' @ bound)"
    by (simp add: multipart_type_def strstr_from_Cons)
  moreover have "strunchar (CHR 0x22) (CHR 0x22) (q_strtrim bound) = bound"
    using strtrim_edges [of bound "[]"] b by (simp add: header_text_def strunchar_def)
  moreover have "first_line ((''--'' @ bound) @ crlf @ r) = (Some (''--'' @ bound), r)"
    by (rule first_line_step) (use b in \<open>auto simp: header_text_def trim_char_def\<close>)
  ultimately show ?thesis using b(3) by (simp add: parse_multipart_def Let_def)
qed

lemma parts_need_input: "parts pf basepath b stdin e fs = Some r \<Longrightarrow> stdin \<noteq> []"
proof (rule parts.raw_induct [of "\<lambda>pf basepath b stdin e fs r. stdin \<noteq> []"])
  fix loop pf basepath b stdin e fs r
  assume IH: "\<And>pf basepath b stdin e fs r. loop pf basepath b stdin e fs = Some r \<Longrightarrow> stdin \<noteq> []"
    and step: "(case headers stdin no_part of Inl f \<Rightarrow> Some (Inl f)
      | Inr (p, r) \<Rightarrow> (case p_name p of None \<Rightarrow> loop pf basepath b r e fs
        | Some name \<Rightarrow> (case store_part pf basepath b name p r e fs of (e, finish, r, fs) \<Rightarrow>
            if finish then Some (Inr (e, r, fs)) else loop pf basepath b r e fs))) = Some r"
  show "stdin \<noteq> []"
  proof
    assume "stdin = []"
    moreover have "headers [] no_part = Inr (no_part, [])"
      by (subst headers.simps) (simp add: q_fgets_def Let_def fgets_chunk_def)
    ultimately have "loop pf basepath b [] e fs = Some r" using step by (simp add: no_part_def)
    then show False using IH by blast
  qed
qed

lemma upload_parsed:
  assumes "browser_sends getenv cs fs" "getenv ''CONTENT_TYPE'' = Some (multipart_type bound)" "plain_boundary bound"
    and "qentry_get cs ''_Q_UPLOAD_BASEPATH'' = None"
    and "field_name name" "field_name filename" "header_text ctype" "length ctype < 256" "delimits (''--'' @ bound) data"
    and "memory_for (pf_malloc pf) (length (upload_body bound name filename ctype data))" "length (upload_body bound name filename ctype data) < 2 ^ 30"
  shows "qcgireq_parse pf getenv (upload_body bound name filename ctype data) fs0 =
    Some (Inr (cs @ file_entries name filename ctype data @ fs, crlf, fs0))"
proof -
  have "prefix ''multipart/form-data'' (multipart_type bound)" "\<not> prefix ''application/x-www-form-urlencoded'' (multipart_type bound)"
    by (simp_all add: multipart_type_def)
  moreover have "parse_multipart pf (multipart_type bound) (upload_body bound name filename ctype data) cs fs0 =
      Some (Inr (cs @ file_entries name filename ctype data, crlf, fs0))"
    unfolding upload_body_def multipart_starts [OF assms(3)]
    using upload_parts [OF assms(5-11), of cs fs0] assms(4) by simp
  ultimately show ?thesis using assms(2) by (simp add: qcgireq_parse_def browser_parse [OF assms(1)])
qed

section \<open>Properties of the request parser\<close>

text \<open>
  C11. Forms arrive as they were sent. A posted form, with cookies and a query string, each encoded by
  \<open>_q_urlencode\<close>, is decoded to exactly its fields, in the order cookies, body, query string; the parser takes
  the bytes of the body from the input and no more.
\<close>

theorem form_roundtrip:
  assumes "browser_sends getenv cs fs" "getenv ''CONTENT_TYPE'' = Some ''application/x-www-form-urlencoded''"
    and "getenv ''REQUEST_METHOD'' = Some ''POST''"
    and "plain_form ps" "getenv ''CONTENT_LENGTH'' = Some (show_nat (length (form_text (CHR ''&'') ps)))"
    and "length (form_text (CHR ''&'') ps) < 2147483647"
  shows "qcgireq_parse pf getenv (form_text (CHR ''&'') ps @ rest) fs0 = Some (Inr (cs @ ps @ fs, rest, fs0))"
  using assms by (rule post_request_parsed)

text \<open>A system where nothing runs out.\<close>

definition roomy :: "string option \<Rightarrow> platform" where
  "roomy path = \<lparr>pf_mkstemp = (\<lambda>_. path), pf_malloc = (\<lambda>_. True), pf_write = (\<lambda>_ n. n)\<rparr>"

lemma roomy_facts [simp]:
  "memory_for (pf_malloc (roomy path)) n" "takes_all (pf_write (roomy path))" "pf_mkstemp (roomy path) t = path"
  by (simp_all add: roomy_def memory_for_def takes_all_def)

definition form_env :: env where
  "form_env = [''HTTP_COOKIE'' \<mapsto> ''lang=en'', ''QUERY_STRING'' \<mapsto> ''cmd=set'', ''REQUEST_METHOD'' \<mapsto> ''POST'',
     ''CONTENT_TYPE'' \<mapsto> ''application/x-www-form-urlencoded'', ''CONTENT_LENGTH'' \<mapsto> ''14'']"

theorem form_roundtrip_witness:
  "qcgireq_parse (roomy None) form_env ''a=%26%3d&b=1x2!'' Map.empty =
     Some (Inr ([(''lang'', ''en''), (''a'', ''&=''), (''b'', ''1x2''), (''cmd'', ''set'')], ''!'', Map.empty))"
proof -
  let ?ps = "[(''a'', ''&=''), (''b'', ''1x2'')]"
  have t: "form_text (CHR ''&'') ?ps = ''a=%26%3d&b=1x2''" "form_text (CHR '';'') [(''lang'', ''en'')] = ''lang=en''"
    "form_text (CHR ''&'') [(''cmd'', ''set'')] = ''cmd=set''" by code_simp+
  have len: "show_nat (length (form_text (CHR ''&'') ?ps)) = ''14''" by code_simp
  have "qcgireq_parse (roomy None) form_env (form_text (CHR ''&'') ?ps @ ''!'') Map.empty =
      Some (Inr ([(''lang'', ''en'')] @ ?ps @ [(''cmd'', ''set'')], ''!'', Map.empty))"
  proof (rule form_roundtrip)
    show "browser_sends form_env [(''lang'', ''en'')] [(''cmd'', ''set'')]"
      unfolding browser_sends_def t by (simp add: form_env_def plain_form_def)
    show "form_env ''CONTENT_LENGTH'' = Some (show_nat (length (form_text (CHR ''&'') ?ps)))"
      unfolding len by (simp add: form_env_def)
    show "length (form_text (CHR ''&'') ?ps) < 2147483647" unfolding t by simp
  qed (simp_all add: form_env_def plain_form_def)
  then show ?thesis unfolding t by simp
qed

text \<open>
  Files arrive as they were sent. A form with a file, as a browser sends it, gives an entry with exactly the
  bytes of the file, null bytes included, and the entries that tell their number, the name and the type,
  whatever the bytes are as long as the delimiter is not among them, as the sender has to make sure.
\<close>

theorem upload_roundtrip:
  assumes "browser_sends getenv cs fs" "getenv ''CONTENT_TYPE'' = Some (multipart_type bound)" "plain_boundary bound"
    and "qentry_get cs ''_Q_UPLOAD_BASEPATH'' = None"
    and "field_name name" "field_name filename" "header_text ctype" "length ctype < 256" "delimits (''--'' @ bound) data"
    and "memory_for (pf_malloc pf) (length (upload_body bound name filename ctype data))" "length (upload_body bound name filename ctype data) < 2 ^ 30"
  shows "qcgireq_parse pf getenv (upload_body bound name filename ctype data) fs0 =
    Some (Inr (cs @ file_entries name filename ctype data @ fs, crlf, fs0))"
  using assms by (rule upload_parsed)

definition upload_env :: "string option \<Rightarrow> env" where
  "upload_env cookie = (\<lambda>v. if v = ''HTTP_COOKIE'' then cookie else
     [''QUERY_STRING'' \<mapsto> ''cmd=fw'', ''REQUEST_METHOD'' \<mapsto> ''POST'',
      ''CONTENT_TYPE'' \<mapsto> ''multipart/form-data; boundary=XyZ''] v)"

lemma demo_upload_facts:
  "browser_sends (upload_env None) [] [(''cmd'', ''fw'')]" "upload_env c ''CONTENT_TYPE'' = Some (multipart_type ''XyZ'')"
  "plain_boundary ''XyZ''" "field_name ''file''" "field_name ''fw.img''" "header_text ''a/b''"
  "delimits (''--'' @ ''XyZ'') [nul, CHR ''-'', nl, cr]"
proof -
  have "form_text (CHR ''&'') [(''cmd'', ''fw'')] = ''cmd=fw''" by code_simp
  then show "browser_sends (upload_env None) [] [(''cmd'', ''fw'')]"
    by (simp add: browser_sends_def plain_form_def upload_env_def)
qed (simp_all add: upload_env_def multipart_type_def plain_boundary_def header_text_def field_name_def trim_char_def
    delimits_def flip: strstr_iff_sublist)

lemma show_4: "show_nat (Suc (Suc (Suc (Suc 0)))) = ''4''"
  by code_simp

lemma demo_upload_size: "length (upload_body ''XyZ'' ''file'' ''fw.img'' ''a/b'' [nul, CHR ''-'', nl, cr]) < 2 ^ 30"
  by (simp add: upload_body_def file_header_def disposition_name_def filename_mark_def content_type_def)

theorem upload_roundtrip_witness:
  "qcgireq_parse (roomy None) (upload_env None) (upload_body ''XyZ'' ''file'' ''fw.img'' ''a/b'' [nul, CHR ''-'', nl, cr]) Map.empty =
     Some (Inr ([(''file'', [nul, CHR ''-'', nl, cr]), (''file.length'', ''4''), (''file.filename'', ''fw.img''),
       (''file.contenttype'', ''a/b''), (''cmd'', ''fw'')], crlf, Map.empty))"
  using show_4 upload_roundtrip [OF demo_upload_facts(1-3) _ demo_upload_facts(4-6) _ demo_upload_facts(7) _ demo_upload_size, of "roomy None" Map.empty]
  by (simp add: qentry_get_def file_entries_def)

text \<open>
  C22. The buffer does not show. The routine that stores a file part on disk goes through a buffer of 16384 bytes, of
  which it keeps the end back for fear of cutting the delimiter. Where the file takes all that is written to it, it
  writes what the routine in memory would have returned, stops at the same place and tells the same about further
  parts; at a broken stream the file has all that came. Where writes fail or are short, the routine reports success
  only with the length, the place and the flag that the routine in memory has, and with a file of that length. There has to
  be memory for the value, and the body has less than one gigabyte: at \<open>2 ^ 30\<close> bytes the size of the buffer in memory
  leaves the range of an \<open>int\<close>.
\<close>

theorem disk_equals_memory:
  assumes "length boundary < 256" "memory_for ok (length stdin)" "length stdin < 2 ^ 30"
  shows "(takes_all taken \<longrightarrow>
      value_into_disk taken CHUNK_SIZE boundary ([], [], 0) stdin = (case value_into_memory ok CHUNK_SIZE boundary [] stdin of
        (None, r) \<Rightarrow> (None, stdin, r)
      | (Some (v, finish), r) \<Rightarrow> (Some (finish, word_of_nat (length v)), v, r))) \<and>
    (\<forall>finish n file r. value_into_disk taken CHUNK_SIZE boundary ([], [], 0) stdin = (Some (finish, n), file, r) \<longrightarrow>
      (\<exists>v. value_into_memory ok CHUNK_SIZE boundary [] stdin = (Some (v, finish), r) \<and>
         n = word_of_nat (length v) \<and> length file = length v))"
proof -
  have "disk_agrees taken stdin (value_into_memory ok CHUNK_SIZE boundary [] stdin)
      (value_into_disk taken CHUNK_SIZE boundary ([], [], 0) stdin)"
    using disk_scan [of boundary CHUNK_SIZE "[]" "[]" taken stdin] assms(1) memory_scan [OF assms(2,3) order_refl]
    by (simp add: CHUNK_SIZE_def)
  then show ?thesis by (auto simp: disk_agrees_def split: prod.splits option.splits)
qed

theorem disk_equals_memory_witness:
  "value_into_disk (\<lambda>_ n. n) CHUNK_SIZE ''--b'' ([], [], 0) (''x-'' @ crlf @ ''--b--'' @ crlf) = (Some (True, 2), ''x-'', crlf) \<and>
   value_into_disk (\<lambda>p n. if p = 0 then 1 else n) CHUNK_SIZE ''--b'' ([], [], 0) (''x-'' @ crlf @ ''--b--'' @ crlf) = (Some (True, 2), ''xx'', crlf) \<and>
   value_into_disk (\<lambda>_ _. 0) CHUNK_SIZE ''--b'' ([], [], 0) (''x-'' @ crlf @ ''--b--'' @ crlf) = (None, [], crlf)"
  (is "?a \<and> ?b \<and> ?c")
proof (intro conjI)
  let ?body = "''x-'' @ crlf @ ''--b--'' @ crlf"
  have m: "value_into_memory (\<lambda>_. True) CHUNK_SIZE ''--b'' [] ?body = (Some (''x-'', True), crlf)"
    by (simp add: value_end_def suffix_def Let_def value_buffer_def CHUNK_SIZE_def)
  have "takes_all (\<lambda>_ n. n)" "length ''--b'' < 256" "memory_for (\<lambda>_. True) (length ?body)" "length ?body < 2 ^ 30"
    by (simp_all add: takes_all_def memory_for_def)
  from disk_equals_memory [OF this(2-4), THEN conjunct1, rule_format, OF this(1)] show ?a
    unfolding m prod.case option.case by (simp only: list.size) simp
  have d: "value_into_disk taken CHUNK_SIZE ''--b'' ([], [], 0) ?body =
      (case save_rest taken [] ''x-'' of (ioerror, content) \<Rightarrow> (if ioerror then None else Some (True, 2), content, crlf))" for taken
    by (simp add: value_end_def suffix_def Let_def flush_buffer_def CHUNK_SIZE_def case_prod_beta)
  have s: "save_rest (\<lambda>p n. if p = 0 then 1 else n) [] ''x-'' = (False, ''xx'')" "save_rest (\<lambda>_ _. 0) [] ''x-'' = (True, [])"
    by code_simp+
  show ?b ?c unfolding d s prod.case if_True if_False by (rule refl)+
qed

text \<open>
  C40. The upload directory is the client's choice. \<open>qcgireq_parse\<close> puts cookies into the list before it reads the
  body, and looks up the option \<open>_Q_UPLOAD_BASEPATH\<close> in the same list. A request with a cookie of this name
  therefore writes its file to the directory it names, before any handler runs or any session is checked; the file has
  the bytes that were sent if the writes are complete, and is there even if they are not.
\<close>

theorem cookie_chooses_directory:
  assumes "browser_sends getenv cs fs" "getenv ''CONTENT_TYPE'' = Some (multipart_type bound)" "plain_boundary bound"
    and "qentry_get cs ''_Q_UPLOAD_BASEPATH'' = Some dir" "length dir < 4000"
    and "pf_mkstemp pf (dir @ ''/q_XXXXXX'') = Some path"
    and "field_name name" "field_name filename" "header_text ctype" "length ctype < 256" "delimits (''--'' @ bound) data"
  shows "\<exists>e r content. qcgireq_parse pf getenv (upload_body bound name filename ctype data) fs0 =
    Some (Inr (e, r, fs0(path \<mapsto> content))) \<and> (takes_all (pf_write pf) \<longrightarrow> r = crlf \<and> content = data)"
proof -
  have m: "prefix ''multipart/form-data'' (multipart_type bound)" "\<not> prefix ''application/x-www-form-urlencoded'' (multipart_type bound)"
    by (simp_all add: multipart_type_def)
  have "plain_form cs" using assms(1) by (simp add: browser_sends_def)
  then have dir: "cstr dir = dir" using assms(4) by (auto simp: plain_form_def qentry_get_def list_all_iff intro!: cstr_id dest!: map_of_SomeD)
  have len: "length (''--'' @ bound) < 256" using assms(3) by (simp add: plain_boundary_def)
  let ?v = "data @ crlf @ (''--'' @ bound) @ ''--'' @ crlf"
  obtain d content r where d: "value_into_disk (pf_write pf) CHUNK_SIZE (''--'' @ bound) ([], [], 0) ?v = (d, content, r)"
    by (metis prod_cases3)
  have "disk_agrees (pf_write pf) ?v (Some (data, True), crlf) (d, content, r)"
    using disk_scan [of "''--'' @ bound" CHUNK_SIZE "[]" "[]" "pf_write pf" ?v] len memory_value [OF assms(11), of "''--''" crlf]
    by (simp add: CHUNK_SIZE_def flip: d)
  then have fin: "d = None \<or> (\<exists>n. d = Some (True, n))" and all: "takes_all (pf_write pf) \<longrightarrow> r = crlf \<and> content = data"
    by (auto simp: disk_agrees_def)
  have "take 4095 (dir @ ''/q_XXXXXX'') = dir @ ''/q_XXXXXX''" using assms(5) by simp
  with d fin have "\<exists>e. parts pf (Some dir) (''--'' @ bound) (file_header name filename @ crlf @ (content_type @ ctype) @ crlf @ crlf @
      ?v) cs fs0 = Some (Inr (e, r, fs0(path \<mapsto> content)))"
    using assms(6) upload_headers [OF assms(7-10)]
    by (subst parts.simps) (auto simp: store_part_def disk_part_def)
  then have "\<exists>e. parse_multipart pf (multipart_type bound) (upload_body bound name filename ctype data) cs fs0 =
      Some (Inr (e, r, fs0(path \<mapsto> content)))"
    unfolding upload_body_def multipart_starts [OF assms(3)] using assms(4) dir by simp
  then show ?thesis using assms(2) m all by (auto simp: qcgireq_parse_def browser_parse [OF assms(1)])
qed

theorem cookie_chooses_directory_witness:
  "\<exists>e. qcgireq_parse (roomy (Some ''/etc/q_a1b2c3'')) (upload_env (Some ''_Q_UPLOAD_BASEPATH=/etc''))
      (upload_body ''XyZ'' ''file'' ''fw.img'' ''a/b'' [nul, CHR ''-'', nl, cr]) Map.empty =
    Some (Inr (e, crlf, [''/etc/q_a1b2c3'' \<mapsto> [nul, CHR ''-'', nl, cr]]))"
proof -
  let ?cs = "[(''_Q_UPLOAD_BASEPATH'', ''/etc'')]"
  have t: "form_text (CHR ''&'') [(''cmd'', ''fw'')] = ''cmd=fw''" "form_text (CHR '';'') ?cs = ''_Q_UPLOAD_BASEPATH=/etc''"
    by code_simp+
  have "browser_sends (upload_env (Some ''_Q_UPLOAD_BASEPATH=/etc'')) ?cs [(''cmd'', ''fw'')]"
    unfolding browser_sends_def t by (simp add: plain_form_def upload_env_def)
  from cookie_chooses_directory [OF this demo_upload_facts(2,3) _ _ _ demo_upload_facts(4-6) _ demo_upload_facts(7),
      of "''/etc''" "roomy (Some ''/etc/q_a1b2c3'')" "''/etc/q_a1b2c3''" Map.empty]
  show ?thesis by (auto simp: qentry_get_def)
qed

text \<open>
  A body that stops in front of a header. After the opening delimiter the loop over the parts takes a part
  without a name as a reason to try the next one, also when the input has ended: a request whose body is
  only the delimiter line keeps the process busy for ever.
\<close>

theorem empty_part_hangs:
  assumes "browser_sends getenv cs fs" "getenv ''CONTENT_TYPE'' = Some (multipart_type bound)" "plain_boundary bound"
  shows "qcgireq_parse pf getenv (''--'' @ bound @ crlf) fs0 = None"
proof -
  have m: "prefix ''multipart/form-data'' (multipart_type bound)" "\<not> prefix ''application/x-www-form-urlencoded'' (multipart_type bound)"
    by (simp_all add: multipart_type_def)
  have "parts pf basepath (''--'' @ bound) [] cs fs0 = None" for basepath
    using parts_need_input [of pf basepath "''--'' @ bound" "[]" cs fs0] by (cases "parts pf basepath (''--'' @ bound) [] cs fs0") auto
  then show ?thesis using assms(2) m multipart_starts [OF assms(3), of pf "[]" cs fs0]
    by (simp add: qcgireq_parse_def browser_parse [OF assms(1)])
qed

theorem empty_part_hangs_witness:
  "qcgireq_parse (roomy None) (upload_env None) (''--XyZ'' @ crlf) Map.empty = None"
  using empty_part_hangs [OF demo_upload_facts(1-3), of "roomy None" Map.empty] by simp

end
