(* ===== verification/Web.thy ===== *)
theory Web
  imports Public Gate System Netfilter Network Dhcp Ssl Ota Multipart
begin

text \<open>
  \<open>req.cgi\<close> as a whole: the command table of \<open>www/cgi-src/main.c\<close> with the handlers of the other
  theories, and what holds across them: a login opens every page for 600 seconds, a logout closes them,
  and the status pages leave the device as it is.
\<close>

text \<open>
  The environment is a parameter: the shell, the free space for an upload and the modem port.
\<close>

definition req_commands :: "shell \<Rightarrow> nat \<Rightarrow> modem_port \<Rightarrow> (string \<times> service) list" where
  "req_commands sh room port =
     [(''public'', returning (FTMC_Public sh)),
      (''page'', returning FTMC_Page),
      (''main'', returning FTMC_Main),
      (''network'', returning (FTMC_Network sh)),
      (''dhcp'', returning (FTMC_DHCP sh)),
      (''ssl'', returning (FTMC_SSL sh)),
      (''sslplus'', returning (FTMC_SSLPLUS sh)),
      (''secuwayssl'', returning (FTMC_SECUWAYSSL sh)),
      (''firewall'', returning (FTMC_Netfilter sh)),
      (''syslog'', returning (FTMC_Syslog sh)),
      (''system'', returning (FTMC_System sh room)),
      (''logout'', returning FTMC_Logout),
      (''ota'', FTMC_OTA sh port)]"

definition req_cgi :: "shell \<Rightarrow> nat \<Rightarrow> modem_port \<Rightarrow> string \<Rightarrow> cgi \<Rightarrow> cgi run" where
  "req_cgi sh room port argv0 w = req_main (req_commands sh room port) argv0 w"

text \<open>The whole process: the request is decoded from the environment and the input, then served.\<close>

definition req_process ::
  "platform \<Rightarrow> env \<Rightarrow> string \<Rightarrow> shell \<Rightarrow> nat \<Rightarrow> modem_port \<Rightarrow> string \<Rightarrow> cgi \<Rightarrow> cgi run" where
  "req_process pf getenv stdin sh room port argv0 w =
     bindR (qcgireq_parse pf getenv stdin (files w)) (\<lambda>(pReq, _, fs).
       req_cgi sh room port argv0 (w\<lparr>files := fs, req := pReq, req_live := True\<rparr>))"

section \<open>Sessions\<close>

lemma live_after_save:
  assumes "shm_wf s" "length tag = 32" "t - t0 \<le> VALID_TIME"
  shows "live_session (snd (FTMC_SaveSSID True tag t0 s)) tag t"
proof -
  let ?s = "snd (FTMC_SaveSSID True tag t0 s)"
  have "fst (FTMC_IsValidSSID tag t ?s) = 1" using saved_session_lifetime [OF assms(1,2), of t0 t] assms(3) by blast
  moreover have "shm_wf ?s" using assms(1,2) by (intro shm_wf_save) auto
  ultimately show ?thesis using IsValid_iff_live [of ?s tag t] assms(2) by (auto split: if_splits)
qed

lemma live_session_runs:
  assumes "shm_wf (pool w)" "map_of table a = Some f" "a \<noteq> ''public''"
    and "getstr w ''ssid'' = Some tag" "live_session (pool w) tag (now w)"
  obtains s where "req_main table a w = bindR (f (w\<lparr>pool := s\<rparr>)) (\<lambda>x. Some (req_end (snd x)))" "shm_wf s"
    "abs_shm s = (abs_shm (pool w))(tag \<mapsto> now w + VALID_TIME)"
proof -
  from assms(1,5) obtain s where s: "session_gate (can_create w) (Some tag) (now w) (pool w) = (True, s)"
    "shm_wf s" "abs_shm s = (abs_shm (pool w))(tag \<mapsto> now w + VALID_TIME)"
    by (rule gate_accept)
  with assms(2,3,4) show thesis
    by (intro that [of s]) (simp add: req_main_def req_serve_def, simp add: bindR_def split: option.split sum.split)
qed

lemma delete_forgets:
  assumes "shm_wf s"
  shows "abs_shm (fst (snd (FTMC_DeleteSSID tag s))) (take 32 tag) = None"
proof (cases s)
  case None
  then show ?thesis by (simp add: FTMC_DeleteSSID_def abs_shm_simps)
next
  case (Some p)
  then have wf: "buckets_wf (xBuckets p)" using assms by (simp add: pool_wf_def)
  have hit: "bucket_hit (take 32 tag) = bucket_hit tag" by (simp add: bucket_hit_def fun_eq_iff)
  show ?thesis
  proof (cases "first_idx (bucket_hit tag) (xBuckets p)")
    case None
    then show ?thesis using Some by (simp add: FTMC_DeleteSSID_def abs_shm_def sessions_def hit)
  next
    case (Some i)
    then have "i \<le> length (xBuckets p)" by (auto dest: first_idx_SomeD)
    from sessions_memset [OF wf this, of "take 32 tag"] Some \<open>s = Some p\<close> show ?thesis
      by (simp add: FTMC_DeleteSSID_def abs_shm_def hit)
  qed
qed

section \<open>Properties of the program\<close>

text \<open>
  C1. From login to page. If a request to \<open>public\<close> carries the user and password of the profile and a
  seed, the program returns, and its reply names an identifier with which every later request within
  600 seconds, for any other command, is handed to the handler of that command; nothing but the expiry of
  the session changes before.
\<close>

theorem login_opens_pages:
  assumes "shm_wf (pool w)" "can_create w" "req_live w" "\<not> exited w" "getstr w ''cmd'' = Some ''get_ssid''"
    and "FTMC_LoadProfileConfig (files w) = Inr (Some c)"
    and "getstr w ''id'' = Some (szUserID c)" "getstr w ''pw'' = Some (szPasswd c)" "getstr w ''seed'' = Some seed"
    and "shell_up sh" "\<forall>t fs fs'. sh ''uptime'' t fs \<noteq> Some ([], fs')"
  shows "\<exists>tag w'. req_cgi sh room port ''public'' w = Some (Inr w') \<and> length tag = 32 \<and> nul \<notin> set tag \<and>
    out w' = out (XML_PutHeader w) @
      concat (map line [open_tag ''FTM-50'', elem ''SSID'' tag, close_tag ''FTM-50'']) \<and>
    (\<forall>v a f. pool v = pool w' \<longrightarrow> now v - now w \<le> VALID_TIME \<longrightarrow> getstr v ''ssid'' = Some tag \<longrightarrow>
       a \<noteq> ''public'' \<longrightarrow> map_of (req_commands sh room port) a = Some f \<longrightarrow>
       (\<exists>s. req_cgi sh room port a v = bindR (f (v\<lparr>pool := s\<rparr>)) (\<lambda>x. Some (req_end (snd x))) \<and>
          abs_shm s = (abs_shm (pool v))(tag \<mapsto> now v + VALID_TIME)))"
proof -
  let ?w = "XML_PutHeader w"
  obtain tag w' where g: "get_ssid sh ?w = Inr (0, w')" "length tag = 32" "nul \<notin> set tag"
    "out w' = out ?w @ concat (map line [open_tag ''FTM-50'', elem ''SSID'' tag, close_tag ''FTM-50''])"
    "pool w' = snd (FTMC_SaveSSID (can_create ?w) tag (now ?w) (pool ?w))" "req_live w' = req_live ?w" "exited w' = exited ?w"
    by (rule get_ssid_granted [of ?w c sh]) (use assms in \<open>simp_all add: login_ok_def\<close>)
  have p: "pool w' = snd (FTMC_SaveSSID True tag (now w) (pool w))" using g(5) assms(2) by simp
  then have wf: "shm_wf (pool w')" using assms(1) g(2) by (simp add: shm_wf_save)
  let ?e = "w'\<lparr>req := [], req_live := False\<rparr>"
  have "req_cgi sh room port ''public'' w = Some (Inr ?e)"
    using g(1,6,7) assms(3,4,5)
    by (simp add: req_cgi_def req_main_def req_serve_def req_commands_def returning_def FTMC_Public_def req_end_def req_free_def)
  moreover have "\<exists>s. req_cgi sh room port a v = bindR (f (v\<lparr>pool := s\<rparr>)) (\<lambda>x. Some (req_end (snd x))) \<and>
      abs_shm s = (abs_shm (pool v))(tag \<mapsto> now v + VALID_TIME)"
    if "pool v = pool ?e" "now v - now w \<le> VALID_TIME" "getstr v ''ssid'' = Some tag" "a \<noteq> ''public''"
      "map_of (req_commands sh room port) a = Some f" for v a f
  proof -
    note v = that
    have "live_session (pool v) tag (now v)" using live_after_save [OF assms(1) g(2) v(2)] v(1) p by simp
    moreover have "shm_wf (pool v)" using wf v(1) by simp
    ultimately obtain s where "req_main (req_commands sh room port) a v =
        bindR (f (v\<lparr>pool := s\<rparr>)) (\<lambda>x. Some (req_end (snd x)))" "abs_shm s = (abs_shm (pool v))(tag \<mapsto> now v + VALID_TIME)"
      using live_session_runs [OF _ v(5,4,3)] by blast
    then show ?thesis unfolding req_cgi_def by blast
  qed
  ultimately show ?thesis using g(2,3,4) by (intro exI [of _ tag] exI [of _ ?e]) auto
qed

theorem login_opens_pages_witness:
  "\<exists>tag w' s. req_cgi web_shell 0 (demo_port None) ''public'' (web_world demo_files
      [(''cmd'', ''get_ssid''), (''id'', ''admin''), (''pw'', ''pw''), (''seed'', ''42'')]) = Some (Inr w') \<and>
    req_cgi web_shell 0 (demo_port None) ''logout'' ((web_world demo_files [(''ssid'', tag)])\<lparr>pool := pool w', now := 1600\<rparr>) =
      bindR (returning FTMC_Logout ((web_world demo_files [(''ssid'', tag)])\<lparr>now := 1600, pool := s\<rparr>)) (\<lambda>x. Some (req_end (snd x)))"
proof -
  let ?w = "web_world demo_files [(''cmd'', ''get_ssid''), (''id'', ''admin''), (''pw'', ''pw''), (''seed'', ''42'')]"
  let ?cmds = "req_commands web_shell 0 (demo_port None)"
  obtain q where q: "FTMC_LoadProfileConfig demo_files = Inr (Some q)" "szUserID q = ''admin''" "szPasswd q = ''pw''"
    by (rule demo_files_load)
  have w: "shm_wf (pool ?w)" "can_create ?w" "req_live ?w" "\<not> exited ?w" "now ?w = 1000"
    "getstr ?w ''cmd'' = Some ''get_ssid''" "FTMC_LoadProfileConfig (files ?w) = Inr (Some q)" "getstr ?w ''id'' = Some (szUserID q)"
    "getstr ?w ''pw'' = Some (szPasswd q)" "getstr ?w ''seed'' = Some ''42''"
    using q by (simp_all add: cstr_def) (simp_all add: web_world_def)
  obtain tag w' where t: "req_cgi web_shell 0 (demo_port None) ''public'' ?w = Some (Inr w')" "nul \<notin> set tag"
    "\<And>v a f. pool v = pool w' \<Longrightarrow> now v - now ?w \<le> VALID_TIME \<Longrightarrow> getstr v ''ssid'' = Some tag \<Longrightarrow>
       a \<noteq> ''public'' \<Longrightarrow> map_of ?cmds a = Some f \<Longrightarrow>
       \<exists>s. req_cgi web_shell 0 (demo_port None) a v = bindR (f (v\<lparr>pool := s\<rparr>)) (\<lambda>x. Some (req_end (snd x)))"
    using login_opens_pages [OF w(1,2,3,4,6,7,8,9,10) web_shell_up, of 0 "demo_port None"] web_shell_uptime by blast
  have "map_of ?cmds ''logout'' = Some (returning FTMC_Logout)" by (simp add: req_commands_def)
  moreover let ?v = "(web_world demo_files [(''ssid'', tag)])\<lparr>pool := pool w', now := 1600\<rparr>"
  have "getstr ?v ''ssid'' = Some tag" using t(2) by (simp add: getstr_def qentry_get_def cstr_id)
  moreover have "now ?v - now ?w \<le> VALID_TIME" using w(5) by (simp add: VALID_TIME_def)
  ultimately have "\<exists>s. req_cgi web_shell 0 (demo_port None) ''logout'' ?v =
      bindR (returning FTMC_Logout (?v\<lparr>pool := s\<rparr>)) (\<lambda>x. Some (req_end (snd x)))"
    by (intro t(3)) simp_all
  then obtain s where "req_cgi web_shell 0 (demo_port None) ''logout'' ?v =
      bindR (returning FTMC_Logout (?v\<lparr>pool := s\<rparr>)) (\<lambda>x. Some (req_end (snd x)))" by blast
  with t(1) show ?thesis by (intro exI [of _ tag] exI [of _ w'] exI [of _ s]) simp
qed

lemma gate_keeps_bucket:
  assumes "pool_wf p" "first_idx (bucket_hit tag) (xBuckets p) = Some i" "length tag = 32"
  shows "first_idx (bucket_hit tag) (save_buckets tag e (xBuckets p)) = Some i"
proof -
  have wf: "buckets_wf (save_buckets tag e (xBuckets p))"
    using assms(1,3) by (simp add: pool_wf_def buckets_wf_save)
  have i: "i < length (xBuckets p)" "bucket_hit tag (xBuckets p ! i)" using assms(2) by (auto dest: first_idx_SomeD)
  have "save_buckets tag e (xBuckets p) = (xBuckets p)[i := (xBuckets p ! i)\<lparr>xExpiredDate := e\<rparr>]"
    using assms(2) by (simp add: save_buckets_def)
  with i hit_first_idx [OF wf, of i tag] show ?thesis by (simp add: bucket_hit_def)
qed

text \<open>
  C14. Logout. Let the live session of a logout request be in bucket \<open>i\<close>. The pool that the deletion leaves has the earlier
  buckets as they were and no session in bucket \<open>i\<close> or any later one, so the identifier is refused from then on. For the first three buckets the
  request returns with that pool, and no file changes. From the fourth bucket on the deletion writes beyond the
  page of the segment and the process does not survive the request.
\<close>

theorem logout_ends_session:
  assumes "shm_wf (pool w)" "req_live w" "\<not> exited w" "getstr w ''ssid'' = Some tag" "live_session (pool w) tag (now w)"
    and "pool w = Some p" "first_idx (bucket_hit tag) (xBuckets p) = Some i"
  shows "\<exists>s. (\<exists>q. s = Some q \<and> xBuckets q = take i (xBuckets p) @ replicate (100 - i) zero_bucket) \<and>
    shm_wf s \<and> (\<forall>t. \<not> live_session s tag t) \<and>
    fst (snd (FTMC_DeleteSSID tag (snd (session_gate (can_create w) (Some tag) (now w) (pool w))))) = s \<and>
    (if i < 3
     then \<exists>w'. req_cgi sh room port ''logout'' w = Some (Inr w') \<and> pool w' = s \<and> files w' = files w \<and> cmds w' = cmds w
     else req_cgi sh room port ''logout'' w = Some (Inl BufferOverflow))"
proof -
  have wf: "pool_wf p" using assms(1,6) by simp
  have len: "length tag = 32" by (rule live_session_tag [OF assms(5)])
  let ?q = "p\<lparr>xBuckets := save_buckets tag (now w + VALID_TIME) (xBuckets p)\<rparr>"
  have q: "pool_wf ?q" using wf len by (simp add: pool_wf_def buckets_wf_save)
  have i: "i < length (xBuckets p)" using assms(7) by (auto dest: first_idx_SomeD)
  have idx: "first_idx (bucket_hit tag) (xBuckets ?q) = Some i" using gate_keeps_bucket [OF wf assms(7) len] by simp
  have early: "take i (xBuckets ?q) = take i (xBuckets p)" using assms(7) by (simp add: save_buckets_def)
  have gate: "session_gate (can_create w) (Some tag) (now w) (pool w) = (True, Some ?q)"
  proof -
    have "FTMC_IsValidSSID tag (now w) (pool w) = (1, pool w)"
      using IsValid_iff_live [OF assms(1) len, of "now w"] IsValid_accept_pool [of tag "now w" "pool w"] assms(5)
      by (metis prod.collapse)
    with len assms(6) SaveSSID_Some [OF wf] show ?thesis by (simp add: session_gate_def)
  qed
  let ?r = "?q\<lparr>xBuckets := take i (xBuckets p) @ replicate (100 - i) zero_bucket\<rparr>"
  have del: "FTMC_DeleteSSID tag (Some ?q) = (0, Some ?r, 4 + 40 * i)"
    using delete_wipes_later_buckets [OF q idx] unfolding early .
  have r: "shm_wf (Some ?r)" "\<not> live_session (Some ?r) tag t" for t
    using shm_wf_delete [of "Some ?q" tag] delete_forgets [of "Some ?q" tag] q len del by (simp_all add: live_session_def)
  have m: "map_of (req_commands sh room port) ''logout'' = Some (returning FTMC_Logout)" by (simp add: req_commands_def)
  have g: "getstr (w\<lparr>pool := Some ?q\<rparr>) ''ssid'' = Some tag" using assms(4) by (simp add: getstr_def)
  have run: "req_cgi sh room port ''logout'' w =
      bindR (returning FTMC_Logout (w\<lparr>pool := Some ?q\<rparr>)) (\<lambda>x. Some (req_end (snd x)))"
    using m gate assms(4) by (simp add: req_cgi_def req_main_def req_serve_def) (simp add: bindR_def split: option.split sum.split)
  have "page_rest < 4 + 40 * i \<longleftrightarrow> \<not> i < 3" by (auto simp: page_rest_def sizeof_POOL_def sizeof_SSID_def)
  with run g del assms(2,3) have "if i < 3
     then \<exists>w'. req_cgi sh room port ''logout'' w = Some (Inr w') \<and> pool w' = Some ?r \<and> files w' = files w \<and> cmds w' = cmds w
     else req_cgi sh room port ''logout'' w = Some (Inl BufferOverflow)"
    by (simp add: returning_def FTMC_Logout_def req_end_def req_free_def)
  with r del gate show ?thesis by (intro exI [of _ "Some ?r"]) simp
qed

theorem logout_ends_session_witness:
  "\<exists>w'. req_cgi web_shell 0 (demo_port None) ''logout'' ((web_world Map.empty [(''ssid'', tag_a)])\<lparr>pool := one_session\<rparr>) = Some (Inr w') \<and>
    \<not> live_session (pool w') tag_a 1001"
proof -
  let ?w = "(web_world Map.empty [(''ssid'', tag_a)])\<lparr>pool := one_session\<rparr>"
  let ?z = "zero_pool\<lparr>nValidTime := VALID_TIME\<rparr>"
  have w: "shm_wf (pool ?w)" "req_live ?w" "\<not> exited ?w" "getstr ?w ''ssid'' = Some tag_a" "live_session (pool ?w) tag_a (now ?w)"
    by (simp_all add: web_world_def one_session_facts live_session_def VALID_TIME_def getstr_def qentry_get_def cstr_def tag_a_def)
  have "pool ?w = Some (pool_save tag_a 900 ?z)"
    by (simp add: one_session_def FTMC_SaveSSID_def FTMC_GetPool_def pool_save_eq pool_wf_zero)
  moreover have "first_idx (bucket_hit tag_a) (xBuckets (pool_save tag_a 900 ?z)) = Some 0"
  proof (rule hit_first_idx)
    show "buckets_wf (xBuckets (pool_save tag_a 900 ?z))"
      using pool_wf_save [OF pool_wf_zero, of tag_a 900] by (simp add: tag_a_def pool_wf_def)
    have "first_idx (bucket_hit tag_a) (xBuckets ?z) = None" "first_idx (\<lambda>b. bValid b = 0) (xBuckets ?z) = Some 0"
      using sessions_zero [of VALID_TIME tag_a] by (simp add: sessions_def, intro first_idx_SomeI)
        (simp_all add: zero_pool_def zero_bucket_def)
    then have "xBuckets (pool_save tag_a 900 ?z) =
        (xBuckets ?z)[0 := \<lparr>bValid = 1, szTag = take 32 tag_a, xExpiredDate = 900 + VALID_TIME\<rparr>]"
      unfolding pool_save_eq [OF pool_wf_zero] by (simp add: save_buckets_def save_slot_eq)
    moreover have "length (xBuckets ?z) = 100" by (simp add: zero_pool_def)
    ultimately show "0 < length (xBuckets (pool_save tag_a 900 ?z))" "bucket_hit tag_a (xBuckets (pool_save tag_a 900 ?z) ! 0)"
      by (simp_all add: bucket_hit_def)
  qed
  ultimately show ?thesis
    using logout_ends_session [OF w, of "pool_save tag_a 900 ?z" 0 web_shell 0 "demo_port None"] by auto
qed

definition status_page :: "string \<Rightarrow> string \<Rightarrow> bool" where
  "status_page a cmd \<longleftrightarrow> a = ''syslog'' \<or> (a \<in> {''network'', ''firewall'', ''dhcp''} \<and> cmd = ''status'')"

text \<open>The scripts these pages call.\<close>

definition status_command :: "string \<Rightarrow> bool" where
  "status_command c \<longleftrightarrow> c \<in> {net_status_script, nf_status_script, dhcp_conf_script, dhcp_lease_script,
     ''/www/cgi-bin/status_syslog.sh''} \<or> (\<exists>i n. c = log_command i n)"

lemma status_page_handler:
  assumes "status_page a cmd" "\<And>c. status_command c \<Longrightarrow> reporting sh c"
  obtains f where "map_of (req_commands sh room port) a = Some (returning f)" "a \<noteq> ''public''"
    "\<And>v r v'. f v = Inr (r, v') \<Longrightarrow> getstr v ''cmd'' = Some cmd \<Longrightarrow> same_state v v'"
proof -
  have scripts: "reporting sh net_status_script" "reporting sh nf_status_script" "reporting sh dhcp_conf_script"
    "reporting sh dhcp_lease_script" "reporting sh ''/www/cgi-bin/status_syslog.sh''" "\<And>i n. reporting sh (log_command i n)"
    by (rule assms(2), force simp: status_command_def)+
  from assms(1) consider "a = ''syslog''" | "a = ''network''" "cmd = ''status''" | "a = ''firewall''" "cmd = ''status''"
    | "a = ''dhcp''" "cmd = ''status''" by (auto simp: status_page_def)
  then show thesis
  proof cases
    case 1
    with scripts show ?thesis
      by (intro that [of "FTMC_Syslog sh"]) (auto simp: req_commands_def intro: FTMC_Syslog_reads)
  next
    case 2
    with scripts show ?thesis
      by (intro that [of "FTMC_Network sh"]) (auto simp: req_commands_def FTMC_Network_def intro: net_status_reads)
  next
    case 3
    with scripts show ?thesis
      by (intro that [of "FTMC_Netfilter sh"]) (auto simp: req_commands_def FTMC_Netfilter_def intro: nf_status_reads)
  next
    case 4
    with scripts show ?thesis
      by (intro that [of "FTMC_DHCP sh"]) (auto simp: req_commands_def FTMC_DHCP_def intro: dhcp_status_reads)
  qed
qed

text \<open>
  C15. Looking is safe. On the status pages of network, firewall and DHCP server and on the log page, if the
  scripts they call (\<open>status_command\<close>) only report, whatever other commands do, then a request of a live session changes no file, and of the sessions only
  the expiry of its own.
\<close>

theorem status_pages_read_only:
  assumes "shm_wf (pool w)" "getstr w ''ssid'' = Some tag" "live_session (pool w) tag (now w)"
    and "getstr w ''cmd'' = Some cmd" "status_page a cmd" "\<forall>c. status_command c \<longrightarrow> reporting sh c"
    and "req_cgi sh room port a w = Some (Inr w')"
  shows "files w' = files w \<and> abs_shm (pool w') = (abs_shm (pool w))(tag \<mapsto> now w + VALID_TIME)"
proof -
  obtain f where f: "map_of (req_commands sh room port) a = Some (returning f)" "a \<noteq> ''public''"
    "\<And>v r v'. f v = Inr (r, v') \<Longrightarrow> getstr v ''cmd'' = Some cmd \<Longrightarrow> same_state v v'"
    using status_page_handler [OF assms(5), of sh room port] assms(6) by blast
  obtain s where s: "req_main (req_commands sh room port) a w =
      bindR (returning f (w\<lparr>pool := s\<rparr>)) (\<lambda>x. Some (req_end (snd x)))"
    "abs_shm s = (abs_shm (pool w))(tag \<mapsto> now w + VALID_TIME)"
    by (rule live_session_runs [OF assms(1) f(1,2) assms(2,3)])
  from s(1) assms(7) obtain r v where v: "f (w\<lparr>pool := s\<rparr>) = Inr (r, v)" "req_end v = Inr w'"
    by (auto simp: req_cgi_def returning_def bindR_eq_Inr_iff)
  have "getstr (w\<lparr>pool := s\<rparr>) ''cmd'' = Some cmd" using assms(4) by (simp add: getstr_def)
  from f(3) [OF v(1) this] same_system_end [OF v(2)] s(2) show ?thesis
    by (simp add: same_state_def same_system_def)
qed

definition quiet_shell :: shell where
  "quiet_shell cmd t fs = Some ([], fs)"

theorem status_pages_read_only_witness:
  "\<exists>w'. req_cgi quiet_shell 0 (demo_port None) ''network''
      ((web_world demo_files [(''ssid'', tag_a), (''cmd'', ''status'')])\<lparr>pool := one_session\<rparr>) = Some (Inr w') \<and>
    files w' = demo_files \<and> abs_shm (pool w') tag_a = Some 1600"
proof -
  let ?w = "(web_world demo_files [(''ssid'', tag_a), (''cmd'', ''status'')])\<lparr>pool := one_session\<rparr>"
  have w: "shm_wf (pool ?w)" "getstr ?w ''ssid'' = Some tag_a" "live_session (pool ?w) tag_a (now ?w)"
    "getstr ?w ''cmd'' = Some ''status''" "status_page ''network'' ''status''" "\<forall>c. status_command c \<longrightarrow> reporting quiet_shell c"
    by (simp_all add: one_session_facts live_session_def VALID_TIME_def getstr_def qentry_get_def cstr_def tag_a_def
        web_world_def status_page_def reporting_def quiet_shell_def)
  obtain s where "req_main (req_commands quiet_shell 0 (demo_port None)) ''network'' ?w =
      bindR (returning (FTMC_Network quiet_shell) (?w\<lparr>pool := s\<rparr>)) (\<lambda>x. Some (req_end (snd x)))"
    by (rule live_session_runs [OF w(1) _ _ w(2,3), of "req_commands quiet_shell 0 (demo_port None)" "''network''"])
      (simp_all add: req_commands_def)
  then have "\<exists>w'. req_cgi quiet_shell 0 (demo_port None) ''network'' ?w = Some (Inr w')"
    by (simp add: req_cgi_def returning_def FTMC_Network_def getstr_def qentry_get_def cstr_def web_world_def net_status_def
        popen_def quiet_shell_def each_output_line_def req_end_def req_free_def)
  then obtain w' where w': "req_cgi quiet_shell 0 (demo_port None) ''network'' ?w = Some (Inr w')" by blast
  from status_pages_read_only [OF w w'] w' show ?thesis by (auto simp: VALID_TIME_def web_world_def)
qed

lemma upload_stored:
  assumes "shm_wf (pool w)" "\<not> exited w" "live_session (pool w) tag (now w)" "nul \<notin> set tag"
    and "browser_sends getenv [] [(''ssid'', tag), (''cmd'', ''fw_upload'')]"
    and "getenv ''CONTENT_TYPE'' = Some (multipart_type bound)" "plain_boundary bound"
    and "field_name filename" "header_text ctype" "length ctype < 256" "delimits (''--'' @ bound) data"
    and "data \<noteq> []" "length (upload_body bound ''file'' filename ctype data) < 2 ^ 30" "length data \<le> room" "wperm w ''/tmp/new_fw''"
    and "memory_for (pf_malloc pf) (length (upload_body bound ''file'' filename ctype data))"
  shows "\<exists>w'. req_process pf getenv (upload_body bound ''file'' filename ctype data) sh room port ''system'' w = Some (Inr w') \<and>
    files w' = (files w)(''/tmp/new_fw'' \<mapsto> data) \<and> wperm w' = wperm w \<and> cmds w' = cmds w \<and>
    abs_shm (pool w') = (abs_shm (pool w))(tag \<mapsto> now w + VALID_TIME)"
proof -
  let ?e = "file_entries ''file'' filename ctype data @ [(''ssid'', tag), (''cmd'', ''fw_upload'')]"
  let ?w = "w\<lparr>req := ?e, req_live := True\<rparr>"
  have "field_name ''file''" by (simp add: field_name_def header_text_def trim_char_def)
  then have "qcgireq_parse pf getenv (upload_body bound ''file'' filename ctype data) (files w) = Some (Inr (?e, crlf, files w))"
    using assms(5-11,13,16) upload_parsed [of getenv "[]"] by (simp add: qentry_get_def)
  then have run: "req_process pf getenv (upload_body bound ''file'' filename ctype data) sh room port ''system'' w =
      req_cgi sh room port ''system'' ?w"
    by (simp add: req_process_def)
  have tag: "getstr ?w ''ssid'' = Some tag" using assms(4) by (simp add: getstr_def qentry_get_def file_entries_def cstr_id)
  have m: "map_of (req_commands sh room port) ''system'' = Some (returning (FTMC_System sh room))" by (simp add: req_commands_def)
  obtain s where s: "req_main (req_commands sh room port) ''system'' ?w =
      bindR (returning (FTMC_System sh room) (?w\<lparr>pool := s\<rparr>)) (\<lambda>x. Some (req_end (snd x)))"
    "abs_shm s = (abs_shm (pool w))(tag \<mapsto> now w + VALID_TIME)"
    using live_session_runs [OF _ m _ tag] assms(1,3) by force
  have "nul \<notin> set filename" using assms(8) by (simp add: field_name_def header_text_def)
  moreover have "nul \<notin> set (show_nat (length data))" using show_nat_digits [of nul "length data"] isdigit_not_space [of nul] by blast
  moreover have size: "length data \<le> 2147483647" using assms(13) by (simp add: upload_body_def)
  ultimately have f: "getstr (?w\<lparr>pool := s\<rparr>) ''cmd'' = Some ''fw_upload''" "qentry_get (req (?w\<lparr>pool := s\<rparr>)) ''file'' = Some data"
    "getint (?w\<lparr>pool := s\<rparr>) ''file.length'' = int (length data)" "getstr (?w\<lparr>pool := s\<rparr>) ''file.filename'' = Some filename"
    "wperm (?w\<lparr>pool := s\<rparr>) ''/tmp/new_fw''"
    using size assms(15) atoi_show_int [of "int (length data)" "[]"]
    by (simp_all add: getint_def getstr_def qentry_get_def file_entries_def cstr_id show_int_def)
  obtain r w1 where w1: "FTMC_System sh room (?w\<lparr>pool := s\<rparr>) = Inr (r, w1)" "files w1 = (files w)(''/tmp/new_fw'' \<mapsto> data)"
    "wperm w1 = wperm w" "cmds w1 = cmds w" "pool w1 = s" "req_live w1" "\<not> exited w1"
    using upload_core [OF f(1,2) assms(12) f(3-5) assms(14), of sh] assms(2) by force
  then have "req_cgi sh room port ''system'' ?w = Some (Inr (w1\<lparr>req := [], req_live := False\<rparr>))"
    unfolding req_cgi_def s(1) by (simp add: returning_def req_end_def req_free_def)
  with run w1 s(2) show ?thesis by simp
qed

text \<open>
  C9. Firmware upload, from the bytes on the wire to the file. A browser posts a form with a file to
  \<open>system\<close>, with the command \<open>fw_upload\<close> and a live session in the query string. Then \<open>/tmp/new_fw\<close> has
  exactly the bytes of the file, no other file has changed, no command was started and the session was
  renewed, for every content that fits and does not contain the delimiter, in a body of less than one gigabyte for
  which there is memory.
\<close>

theorem firmware_upload:
  assumes "shm_wf (pool w)" "\<not> exited w" "live_session (pool w) tag (now w)" "nul \<notin> set tag"
    and "browser_sends getenv [] [(''ssid'', tag), (''cmd'', ''fw_upload'')]"
    and "getenv ''CONTENT_TYPE'' = Some (multipart_type bound)" "plain_boundary bound"
    and "field_name filename" "header_text ctype" "length ctype < 256" "delimits (''--'' @ bound) data"
    and "data \<noteq> []" "length (upload_body bound ''file'' filename ctype data) < 2 ^ 30" "length data \<le> room" "wperm w ''/tmp/new_fw''"
    and "memory_for (pf_malloc pf) (length (upload_body bound ''file'' filename ctype data))"
  shows "\<exists>w'. req_process pf getenv (upload_body bound ''file'' filename ctype data) sh room port ''system'' w = Some (Inr w') \<and>
    files w' = (files w)(''/tmp/new_fw'' \<mapsto> data) \<and> cmds w' = cmds w \<and>
    abs_shm (pool w') = (abs_shm (pool w))(tag \<mapsto> now w + VALID_TIME)"
  using upload_stored [OF assms, of sh port] by blast

definition fw_env :: env where
  "fw_env = [''QUERY_STRING'' \<mapsto> form_text (CHR ''&'') [(''ssid'', tag_a), (''cmd'', ''fw_upload'')],
     ''CONTENT_TYPE'' \<mapsto> ''multipart/form-data; boundary=XyZ'']"

theorem firmware_upload_witness:
  "\<exists>w'. req_process (roomy None) fw_env
      (upload_body ''XyZ'' ''file'' ''fw.img'' ''a/b'' [nul, CHR ''-'', nl, cr]) web_shell 100 (demo_port None) ''system''
      ((web_world Map.empty [])\<lparr>pool := one_session\<rparr>) = Some (Inr w') \<and>
    files w' = [''/tmp/new_fw'' \<mapsto> [nul, CHR ''-'', nl, cr]]"
proof -
  have "browser_sends fw_env [] [(''ssid'', tag_a), (''cmd'', ''fw_upload'')]" "fw_env ''CONTENT_TYPE'' = Some (multipart_type ''XyZ'')"
    by (simp_all add: browser_sends_def plain_form_def tag_a_def multipart_type_def fw_env_def)
  note e = this
  have w: "shm_wf (pool ((web_world Map.empty [])\<lparr>pool := one_session\<rparr>))" "\<not> exited ((web_world Map.empty [])\<lparr>pool := one_session\<rparr>)"
    "live_session (pool ((web_world Map.empty [])\<lparr>pool := one_session\<rparr>)) tag_a (now ((web_world Map.empty [])\<lparr>pool := one_session\<rparr>))"
    "nul \<notin> set tag_a"
    by (simp_all add: one_session_facts live_session_def VALID_TIME_def tag_a_def web_world_def)
  from firmware_upload [OF w e demo_upload_facts(3,5,6) _ demo_upload_facts(7) _ demo_upload_size, of 100 "roomy None" web_shell "demo_port None"]
  show ?thesis by (auto simp: web_world_def)
qed

end
