(* ===== verification/Cookie.thy ===== *)
theory Cookie
  imports Query Public
begin

text \<open>
  The rest of \<open>qcgires.c\<close>: cookies, redirection and downloads, with the date of the C library (\<open>gmtime\<close> and \<open>strftime\<close>) that a
  cookie with an expiry needs. The time is the 32-bit \<open>time_t\<close> of the platform.
\<close>

section \<open>The calendar\<close>

definition leap :: "int \<Rightarrow> bool" where
  "leap y \<longleftrightarrow> 4 dvd y \<and> \<not> 100 dvd y \<or> 400 dvd y"

definition year_days :: "int \<Rightarrow> int" where
  "year_days y = (if leap y then 366 else 365)"

lemma year_days_bounds: "365 \<le> year_days y" "year_days y \<le> 366" "0 < year_days y"
  by (simp_all add: year_days_def)

text \<open>From a day counted from the first of January of a year to the year it falls into and the day there.\<close>

function year_of :: "int \<Rightarrow> int \<Rightarrow> int \<times> int" where
  "year_of y d = (if d < 0 then year_of (y - 1) (d + year_days (y - 1))
     else if d < year_days y then (y, d)
     else year_of (y + 1) (d - year_days y))"
  by pat_completeness auto
termination
  by (relation "measure (\<lambda>(y, d). nat (if d < 0 then 1000 - d else d))")
    (auto simp: year_days_def split: if_splits)

declare year_of.simps [simp del]

definition month_days :: "int \<Rightarrow> int list" where
  "month_days y = [31, if leap y then 29 else 28, 31, 30, 31, 30, 31, 31, 30, 31, 30, 31]"

fun month_of :: "int list \<Rightarrow> int \<Rightarrow> nat \<times> int" where
  "month_of [] d = (0, d)"
| "month_of (m # ms) d = (if d < m then (0, d) else case month_of ms (d - m) of (i, r) \<Rightarrow> (Suc i, r))"

record tm =
  tm_year :: int
  tm_mon :: nat
  tm_mday :: int
  tm_wday :: nat
  tm_hour :: int
  tm_min :: int
  tm_sec :: int

definition gmtime :: "int \<Rightarrow> tm" where
  "gmtime t = (let (y, yday) = year_of 1970 (t div 86400); (m, d) = month_of (month_days y) yday; s = t mod 86400
     in \<lparr>tm_year = y, tm_mon = m, tm_mday = d + 1, tm_wday = nat ((t div 86400 + 4) mod 7),
         tm_hour = s div 3600, tm_min = s div 60 mod 60, tm_sec = s mod 60\<rparr>)"

definition pad2 :: "int \<Rightarrow> string" where
  "pad2 n = (if n < 10 then ''0'' else []) @ show_int n"

definition day_names :: "string list" where
  "day_names = [''Sun'', ''Mon'', ''Tue'', ''Wed'', ''Thu'', ''Fri'', ''Sat'']"

definition month_names :: "string list" where
  "month_names = [''Jan'', ''Feb'', ''Mar'', ''Apr'', ''May'', ''Jun'', ''Jul'', ''Aug'', ''Sep'', ''Oct'', ''Nov'', ''Dec'']"

text \<open>\<open>strftime\<close> with \<open>"%a, %d %b %Y %H:%M:%S GMT"\<close>.\<close>

definition http_date :: "tm \<Rightarrow> string" where
  "http_date g = day_names ! tm_wday g @ '', '' @ pad2 (tm_mday g) @ '' '' @ month_names ! tm_mon g @ '' '' @
     show_int (tm_year g) @ '' '' @ pad2 (tm_hour g) @ '':'' @ pad2 (tm_min g) @ '':'' @ pad2 (tm_sec g) @ '' GMT''"

section \<open>Cookies\<close>

definition qcgires_getcontenttype :: "cgi \<Rightarrow> string option" where
  "qcgires_getcontenttype w = getstr w ''_Q_CONTENTTYPE''"

text \<open>\<open>strcat(cookie, ...)\<close> on the array of the cookie.\<close>

definition cookie_add :: "string \<Rightarrow> string \<Rightarrow> string res" where
  "cookie_add text cookie = sprintf (4 * 1024 + 256) (cookie @ text)"

definition cookie_expires :: "int \<Rightarrow> word32 \<Rightarrow> string \<Rightarrow> string res" where
  "cookie_expires expire t cookie = (if expire = 0 then Inr cookie
     else bindE (cookie_add ''; expires='' cookie) (\<lambda>cookie.
       bindE (sprintf 30 (http_date (gmtime (sint (t + word_of_int expire))))) (\<lambda>gmtstr. cookie_add gmtstr cookie)))"

text \<open>A path or domain that is refused is \<open>None\<close>.\<close>

definition cookie_path :: "string option \<Rightarrow> string \<Rightarrow> string option res" where
  "cookie_path path cookie = (case path of
      None \<Rightarrow> Inr (Some cookie)
    | Some p \<Rightarrow> if take 1 p \<noteq> ''/'' then Inr None
        else bindE (bindE (cookie_add ''; path='' cookie) (cookie_add p)) (\<lambda>cookie. Inr (Some cookie)))"

definition cookie_domain :: "string option \<Rightarrow> string \<Rightarrow> string option res" where
  "cookie_domain domain cookie = (case domain of
      None \<Rightarrow> Inr (Some cookie)
    | Some d \<Rightarrow> if strstr d ''/'' \<or> \<not> strstr d ''.'' then Inr None
        else bindE (bindE (cookie_add ''; domain='' cookie) (cookie_add d)) (\<lambda>cookie. Inr (Some cookie)))"

definition qcgires_setcookie ::
  "string \<Rightarrow> string \<Rightarrow> int \<Rightarrow> string option \<Rightarrow> string option \<Rightarrow> bool \<Rightarrow> cgi \<Rightarrow> (bool \<times> cgi) res" where
  "qcgires_setcookie name value expire path domain secure w =
     (if qcgires_getcontenttype w \<noteq> None then Inr (False, w)
      else bindE (cookie_expires expire (now w) (take (4 * 1024 + 255) (q_urlencode name @ ''='' @ q_urlencode value))) (\<lambda>cookie.
        bindE (cookie_path path cookie) (\<lambda>r. case r of None \<Rightarrow> Inr (False, w) | Some cookie \<Rightarrow>
        bindE (cookie_domain domain cookie) (\<lambda>r. case r of None \<Rightarrow> Inr (False, w) | Some cookie \<Rightarrow>
        bindE (if secure then cookie_add ''; secure'' cookie else Inr cookie) (\<lambda>cookie.
          Inr (True, puts (''Set-Cookie: '' @ cookie @ [nl]) w))))))"

definition qcgires_removecookie :: "string \<Rightarrow> string option \<Rightarrow> string option \<Rightarrow> bool \<Rightarrow> cgi \<Rightarrow> (bool \<times> cgi) res" where
  "qcgires_removecookie name path domain secure w = qcgires_setcookie name [] (- 1) path domain secure w"

definition qcgires_redirect :: "string \<Rightarrow> cgi \<Rightarrow> bool \<times> cgi" where
  "qcgires_redirect uri w = (if qcgires_getcontenttype w \<noteq> None then (False, w)
     else (True, puts (''Location: '' @ uri @ [nl, nl]) w))"

section \<open>Downloads\<close>

text \<open>\<open>basename\<close> of the C library: the last part of a path, without slashes at its end.\<close>

definition q_filename :: "string \<Rightarrow> string" where
  "q_filename filepath = (if filepath = [] then ''.''
     else let p = rev (dropWhile (\<lambda>c. c = CHR ''/'') (rev filepath)) in
       if p = [] then ''/'' else rev (takeWhile (\<lambda>c. c \<noteq> CHR ''/'') (rev p)))"

text \<open>The copy loop, in pieces of 4096 bytes; standard output takes what is written to it.\<close>

function iosend_loop :: "nat \<Rightarrow> nat \<Rightarrow> string \<Rightarrow> 'a os_scheme \<Rightarrow> nat \<times> 'a os_scheme" where
  "iosend_loop nbytes done_n input w =
     (if done_n < nbytes then
        let chunksize = (if nbytes - done_n \<le> 1024 * 4 then nbytes - done_n else 1024 * 4); buf = take chunksize input in
        if buf = [] then (done_n, w)
        else iosend_loop nbytes (done_n + length buf) (drop chunksize input) (puts buf w)
      else (done_n, w))"
  by pat_completeness auto
termination
proof (relation "measure (\<lambda>(nbytes, done_n, input, w). nbytes - done_n)", goal_cases)
  case (2 nbytes done_n input w chunksize buf)
  then have "0 < length buf" by blast
  with 2(1) show ?case by (simp del: length_greater_0_conv)
qed simp

declare iosend_loop.simps [simp del]

definition q_iosend :: "nat \<Rightarrow> string \<Rightarrow> 'a os_scheme \<Rightarrow> int \<times> 'a os_scheme" where
  "q_iosend nbytes input w = (if nbytes = 0 then (0, w)
     else case iosend_loop nbytes 0 input w of (done_n, w) \<Rightarrow> (if done_n > 0 then int done_n else - 1, w))"

definition qcgires_download :: "string option \<Rightarrow> string option \<Rightarrow> cgi \<Rightarrow> int \<times> cgi" where
  "qcgires_download filepath mimetype w = (if qcgires_getcontenttype w \<noteq> None then (- 1, w)
     else case filepath of None \<Rightarrow> (- 1, w) | Some path \<Rightarrow> (case files w path of
       None \<Rightarrow> (- 1, w)
     | Some content \<Rightarrow>
        let mime = (case mimetype of None \<Rightarrow> ''application/octet-stream'' | Some m \<Rightarrow> m);
            disposition = (if mime = ''application/octet-stream'' then ''attachment'' else ''inline'');
            w = puts (concat (map line
              [''Content-Disposition: '' @ disposition @ '';filename='' @ [CHR 0x22] @ q_filename path @ [CHR 0x22],
               ''Content-Transfer-Encoding: binary'', ''Accept-Ranges: bytes'',
               ''Content-Length: '' @ show_nat (length content), ''Connection: close''])) w
        in q_iosend (length content) content (qcgires_setcontenttype mime w)))"

lemma iosend_loop_all:
  "done_n + length input = nbytes \<Longrightarrow> iosend_loop nbytes done_n input w = (nbytes, puts input w)"
proof (induction nbytes done_n input w rule: iosend_loop.induct)
  case (1 nbytes done_n input w)
  show ?case
  proof (cases "done_n < nbytes")
    case False
    with "1.prems" have "input = []" by auto
    with False "1.prems" show ?thesis by (subst iosend_loop.simps) (simp add: puts_def)
  next
    case True
    let ?c = "if nbytes - done_n \<le> 1024 * 4 then nbytes - done_n else 1024 * 4"
    have ne: "take ?c input \<noteq> []" using True "1.prems" by auto
    have "done_n + length (take ?c input) + length (drop ?c input) = nbytes" using "1.prems" by simp
    from "1.IH" [OF True refl refl ne this] show ?thesis
      using True ne unfolding iosend_loop.simps [of nbytes done_n] by (simp add: puts_puts Let_def)
  qed
qed

text \<open>A download sends the whole file.\<close>

lemma q_iosend_all: "q_iosend (length content) content w = (int (length content), puts content w)"
  by (cases "content = []") (simp_all add: q_iosend_def iosend_loop_all puts_def)

section \<open>The date is right and fits\<close>

text \<open>Days before a year, by the rule of the calendar.\<close>

definition year_start :: "int \<Rightarrow> int" where
  "year_start y = 365 * y + (y - 1) div 4 - (y - 1) div 100 + (y - 1) div 400"

lemma div_pred: "0 < k \<Longrightarrow> (y :: int) div k = (y - 1) div k + (if k dvd y then 1 else 0)"
proof -
  assume k: "0 < k"
  show ?thesis
  proof (cases "k dvd y")
    case True
    then obtain q where "y = k * q" by blast
    moreover have "(k * q - 1) div k = q - 1"
      using k by (intro int_div_pos_eq [of _ _ _ "k - 1"]) (auto simp: algebra_simps)
    ultimately show ?thesis using k by simp
  next
    case False
    then have "0 < y mod k" using k by (simp add: dvd_eq_mod_eq_0 order_less_le)
    moreover have "y - 1 = k * (y div k) + (y mod k - 1)" by (simp add: algebra_simps)
    moreover have "y mod k - 1 < k" using pos_mod_bound [OF k, of y] by linarith
    ultimately have "(y - 1) div k = y div k" by (intro int_div_pos_eq [of _ _ _ "y mod k - 1"]) auto
    with False show ?thesis by simp
  qed
qed

lemma year_start_Suc: "year_start (y + 1) = year_start y + year_days y"
proof -
  have leaps: "100 dvd y \<Longrightarrow> 4 dvd y" "400 dvd y \<Longrightarrow> 100 dvd y"
    using dvd_trans [of 4 100 y] dvd_trans [of 100 400 y] by simp_all
  have "(y + 1 - 1) div k = (y - 1) div k + (if k dvd y then 1 else 0)" if "0 < k" for k
    using div_pred [OF that, of y] by simp
  then have "year_start (y + 1) = 365 * (y + 1) + ((y - 1) div 4 + (if 4 dvd y then 1 else 0)) -
      ((y - 1) div 100 + (if 100 dvd y then 1 else 0)) + ((y - 1) div 400 + (if 400 dvd y then 1 else 0))"
    unfolding year_start_def by simp
  also have "\<dots> = year_start y + (365 + ((if 4 dvd y then 1 else 0) - (if 100 dvd y then 1 else 0) + (if 400 dvd y then 1 else 0)))"
    unfolding year_start_def by (simp only: algebra_simps)
  also have "\<dots> = year_start y + year_days y"
    using leaps unfolding year_days_def leap_def by (cases "4 dvd y"; cases "100 dvd y"; cases "400 dvd y") simp_all
  finally show ?thesis .
qed

lemma year_of_civil: "year_of y d = (y', d') \<Longrightarrow> 0 \<le> d' \<and> d' < year_days y' \<and> year_start y' + d' = year_start y + d"
proof (induction y d rule: year_of.induct)
  case (1 y d)
  show ?case
  proof (cases "d < 0")
    case True
    with "1.IH"(1) "1.prems" show ?thesis using year_start_Suc [of "y - 1"] by (simp add: year_of.simps [of y d])
  next
    case False
    show ?thesis
    proof (cases "d < year_days y")
      case True
      with False "1.prems" show ?thesis by (simp add: year_of.simps [of y d])
    next
      case c: False
      with False "1.IH"(2) "1.prems" show ?thesis using year_start_Suc [of y] by (simp add: year_of.simps [of y d])
    qed
  qed
qed

lemma year_of_range:
  "year_of y d = (y', d') \<Longrightarrow> (0 \<le> d \<longrightarrow> y \<le> y' \<and> 365 * (y' - y) \<le> d) \<and> (d < 0 \<longrightarrow> y' \<le> y \<and> 365 * (y - 1 - y') \<le> - d)"
proof (induction y d rule: year_of.induct)
  case (1 y d)
  consider "d < 0" | "0 \<le> d" "d < year_days y" | "0 \<le> d" "\<not> d < year_days y" by linarith
  then show ?case
  proof cases
    case 1
    with "1.IH"(1) "1.prems" show ?thesis
      using year_days_bounds [of "y - 1"] by (simp add: year_of.simps [of y d] algebra_simps) linarith
  next
    case 2
    with "1.prems" show ?thesis by (simp add: year_of.simps [of y d])
  next
    case 3
    with "1.IH"(2) "1.prems" show ?thesis
      using year_days_bounds [of y] by (simp add: year_of.simps [of y d] algebra_simps)
  qed
qed

lemma seconds_split: "3600 * (s div 3600) + 60 * (s div 60 mod 60) + s mod 60 = (s :: int)"
proof -
  have "s div 3600 = s div 60 div 60" using zdiv_zmult2_eq [of 60 s 60] by simp
  then show ?thesis using mult_div_mod_eq [of 60 s] mult_div_mod_eq [of 60 "s div 60"] by linarith
qed

lemma month_of_civil:
  "month_of ms d = (i, r) \<Longrightarrow> 0 \<le> d \<Longrightarrow> d < sum_list ms \<Longrightarrow>
   i < length ms \<and> 0 \<le> r \<and> r < ms ! i \<and> sum_list (take i ms) + r = d"
  by (induction ms d arbitrary: i r rule: month_of.induct) (fastforce split: if_splits prod.splits)+

lemma sum_month_days: "sum_list (month_days y) = year_days y"
  by (simp add: month_days_def year_days_def)

text \<open>
  The calendar. The date of a time is the one of the Gregorian calendar: the days before its year, the days of the
  months before its month and the days before its day are the days since the epoch, and the parts are in range.
\<close>

theorem gmtime_civil:
  "let g = gmtime t in
     year_start (tm_year g) + sum_list (take (tm_mon g) (month_days (tm_year g))) + (tm_mday g - 1) =
       year_start 1970 + t div 86400 \<and>
     3600 * tm_hour g + 60 * tm_min g + tm_sec g = t mod 86400 \<and>
     tm_mon g < 12 \<and> 1 \<le> tm_mday g \<and> tm_mday g \<le> month_days (tm_year g) ! tm_mon g \<and> tm_wday g < 7 \<and>
     0 \<le> tm_hour g \<and> tm_hour g < 24 \<and> 0 \<le> tm_min g \<and> tm_min g < 60 \<and> 0 \<le> tm_sec g \<and> tm_sec g < 60"
proof -
  obtain y e where y: "year_of 1970 (t div 86400) = (y, e)" by fastforce
  obtain m d where m: "month_of (month_days y) e = (m, d)" by fastforce
  define D s h i q where "D = t div 86400" and "s = t mod 86400" and "h = s div 3600" and "i = s div 60 mod 60" and "q = s mod 60"
  note defs = D_def s_def h_def i_def q_def
  have g: "gmtime t = \<lparr>tm_year = y, tm_mon = m, tm_mday = d + 1, tm_wday = nat ((D + 4) mod 7), tm_hour = h, tm_min = i, tm_sec = q\<rparr>"
    by (simp only: gmtime_def y m defs Let_def prod.case)
  have s: "0 \<le> s" "s \<le> 86399" by (simp_all add: s_def)
  have h: "0 \<le> h" "h \<le> 23" "0 \<le> i" "i < 60" "0 \<le> q" "q < 60"
    using s zdiv_mono1 [OF s(2), of 3600] by (simp_all add: h_def i_def q_def pos_imp_zdiv_nonneg_iff)
  note c = year_of_civil [OF y, folded D_def]
  have "0 \<le> e" "e < sum_list (month_days y)" using c by (simp_all add: sum_month_days)
  note k = month_of_civil [OF m this]
  have "m < 12" using k by (simp add: month_days_def)
  moreover have "nat ((D + 4) mod 7) < 7" by (simp add: nat_less_iff)
  moreover have "3600 * h + 60 * i + q = s" unfolding h_def i_def q_def by (rule seconds_split)
  ultimately show ?thesis using h c k unfolding g Let_def s_def [symmetric] D_def [symmetric] by simp
qed

lemma length_pad2: "0 \<le> n \<Longrightarrow> n < 100 \<Longrightarrow> length (pad2 n) = 2"
  by (auto simp: pad2_def show_int_def show_nat.simps [of "nat n"] show_nat.simps [of "nat n div 10"])

lemma length_show_year: "1000 \<le> n \<Longrightarrow> n < 10000 \<Longrightarrow> length (show_int n) = 4"
  by (auto simp: show_int_def show_nat.simps [of "nat n"] show_nat.simps [of "nat n div 10"]
    show_nat.simps [of "nat n div 100"] show_nat.simps [of "nat n div 1000"] div_mult2_eq [symmetric])

lemma gmtime_year:
  assumes "- (2 ^ 31) \<le> t" "t < 2 ^ 31"
  shows "1901 \<le> tm_year (gmtime t)" "tm_year (gmtime t) \<le> 2038"
proof -
  obtain y e where y: "year_of 1970 (t div 86400) = (y, e)" by fastforce
  have "t div 86400 \<le> (2 ^ 31 - 1) div 86400" "- (2 ^ 31) div 86400 \<le> t div 86400"
    using assms by (intro zdiv_mono1; simp)+
  then have "t div 86400 \<le> 24855" "- 24856 \<le> t div 86400" by simp_all
  then have "1901 \<le> y \<and> y \<le> 2038"
    using year_of_range [OF y] by (cases "0 \<le> t div 86400") simp_all
  then show "1901 \<le> tm_year (gmtime t)" "tm_year (gmtime t) \<le> 2038"
    by (simp_all add: gmtime_def y Let_def split: prod.split)
qed

lemma length_names: "i < 7 \<Longrightarrow> length (day_names ! i) = 3" "j < 12 \<Longrightarrow> length (month_names ! j) = 3"
proof -
  have "\<forall>s \<in> set day_names. length s = 3" "length day_names = 7" by (simp_all add: day_names_def)
  then show "i < 7 \<Longrightarrow> length (day_names ! i) = 3" using nth_mem [of i day_names] by metis
  have "\<forall>s \<in> set month_names. length s = 3" "length month_names = 12" by (simp_all add: month_names_def)
  then show "j < 12 \<Longrightarrow> length (month_names ! j) = 3" using nth_mem [of j month_names] by metis
qed

lemma month_days_le: "m < 12 \<Longrightarrow> month_days y ! m \<le> 31"
proof -
  have "\<forall>d \<in> set (month_days y). d \<le> 31" "length (month_days y) = 12" by (simp_all add: month_days_def)
  then show "m < 12 \<Longrightarrow> ?thesis" using nth_mem [of m "month_days y"] by metis
qed

lemma length_http_date: "length (http_date (gmtime (sint (t :: word32)))) = 29"
proof -
  let ?g = "gmtime (sint t)"
  have "- (2 ^ 31) \<le> sint t" "sint t < 2 ^ 31" using uint32_range [of t] sint32 [of t] by (auto split: if_splits intro: order_trans [of _ 0])
  note y = gmtime_year [OF this]
  note c = gmtime_civil [of "sint t", unfolded Let_def]
  have "tm_mday ?g \<le> 31" using c month_days_le [of "tm_mon ?g" "tm_year ?g"] by linarith
  with c y have "length (pad2 (tm_mday ?g)) = 2" "length (pad2 (tm_hour ?g)) = 2" "length (pad2 (tm_min ?g)) = 2"
    "length (pad2 (tm_sec ?g)) = 2" "length (show_int (tm_year ?g)) = 4" "length (day_names ! tm_wday ?g) = 3"
    "length (month_names ! tm_mon ?g) = 3"
    using length_names by (simp_all add: length_pad2 length_show_year)
  then show ?thesis by (simp add: http_date_def)
qed

section \<open>Properties of cookies\<close>

definition cookie_text :: "string \<Rightarrow> string \<Rightarrow> int \<Rightarrow> string option \<Rightarrow> string option \<Rightarrow> bool \<Rightarrow> word32 \<Rightarrow> string" where
  "cookie_text name value expire path domain secure t =
     take 4351 (q_urlencode name @ ''='' @ q_urlencode value) @
     (if expire = 0 then [] else ''; expires='' @ http_date (gmtime (sint (t + word_of_int expire)))) @
     (case path of None \<Rightarrow> [] | Some p \<Rightarrow> ''; path='' @ p) @
     (case domain of None \<Rightarrow> [] | Some d \<Rightarrow> ''; domain='' @ d) @
     (if secure then ''; secure'' else [])"

lemma cookie_add_add: "bindE (cookie_add s c) (cookie_add t) = cookie_add (s @ t) c"
  by (simp add: cookie_add_def sprintf_def)

lemma bind_cookie_add: "bindE (cookie_add s c) (\<lambda>c. bindE (cookie_add t c) k) = bindE (cookie_add (s @ t) c) k"
  by (simp add: cookie_add_def sprintf_def)

lemma numeral_size: "(4 * 1024 + 255 :: nat) = 4351"
  by simp

lemma cookie_expires_add:
  assumes "length c < 4352"
  shows "cookie_expires e t c =
    cookie_add (if e = 0 then [] else ''; expires='' @ http_date (gmtime (sint (t + word_of_int e)))) c"
  using assms length_http_date [of "t + word_of_int e"] cookie_add_add [of "''; expires=''" c]
  by (simp add: cookie_expires_def cookie_add_def sprintf_def)

lemma cookie_path_add:
  assumes "case path of None \<Rightarrow> True | Some p \<Rightarrow> take 1 p = ''/''" "length c < 4352"
  shows "bindE (cookie_path path c) (\<lambda>r. case r of None \<Rightarrow> z | Some c \<Rightarrow> k c) =
    bindE (cookie_add (case path of None \<Rightarrow> [] | Some p \<Rightarrow> ''; path='' @ p) c) k"
  using assms cookie_add_add [of "''; path=''" c] by (cases path) (auto simp: cookie_path_def cookie_add_def sprintf_def)

lemma cookie_domain_add:
  assumes "case domain of None \<Rightarrow> True | Some d \<Rightarrow> \<not> strstr d ''/'' \<and> strstr d ''.''" "length c < 4352"
  shows "bindE (cookie_domain domain c) (\<lambda>r. case r of None \<Rightarrow> z | Some c \<Rightarrow> k c) =
    bindE (cookie_add (case domain of None \<Rightarrow> [] | Some d \<Rightarrow> ''; domain='' @ d) c) k"
  using assms cookie_add_add [of "''; domain=''" c] by (cases domain) (auto simp: cookie_domain_def cookie_add_def sprintf_def)

lemma cookie_secure_add:
  "length c < 4352 \<Longrightarrow> (if secure then cookie_add ''; secure'' c else Inr c) = cookie_add (if secure then ''; secure'' else []) c"
  by (simp add: cookie_add_def)

lemma bind_cookie_add_cong:
  "(\<And>c'. length c' < 4352 \<Longrightarrow> f c' = g c') \<Longrightarrow> bindE (cookie_add s c) f = bindE (cookie_add s c) g"
  by (auto simp: cookie_add_def sprintf_def)

text \<open>
  The header of a cookie. Before the content type is sent, with a path that starts with a slash and a domain with a
  dot and no slash, the call prints one \<open>Set-Cookie\<close> line with the encoded name and value, the date of the expiry
  and the other attributes, or, if these exceed the 4352 bytes of the array, writes beyond it: only name and value
  are cut to the size of the array, the attributes are not.
\<close>

theorem setcookie_outcome:
  assumes "qcgires_getcontenttype w = None"
    and path: "case path of None \<Rightarrow> True | Some p \<Rightarrow> take 1 p = ''/''"
    and domain: "case domain of None \<Rightarrow> True | Some d \<Rightarrow> \<not> strstr d ''/'' \<and> strstr d ''.''"
  shows "qcgires_setcookie name value expire path domain secure w =
    (let text = cookie_text name value expire path domain secure (now w)
     in if length text < 4352 then Inr (True, puts (''Set-Cookie: '' @ text @ [nl]) w) else Inl BufferOverflow)"
proof -
  let ?nv = "take 4351 (q_urlencode name @ ''='' @ q_urlencode value)"
  let ?print = "\<lambda>c. Inr (True, puts (''Set-Cookie: '' @ c @ [nl]) w)"
  have nv: "length ?nv < 4352" by simp
  have "qcgires_setcookie name value expire path domain secure w = bindE (cookie_expires expire (now w) ?nv) (\<lambda>c.
      bindE (cookie_path path c) (\<lambda>r. case r of None \<Rightarrow> Inr (False, w) | Some c \<Rightarrow>
      bindE (cookie_domain domain c) (\<lambda>r. case r of None \<Rightarrow> Inr (False, w) | Some c \<Rightarrow>
      bindE (if secure then cookie_add ''; secure'' c else Inr c) ?print)))"
    using assms(1) by (simp only: qcgires_setcookie_def numeral_size simp_thms if_False)
  also have "\<dots> = bindE (cookie_expires expire (now w) ?nv) (\<lambda>c.
      bindE (cookie_add (case path of None \<Rightarrow> [] | Some p \<Rightarrow> ''; path='' @ p) c) (\<lambda>c.
      bindE (cookie_add (case domain of None \<Rightarrow> [] | Some d \<Rightarrow> ''; domain='' @ d) c) (\<lambda>c.
      bindE (cookie_add (if secure then ''; secure'' else []) c) ?print)))"
    unfolding cookie_expires_add [OF nv]
    by (intro bind_cookie_add_cong | subst cookie_path_add [OF path] cookie_domain_add [OF domain] cookie_secure_add | assumption | rule refl)+
  also have "\<dots> = bindE (sprintf 4352 (cookie_text name value expire path domain secure (now w))) ?print"
    unfolding cookie_expires_add [OF nv] bind_cookie_add
    by (simp add: cookie_add_def cookie_text_def)
  finally show ?thesis by (simp add: sprintf_def Let_def)
qed

lemma example_date: "http_date (gmtime 87400) = ''Fri, 02 Jan 1970 00:16:40 GMT''"
  by code_simp

theorem setcookie_outcome_witness:
  "\<exists>w'. qcgires_setcookie ''k'' ''v'' 86400 (Some ''/'') None False (web_world Map.empty []) = Inr (True, w') \<and>
    out w' = ''Set-Cookie: k=v; expires=Fri, 02 Jan 1970 00:16:40 GMT; path=/'' @ [nl]"
proof -
  let ?w = "web_world Map.empty []"
  have "qcgires_getcontenttype ?w = None" "sint (now ?w + word_of_int 86400) = 87400" "out ?w = []"
    by (simp_all add: qcgires_getcontenttype_def web_world_def getstr_def qentry_get_def)
  then show ?thesis
    using setcookie_outcome [of ?w "Some ''/''" None "''k''" "''v''" 86400 False]
    by (simp add: cookie_text_def example_date q_urlencode_def url_char_def url_plain_def Let_def)
qed

end
