(* ===== verification/Iot.thy ===== *)
theory Iot
  imports Port Multipart Cookie
begin

text \<open>
  \<open>uitool\<close>: the modem pages. \<open>iot.cgi\<close> (\<open>main.c\<close> and one file per page) sends AT commands to the modem,
  some through the serial port and some through the shell; \<open>upload.cgi\<close> (\<open>upload.c\<close>) restores a configuration;
  \<open>rssi\<close> (\<open>rssi.c\<close>) watches the signal strength. Unlike \<open>req.cgi\<close> none of them asks for a session.
  Every page decodes the request a second time, after \<open>main\<close> has already done so.
\<close>

text \<open>What a handler needs besides the world: the shell, the port and how a request is decoded.\<close>

record iot_env =
  ie_shell :: shell
  ie_port :: modem_port
  ie_platform :: platform
  ie_getenv :: env
  ie_pclose :: "string \<Rightarrow> int"   \<comment> \<open>the exit status of a command, as \<open>pclose\<close> returns it\<close>

text \<open>The world together with the commands that were written to the port.\<close>

type_synonym iot = "cgi \<times> string list"
type_synonym iot_service = "iot_env \<Rightarrow> string \<Rightarrow> iot \<Rightarrow> iot run"

section \<open>Requests and replies\<close>

text \<open>
  \<open>qentry_t *req = qcgireq_parse(NULL, 0)\<close> in a handler: a list of its own, decoded from what the first
  decoding has left of the input. The body sees only this list; the list of \<open>main\<close> is there again afterwards.
\<close>

definition own_request :: "iot_env \<Rightarrow> string \<Rightarrow> (iot \<Rightarrow> iot run) \<Rightarrow> iot \<Rightarrow> iot run" where
  "own_request ie stdin body st = (case st of (w, sent) \<Rightarrow>
     bindR (qcgireq_parse (ie_platform ie) (ie_getenv ie) stdin (files w)) (\<lambda>(e, _, fs).
     bindR (body (w\<lparr>files := fs, req := e, req_live := True\<rparr>, sent)) (\<lambda>(w', sent').
     Some (Inr (w'\<lparr>req := req w, req_live := req_live w\<rparr>, sent')))))"

text \<open>\<open>strcmp(value, ...)\<close> on the parameter \<open>cmd\<close>.\<close>

definition on_cmd :: "(string \<Rightarrow> iot \<Rightarrow> iot run) \<Rightarrow> iot \<Rightarrow> iot run" where
  "on_cmd body st = (case getstr (fst st) ''cmd'' of
      None \<Rightarrow> Some (Inl NullPointer)
    | Some value \<Rightarrow> body value st)"

definition port_banner :: "int \<Rightarrow> string" where
  "port_banner fd = ''Port '' @ MODEM @ '' with file descriptor='' @ show_int fd"

definition iot_open_port :: "modem_port \<Rightarrow> 'a os_scheme \<times> string list \<Rightarrow> 'a os_scheme \<times> string list" where
  "iot_open_port m st = (case st of (w, sent) \<Rightarrow> (case mp_fd m of
      None \<Rightarrow> (puts ''open_port: Unable to open the port - '' w, sent)
    | Some fd \<Rightarrow> (puts (port_banner fd) w, sent)))"

text \<open>\<open>write\<close> on a port that could not be opened does nothing.\<close>

definition port_write :: "modem_port \<Rightarrow> string \<Rightarrow> 'w \<times> string list \<Rightarrow> 'w \<times> string list" where
  "port_write m cmd st = (if mp_fd m = None then st else (fst st, snd st @ [cmd]))"

section \<open>Pages that talk to the port\<close>

text \<open>The answers that end the wait.\<close>

definition at_code :: "string \<Rightarrow> (bool \<times> string) option" where
  "at_code buf = (if strstr buf ''OK'' then Some (True, buf)
     else if strstr buf ''ERROR'' then Some (False, buf) else None)"

definition at_reply :: "string option \<Rightarrow> bool \<times> string \<Rightarrow> cgi \<Rightarrow> cgi" where
  "at_reply command answer w = (case answer of (ok, buf) \<Rightarrow>
     let echo = (case command of None \<Rightarrow> [] | Some c \<Rightarrow> [elem ''command'' c]);
         w = qcgires_setcontenttype ''text/xml'' w
     in if ok then puts (close_tag ''data'') (say ([open_tag ''data'', elem ''res'' ''OK''] @ echo @ [elem ''text'' buf]) w)
        else say ([open_tag ''data''] @ echo @ [elem ''res'' ''ERROR'', elem ''text'' buf, close_tag ''data'']) w)"

text \<open>
  A command and the wait for its answer. \<open>shown\<close> is the command in the reply, which the \<open>state\<close> pages leave out.
\<close>

definition at_dialogue :: "iot_env \<Rightarrow> string \<Rightarrow> string option \<Rightarrow> iot \<Rightarrow> iot run" where
  "at_dialogue ie command shown st = (case port_write (ie_port ie) command st of (w, sent) \<Rightarrow>
     bindR (poll at_code (ie_port ie) 0) (\<lambda>answer. Some (Inr (at_reply shown answer w, sent))))"

text \<open>\<open>sprintf\<close> into 100 bytes, then the dialogue.\<close>

definition at_set :: "iot_env \<Rightarrow> string \<Rightarrow> iot \<Rightarrow> iot run" where
  "at_set ie text st = bindR (Some (sprintf 100 text)) (\<lambda>command. at_dialogue ie command (Some command) st)"

definition arg :: "iot \<Rightarrow> string \<Rightarrow> string" where
  "arg st name = str_arg (getstr (fst st) name)"

definition commas :: "string list \<Rightarrow> string" where
  "commas vs = concat (case vs of [] \<Rightarrow> [] | v # vs \<Rightarrow> v # map (Cons (CHR '','')) vs)"

definition IOT_ForcedCH :: iot_service where
  "IOT_ForcedCH ie stdin st = own_request ie stdin (on_cmd (\<lambda>value st.
     if value = ''state'' then at_dialogue ie (''AT#CHFIX?'' @ [cr]) None st
     else if value = ''set'' then
       (case getstr (fst st) ''ena'' of
          None \<Rightarrow> Some (Inl NullPointer)
        | Some ena \<Rightarrow>
           if ena = ''0'' then at_set ie (''AT#CHFIX='' @ ena @ [cr]) st
           else at_set ie (''AT#CHFIX='' @ commas [ena, arg st ''dl_uarfcn''] @ [cr]) st)
     else Some (Inr st))) (iot_open_port (ie_port ie) st)"

definition IOT_HSDPA :: iot_service where
  "IOT_HSDPA ie stdin st = own_request ie stdin (on_cmd (\<lambda>value st.
     if value = ''state'' then at_dialogue ie (''AT#HSDPA?'' @ [cr]) None st
     else if value = ''set'' then at_set ie (''AT#HSDPA='' @ commas [arg st ''mode'', arg st ''category''] @ [cr]) st
     else Some (Inr st))) (iot_open_port (ie_port ie) st)"

definition IOT_SecurityMode :: iot_service where
  "IOT_SecurityMode ie stdin st = own_request ie stdin (on_cmd (\<lambda>value st.
     if value = ''state'' then at_dialogue ie (''AT#EMSE?'' @ [cr]) None st
     else if value = ''set'' then
       at_set ie (''AT#EMSE='' @ commas [arg st ''integrity'', arg st ''ciphering'', arg st ''fakesecurity''] @ [cr]) st
     else Some (Inr st))) (iot_open_port (ie_port ie) st)"

definition IOT_StoredCellList :: iot_service where
  "IOT_StoredCellList ie stdin st = own_request ie stdin (on_cmd (\<lambda>value st.
     if value = ''set'' then at_set ie (''AT#EMCC'' @ [cr]) st
     else Some (Inr st))) (iot_open_port (ie_port ie) st)"

section \<open>Pages that talk to the shell\<close>

text \<open>
  A line of output in a reply. \<open>buf[strlen(buf) - 1] = 0\<close> cuts the line break, and writes in front of the array if
  the line starts with a null byte.
\<close>

definition chop :: "string \<Rightarrow> string res" where
  "chop buf = (if buf = [] then Inl BufferOverflow else Inr (butlast buf))"

definition data_line :: "string \<Rightarrow> string \<Rightarrow> string \<Rightarrow> cgi \<Rightarrow> cgi res" where
  "data_line tag tail buf w = bindE (chop buf) (\<lambda>buf.
     Inr (puts (close_tag ''data'' @ tail) (say [open_tag ''data'', elem ''res'' ''OK'', elem tag buf] w)))"

definition typed_line :: "string \<Rightarrow> cgi \<Rightarrow> cgi res" where
  "typed_line buf w = bindE (chop buf) (\<lambda>_. data_line ''text'' [] buf (qcgires_setcontenttype ''text/xml'' w))"

text \<open>\<open>fp = popen(...); while (fgets(buf, n, fp)) ...; pclose(fp);\<close> with no test of \<open>fp\<close>.\<close>

definition output_lines :: "iot_env \<Rightarrow> nat \<Rightarrow> string \<Rightarrow> (string \<Rightarrow> cgi \<Rightarrow> cgi res) \<Rightarrow> cgi \<Rightarrow> cgi res" where
  "output_lines ie n cmd f w = (case popen (ie_shell ie) cmd w of
      (None, _) \<Rightarrow> Inl NullPointer
    | (Some ans, w) \<Rightarrow> each_line f (fgets_all n ans) w)"

definition in_iot :: "(cgi \<Rightarrow> cgi res) \<Rightarrow> iot \<Rightarrow> iot run" where
  "in_iot f st = bindR (Some (f (fst st))) (\<lambda>w. Some (Inr (w, snd st)))"

definition echo_at :: "string \<Rightarrow> string" where
  "echo_at cmd = ''echo '' @ cmd @ '' > /dev/ttyS1; sleep 0.1''"

text \<open>A page that shows something: a command through the shell, then a script that prints the answer.\<close>

definition state_page :: "iot_env \<Rightarrow> nat \<Rightarrow> string \<Rightarrow> string \<Rightarrow> (string \<Rightarrow> cgi \<Rightarrow> cgi res) \<Rightarrow> iot \<Rightarrow> iot run" where
  "state_page ie n at script f = in_iot (\<lambda>w.
     output_lines ie n script f (snd (popen (ie_shell ie) (echo_at at) (qcgires_setcontenttype ''text/xml'' w))))"

text \<open>A page that sets something: the command line is made of the parameters in 100 bytes; \<open>pppd\<close> is killed after it.\<close>

definition kill_pppd :: string where "kill_pppd = ''/www/cgi-bin/scripts/killpppd.sh''"

definition set_page :: "iot_env \<Rightarrow> string \<Rightarrow> iot \<Rightarrow> iot run" where
  "set_page ie at = in_iot (\<lambda>w. bindE (sprintf 100 (echo_at at)) (\<lambda>command.
     bindE (output_lines ie 256 command typed_line w) (\<lambda>w. Inr (snd (popen (ie_shell ie) kill_pppd w)))))"

definition IOT_QOS :: iot_service where
  "IOT_QOS ie stdin = own_request ie stdin (on_cmd (\<lambda>value st.
     if value = ''state'' then state_page ie 256 ''AT+CGEQREQ?'' ''/www/cgi-bin/scripts/qos.sh'' (data_line ''text'' []) st
     else if value = ''set'' then
       set_page ie (''AT+CGEQREQ='' @ commas [arg st ''cid'', arg st ''traffic'', arg st ''mb_uplink'', arg st ''mb_dnlink'']) st
     else Some (Inr st)))"

definition IOT_APN :: iot_service where
  "IOT_APN ie stdin = own_request ie stdin (on_cmd (\<lambda>value st.
     if value = ''state'' then state_page ie 256 ''AT+CGDCONT?'' ''/www/cgi-bin/scripts/apn.sh'' (data_line ''text'' []) st
     else if value = ''set'' then
       set_page ie (''AT+CGDCONT='' @ commas [arg st ''cid'', arg st ''pdp_type'', arg st ''apn'', arg st ''pdp_addr'',
         arg st ''d_comp'', arg st ''h_comp'']) st
     else Some (Inr st)))"

definition IOT_NETWORK_STATE :: iot_service where
  "IOT_NETWORK_STATE ie stdin = own_request ie stdin (on_cmd (\<lambda>value st.
     if value = ''state'' then
       state_page ie 256 ''AT#RFSTS'' ''/www/cgi-bin/scripts/network_status.sh'' (data_line ''text'' []) st
     else Some (Inr st)))"

definition IOT_MODULE :: iot_service where
  "IOT_MODULE ie stdin = own_request ie stdin (on_cmd (\<lambda>value st.
     if value = ''state'' then state_page ie 256 ''AT#CGMR'' ''/www/cgi-bin/scripts/modem_ver.sh'' (data_line ''text'' []) st
     else Some (Inr st)))"

definition IOT_CNUM :: iot_service where
  "IOT_CNUM ie stdin = own_request ie stdin (on_cmd (\<lambda>value st.
     if value = ''state'' then state_page ie 256 ''AT+CNUM'' ''/www/cgi-bin/scripts/cnum.sh'' (data_line ''num'' [nl]) st
     else Some (Inr st)))"

definition IOT_USIM :: iot_service where
  "IOT_USIM ie stdin = own_request ie stdin (on_cmd (\<lambda>value st.
     if value = ''state'' then state_page ie 64 ''AT+CPIN?'' ''/www/cgi-bin/scripts/usim.sh'' (data_line ''text'' []) st
     else if value = ''state_status'' then
       state_page ie 64 ''AT+CREG?'' ''/www/cgi-bin/scripts/is_usim_status.sh'' (data_line ''text'' []) st
     else if value = ''state_nwcause'' then
       in_iot (\<lambda>w. output_lines ie 64 ''cat /tmp/nwcause'' (data_line ''text'' []) (qcgires_setcontenttype ''text/xml'' w)) st
     else Some (Inr st)))"

definition IOT_PPP_DATA :: iot_service where
  "IOT_PPP_DATA ie stdin = own_request ie stdin (on_cmd (\<lambda>value st.
     if value = ''state'' then in_iot (output_lines ie 256 ''/www/cgi-bin/getPPPData.sh'' typed_line) st
     else Some (Inr st)))"

definition IOT_INIT :: iot_service where
  "IOT_INIT ie stdin = own_request ie stdin (on_cmd (\<lambda>value st.
     if value = ''init'' then in_iot (\<lambda>w. req_free (puts ''Please try again in a few minutes.''
       (qcgires_setcontenttype ''text/html'' (snd (popen (ie_shell ie) ''./init.sh'' w))))) st
     else Some (Inr st)))"

definition IOT_CONFIG :: iot_service where
  "IOT_CONFIG ie stdin = own_request ie stdin (on_cmd (\<lambda>value st.
     if value = ''backup'' then in_iot (\<lambda>w.
       bindE (output_lines ie 256 ''./config_archive.sh'' (\<lambda>buff w. Inr (puts buff w)) w) (\<lambda>w.
       let w = print (''state is '' @ show_int (ie_pclose ie ''./config_archive.sh'')) w
       in system_wait (ie_shell ie) ''rm /tmp/config.tar.gz'' (snd (qcgires_download (Some ''/tmp/config.tar.gz'') (Some ''text/plain'') w)))) st
     else Some (Inr st)))"

section \<open>The program\<close>

definition iot_commands :: "(string \<times> iot_service) list" where
  "iot_commands =
     [(''forcedch'', IOT_ForcedCH), (''storedcell'', IOT_StoredCellList), (''securitymode'', IOT_SecurityMode),
      (''hsdpa'', IOT_HSDPA), (''init'', IOT_INIT), (''qos'', IOT_QOS), (''apn'', IOT_APN),
      (''network_state'', IOT_NETWORK_STATE), (''module'', IOT_MODULE), (''config'', IOT_CONFIG), (''cnum'', IOT_CNUM),
      (''usim'', IOT_USIM), (''getdata'', IOT_PPP_DATA)]"

definition iot_main :: "iot_env \<Rightarrow> string \<Rightarrow> string \<Rightarrow> iot \<Rightarrow> iot run" where
  "iot_main ie stdin argv0 st = (case st of (w, sent) \<Rightarrow>
     bindR (qcgireq_parse (ie_platform ie) (ie_getenv ie) stdin (files w)) (\<lambda>(pReq, rest, fs).
     let st = (w\<lparr>files := fs, req := pReq, req_live := True\<rparr>, sent) in
     bindR (case map_of iot_commands argv0 of
         None \<Rightarrow> in_iot (qcgires_error ''Not supported command!'') st
       | Some fService \<Rightarrow> fService ie rest st)
       (\<lambda>st. if exited (fst st) then Some (Inr st) else in_iot req_free st)))"

section \<open>Restoring a configuration (upload.c)\<close>

text \<open>
  \<open>open\<close> with \<open>O_CREAT|O_TRUNC\<close> and one \<open>write\<close> of as many bytes as the request says there are. The value has a
  terminator behind it; beyond that it is read past its end. A null pointer or a negative length make
  \<open>write\<close> fail. A disk that is full is not represented.
\<close>

definition savefile :: "string \<Rightarrow> string option \<Rightarrow> int \<Rightarrow> cgi \<Rightarrow> (int \<times> cgi) res" where
  "savefile filepath buf nbytes w = (if \<not> wperm w filepath then Inr (- 1, w)
     else case buf of
       None \<Rightarrow> Inr (- 1, write_file filepath [] w)
     | Some b \<Rightarrow>
        if nbytes < 0 then Inr (- 1, write_file filepath [] w)
        else if nbytes \<le> int (length b) + 1 then Inr (nbytes, write_file filepath (take (nat nbytes) (b @ [nul])) w)
        else Inl OutOfBoundsRead)"

definition open_fail :: "string \<Rightarrow> string" where
  "open_fail filepath = ''File('' @ filepath @ '') open fail. Please make sure CGI or directory has right permission.''"

definition restore_config :: "shell \<Rightarrow> cgi \<Rightarrow> cgi res" where
  "restore_config sh w = bindE (system_wait sh ''./config_unzip.sh'' w) (\<lambda>w.
     req_free (puts ''Please try again in a few minutes.''
       (qcgires_setcontenttype ''text/html'' (snd (popen sh ''./reboot.sh'' w)))))"

text \<open>\<open>main\<close> of \<open>upload.c\<close> after the request has been decoded; \<open>qcgires_error\<close> ends the process.\<close>

definition upload_serve :: "shell \<Rightarrow> cgi \<Rightarrow> cgi res" where
  "upload_serve sh w =
     (let filedata = qentry_get (req w) ''binary''; filelength = getint w ''binary.length'' in
      case getstr w ''binary.filename'' of
        None \<Rightarrow> qcgires_error ''Select file, please.'' w
      | Some filename \<Rightarrow>
         if filelength = 0 then qcgires_error ''Select file, please.'' w
         else bindE (sprintf 1024 (''/tmp/'' @ filename)) (\<lambda>filepath.
           bindE (savefile filepath filedata filelength w) (\<lambda>(count, w).
             if count < 0 then qcgires_error (open_fail filepath) w else restore_config sh w)))"

definition upload_main :: "iot_env \<Rightarrow> string \<Rightarrow> cgi \<Rightarrow> cgi run" where
  "upload_main ie stdin w =
     bindR (qcgireq_parse (ie_platform ie) (ie_getenv ie) stdin (files w)) (\<lambda>(pReq, _, fs).
       Some (upload_serve (ie_shell ie) (w\<lparr>files := fs, req := pReq, req_live := True\<rparr>)))"

section \<open>Watching the signal (rssi.c)\<close>

definition rssi_pipe :: string where
  "rssi_pipe = ''cat /tmp/rssi.log | awk '' @ [CHR 0x27] @ ''/RFSTS:/'' @ [CHR 0x27] @ '' | sed -e '' @ [CHR 0x27] @ ''s/,/ /g'' @
     [CHR 0x27] @ '' | awk '' @ [CHR 0x27] @ ''END {print $7}'' @ [CHR 0x27]"

definition stop_link :: string where "stop_link = ''killall mmon;service pppd stop''"
definition start_link :: string where "start_link = ''service pppd stop;mmon -d''"
definition link_status :: string where "link_status = ''service pppd status''"

text \<open>\<open>while (fgets(...))\<close> on a command that may fail to start, with the line cut.\<close>

definition status_lines :: "shell \<Rightarrow> string \<Rightarrow> (string \<Rightarrow> 'a os_scheme \<Rightarrow> 'a os_scheme res) \<Rightarrow> 'a os_scheme \<Rightarrow> 'a os_scheme res" where
  "status_lines sh cmd f w = (case popen sh cmd w of
      (None, w) \<Rightarrow> Inr w
    | (Some ans, w) \<Rightarrow> each_line (\<lambda>buf w. bindE (chop buf) (\<lambda>buf. f buf w)) (fgets_all 256 ans) w)"

text \<open>
  One line with the signal strength: a weak signal stops a running link together with its monitor, a
  good one starts the monitor if the link is not running.
\<close>

definition judge_signal :: "shell \<Rightarrow> string \<Rightarrow> 'a os_scheme \<Rightarrow> 'a os_scheme res" where
  "judge_signal sh rssiBuf w =
     (if atoi rssiBuf < - 100 then
        status_lines sh link_status (\<lambda>mdmBuf w. Inr (if mdmBuf = ''running'' then snd (popen sh stop_link w) else w)) w
      else status_lines sh link_status (\<lambda>mdmBuf w. Inr (if mdmBuf = ''running'' then w else snd (popen sh start_link w))) w)"

definition check :: "shell \<Rightarrow> 'a os_scheme \<Rightarrow> 'a os_scheme res" where
  "check sh w = status_lines sh rssi_pipe (judge_signal sh) w"

text \<open>\<open>fp = fopen(path, "w"); fprintf(fp, ...); fclose(fp);\<close> with no test of \<open>fp\<close>.\<close>

definition put_file :: "string \<Rightarrow> string \<Rightarrow> 'a os_scheme \<Rightarrow> 'a os_scheme res" where
  "put_file path text w = (if wperm w path then Inr (write_file path text w) else Inl NullPointer)"

definition timer_handler :: "shell \<Rightarrow> modem_port \<Rightarrow> 'a os_scheme \<times> string list \<Rightarrow> ('a os_scheme \<times> string list) run" where
  "timer_handler sh m st = (case port_write m (''AT#RFSTS'' @ [cr]) (iot_open_port m st) of (w, sent) \<Rightarrow>
     bindR (Some (put_file ''/tmp/isserial'' ''used'' w)) (\<lambda>w.
     bindR (poll at_code m 0) (\<lambda>(ok, buf).
     Some (bindE (put_file ''/tmp/rssi.log'' buf w) (\<lambda>w.
           bindE (if ok then check sh w else Inr w) (\<lambda>w.
           bindE (put_file ''/tmp/isserial'' ''none'' w) (\<lambda>w. Inr (w, sent))))))))"

text \<open>Asking for the telephone number; \<open>main\<close> has the call commented out.\<close>

definition phoneNumInit :: "shell \<Rightarrow> modem_port \<Rightarrow> 'a os_scheme \<times> string list \<Rightarrow> ('a os_scheme \<times> string list) run" where
  "phoneNumInit sh m st = (case port_write m (''AT+CNUM'' @ [cr]) (iot_open_port m st) of (w, sent) \<Rightarrow>
     bindR (poll at_code m 0) (\<lambda>(ok, numbuf).
     Some (bindE (put_file ''/tmp/pNum.log'' numbuf w) (\<lambda>w.
           if ok then bindE (system_wait sh ''cp /tmp/pNum.log /etc/pNum.log; sync'' w) (\<lambda>w.
             bindE (system_wait sh ''rm /tmp/pNum.log'' w) (\<lambda>w. Inr (w, sent)))
           else Inr (w, sent)))))"

text \<open>The timer has called the handler once for every port in the list, as the handler finds it then.\<close>

fun rssi_main :: "shell \<Rightarrow> modem_port list \<Rightarrow> 'a os_scheme \<times> string list \<Rightarrow> ('a os_scheme \<times> string list) run" where
  "rssi_main sh [] st = Some (Inr st)"
| "rssi_main sh (m # ms) st = bindR (timer_handler sh m st) (rssi_main sh ms)"

section \<open>Decoding twice\<close>

text \<open>A request without a body reads the same the second time.\<close>

lemma own_request_get:
  assumes "browser_sends (ie_getenv ie) cs fs" "ie_getenv ie ''CONTENT_TYPE'' = None"
  shows "own_request ie stdin body (w, sent) =
    bindR (body (w\<lparr>req := cs @ fs, req_live := True\<rparr>, sent)) (\<lambda>(w', sent'). Some (Inr (w'\<lparr>req := req w, req_live := req_live w\<rparr>, sent')))"
  using get_request_parsed [OF assms] by (simp add: own_request_def)

lemma iot_main_get:
  assumes "browser_sends (ie_getenv ie) cs fs" "ie_getenv ie ''CONTENT_TYPE'' = None" "map_of iot_commands a = Some f"
  shows "iot_main ie stdin a (w, sent) =
    bindR (f ie stdin (w\<lparr>req := cs @ fs, req_live := True\<rparr>, sent)) (\<lambda>st. if exited (fst st) then Some (Inr st) else in_iot req_free st)"
  using get_request_parsed [OF assms(1,2)] assms(3) by (simp add: iot_main_def Let_def)

text \<open>
  A posted form is gone the second time: the input is at its end, and as many times the character 0xFF as the
  form had bytes are taken for the body.
\<close>

lemma urldecode_ff: "q_urldecode (replicate n (CHR 0xFF)) = Inr (replicate n (CHR 0xFF))"
  by (induction n) simp_all

lemma parse_ff:
  assumes "sepchar \<in> {CHR ''&'', CHR '';''}" "0 < n"
  shows "parse_query (CHR ''='') sepchar (replicate n (CHR 0xFF)) e = Inr (e @ [(replicate n (CHR 0xFF), [])])"
proof -
  let ?r = "replicate n (CHR 0xFF)"
  have "q_makeword sepchar ?r = (?r, [])" "q_makeword (CHR ''='') ?r = (?r, [])"
    using assms(1) by (auto intro!: makeword_end)
  moreover have "q_strtrim ?r = ?r" by (rule strtrim_id) (auto simp: trim_char_def)
  moreover have "cstr ?r = ?r" by (rule cstr_id) auto
  ultimately show ?thesis using assms(2)
    by (subst parse_query.simps) (simp add: urldecode_ff qentry_putstr_def parse_query.simps [of _ _ "[]"])
qed

lemma second_post:
  assumes "browser_sends getenv cs fs" "getenv ''CONTENT_TYPE'' = Some ''application/x-www-form-urlencoded''"
    and "getenv ''REQUEST_METHOD'' = Some ''POST''" "getenv ''CONTENT_LENGTH'' = Some (show_nat n)" "0 < n" "n < 2147483647"
  shows "qcgireq_parse pf getenv [] fs0 = Some (Inr (cs @ (replicate n (CHR 0xFF), []) # fs, [], fs0))"
proof -
  let ?r = "replicate n (CHR 0xFF)"
  have "cstr ?r = ?r" by (rule cstr_id) auto
  moreover have "atoi (show_nat n) = int n" using assms(6) atoi_show_int [of "int n" "[]"] by (simp add: show_int_def)
  ultimately have "getquery_post getenv [] = Inr (Some ?r, [])"
    using assms(3-6) by (simp add: getquery_post_def Let_def fgetc_n_def)
  moreover have "parse_opt (CHR ''='') (CHR ''&'') (Some ?r) cs = Inr (cs @ [(?r, [])])"
    using parse_ff [of "CHR ''&''" n cs] assms(5) by (simp add: parse_opt_def)
  ultimately show ?thesis using assms(2) by (simp add: qcgireq_parse_def browser_parse [OF assms(1)])
qed

text \<open>Every page looks at the parameter \<open>cmd\<close> of its own list first.\<close>

lemmas page_defs = IOT_ForcedCH_def IOT_StoredCellList_def IOT_SecurityMode_def IOT_HSDPA_def IOT_INIT_def IOT_QOS_def
  IOT_APN_def IOT_NETWORK_STATE_def IOT_MODULE_def IOT_CONFIG_def IOT_CNUM_def IOT_USIM_def IOT_PPP_DATA_def

lemma own_request_no_cmd:
  assumes "qcgireq_parse (ie_platform ie) (ie_getenv ie) stdin (files (fst st)) = Some (Inr (e, r, fs0))" "qentry_get e ''cmd'' = None"
  shows "own_request ie stdin (on_cmd body) st = Some (Inl NullPointer)"
  using assms by (cases st) (simp add: own_request_def on_cmd_def getstr_def)

lemma page_no_cmd:
  assumes "map_of iot_commands a = Some f" "qentry_get e ''cmd'' = None"
    and "\<And>fs. qcgireq_parse (ie_platform ie) (ie_getenv ie) stdin fs = Some (Inr (e, r, fs))"
  shows "f ie stdin st = Some (Inl NullPointer)"
proof -
  have "own_request ie stdin (on_cmd body) st' = Some (Inl NullPointer)" for body st'
    using own_request_no_cmd [OF assms(3,2)] .
  with assms(1) show ?thesis by (auto simp: iot_commands_def page_defs split: if_splits)
qed

section \<open>Commands to the modem\<close>

text \<open>The command a page has to send for its parameters, without the carriage return.\<close>

definition at_command :: "string \<Rightarrow> qentry \<Rightarrow> string option" where
  "at_command a q = (let v = \<lambda>n. (case qentry_get q n of None \<Rightarrow> ''(null)'' | Some s \<Rightarrow> s) in
     if a = ''hsdpa'' then Some (''AT#HSDPA='' @ v ''mode'' @ '','' @ v ''category'')
     else if a = ''securitymode'' then
       Some (''AT#EMSE='' @ v ''integrity'' @ '','' @ v ''ciphering'' @ '','' @ v ''fakesecurity'')
     else if a = ''storedcell'' then Some ''AT#EMCC''
     else if a = ''forcedch'' then
       (case qentry_get q ''ena'' of
          None \<Rightarrow> None
        | Some ena \<Rightarrow> Some (''AT#CHFIX='' @ ena @ (if ena = ''0'' then [] else '','' @ v ''dl_uarfcn'')))
     else None)"

lemma getstr_plain:
  assumes "plain_form q" "req w = q"
  shows "getstr w n = qentry_get q n"
proof -
  have "cstr v = v" if "map_of q n = Some v" for v
    using assms(1) map_of_SomeD [OF that] by (auto simp: plain_form_def list_all_iff intro!: cstr_id)
  then show ?thesis using assms(2) by (cases "map_of q n") (auto simp: getstr_def qentry_get_def)
qed

lemma plain_form_append: "plain_form (cs @ fs) \<longleftrightarrow> plain_form cs \<and> plain_form fs"
  by (auto simp: plain_form_def)

lemma at_set_sends:
  assumes "length text < 100" "mp_fd (ie_port ie) \<noteq> None" "poll at_code (ie_port ie) 0 = Some (Inr answer)"
  shows "at_set ie text (w, sent) = Some (Inr (at_reply (Some text) answer w, sent @ [text]))"
  using assms by (simp add: at_set_def at_dialogue_def port_write_def)

text \<open>All four pages with a \<open>set\<close> for the port send the command of their parameters.\<close>

lemma at_page:
  assumes "browser_sends (ie_getenv ie) cs fs" "ie_getenv ie ''CONTENT_TYPE'' = None"
    and "qentry_get (cs @ fs) ''cmd'' = Some ''set''" "at_command a (cs @ fs) = Some text" "length text < 99"
    and "mp_fd (ie_port ie) = Some fd" "poll at_code (ie_port ie) 0 = Some (Inr answer)"
  obtains f where "map_of iot_commands a = Some f"
    "f ie stdin (w, sent) = Some (Inr ((at_reply (Some (text @ [cr])) answer
       (puts (port_banner fd) (w\<lparr>req := cs @ fs, req_live := True\<rparr>)))
         \<lparr>req := req w, req_live := req_live w\<rparr>, sent @ [text @ [cr]]))"
proof -
  let ?p = "puts (port_banner fd)"
  let ?w = "(?p w)\<lparr>req := cs @ fs, req_live := True\<rparr>"
  have pw: "?p (w\<lparr>req := cs @ fs, req_live := True\<rparr>) = ?w" "req (?p w) = req w" "req_live (?p w) = req_live w" by (simp_all add: puts_def)
  have q: "plain_form (cs @ fs)" using assms(1) by (simp add: plain_form_append browser_sends_def)
  have g: "getstr ?w n = qentry_get (cs @ fs) n" for n by (rule getstr_plain [OF q]) simp
  have o: "iot_open_port (ie_port ie) (w, sent) = (?p w, sent)" using assms(6) by (simp add: iot_open_port_def)
  have len: "length (text @ [cr]) < 100" using assms(5) by simp
  note send = at_set_sends [OF len, of ie answer ?w sent] own_request_get [OF assms(1,2)]
  note at_simps = iot_commands_def o send(2) on_cmd_def g at_command_def Let_def arg_def str_arg_def commas_def pw
  from assms(4) consider "a = ''hsdpa''" | "a = ''securitymode''" | "a = ''storedcell''" | "a = ''forcedch''"
    by (auto simp: at_command_def Let_def split: if_splits)
  then obtain f where "map_of iot_commands a = Some f"
    "f ie stdin (w, sent) = bindR (at_set ie (text @ [cr]) (?w, sent)) (\<lambda>(w', sent'). Some (Inr (w'\<lparr>req := req w, req_live := req_live w\<rparr>, sent')))"
  proof cases
    case 1
    then show ?thesis using assms(3,4) that [of IOT_HSDPA]
      by (auto simp: IOT_HSDPA_def at_simps)
  next
    case 2
    then show ?thesis using assms(3,4) that [of IOT_SecurityMode]
      by (auto simp: IOT_SecurityMode_def at_simps)
  next
    case 3
    then show ?thesis using assms(3,4) that [of IOT_StoredCellList]
      by (auto simp: IOT_StoredCellList_def at_simps)
  next
    case 4
    then show ?thesis using assms(3,4) that [of IOT_ForcedCH]
      by (auto simp: IOT_ForcedCH_def at_simps split: option.splits if_splits)
  qed
  with send(1) assms(6,7) show thesis by (intro that [of f]) (simp_all add: pw)
qed

text \<open>What a reply adds to the output, and that it changes nothing else.\<close>

definition reply_text :: "string \<Rightarrow> bool \<times> string \<Rightarrow> string" where
  "reply_text command answer = (case answer of (ok, buf) \<Rightarrow>
     if ok then line ''<data>'' @ line ''<res>OK</res>'' @ line (''<command>'' @ command @ ''</command>'') @
       line (''<text>'' @ buf @ ''</text>'') @ ''</data>''
     else line ''<data>'' @ line (''<command>'' @ command @ ''</command>'') @ line ''<res>ERROR</res>'' @
       line (''<text>'' @ buf @ ''</text>'') @ line ''</data>'')"

lemma at_reply_out:
  assumes "getstr w ''_Q_CONTENTTYPE'' = None"
  shows "out (at_reply (Some c) answer w) = out w @ ''Content-Type: text/xml'' @ [nl, nl] @ reply_text c answer"
  using assms
  by (cases answer) (simp add: at_reply_def Let_def qcgires_setcontenttype_def reply_text_def elem_def open_tag_def close_tag_def say_def line_def puts_def)

lemma at_reply_frame [simp]:
  "files (at_reply c answer w) = files w" "cmds (at_reply c answer w) = cmds w" "pool (at_reply c answer w) = pool w"
  "exited (at_reply c answer w) = exited w"
  by (simp_all add: at_reply_def Let_def split: prod.split)

section \<open>Properties of the modem pages\<close>

text \<open>
  C30. Commands to the modem. A request with \<open>cmd=set\<close> to one of the pages for channel, cell list, security mode
  and HSDPA writes exactly the AT command that its parameters describe to the port, once, and if the modem
  answers with OK or ERROR the page is the command and the answer. Nothing else changes; in particular
  the program has not looked at the sessions: there is no login for these pages.
\<close>

theorem modem_command_sent:
  assumes "browser_sends (ie_getenv ie) cs fs" "ie_getenv ie ''CONTENT_TYPE'' = None" "\<not> exited w"
    and "qentry_get (cs @ fs) ''cmd'' = Some ''set''" "qentry_get (cs @ fs) ''_Q_CONTENTTYPE'' = None"
    and "at_command a (cs @ fs) = Some text" "length text < 99"
    and "mp_fd (ie_port ie) = Some fd" "poll at_code (ie_port ie) 0 = Some (Inr answer)"
  shows "\<exists>w'. iot_main ie stdin a (w, sent) = Some (Inr (w', sent @ [text @ [cr]])) \<and>
    out w' = out w @ port_banner fd @ ''Content-Type: text/xml'' @ [nl, nl] @ reply_text (text @ [cr]) answer \<and>
    files w' = files w \<and> cmds w' = cmds w \<and> pool w' = pool w"
proof -
  let ?w = "w\<lparr>req := cs @ fs, req_live := True\<rparr>"
  obtain f where f: "map_of iot_commands a = Some f" "f ie stdin (?w, sent) = Some (Inr ((at_reply (Some (text @ [cr])) answer
       (puts (port_banner fd) ?w))\<lparr>req := cs @ fs, req_live := True\<rparr>, sent @ [text @ [cr]]))"
    by (rule at_page [OF assms(1,2,4,6,7,8,9), of stdin ?w sent]) simp
  have "getstr (puts (port_banner fd) ?w) ''_Q_CONTENTTYPE'' = None"
    using assms(5) by (simp add: getstr_def puts_def)
  note o = at_reply_out [OF this, of "text @ [cr]" answer]
  show ?thesis using assms(3) unfolding iot_main_get [OF assms(1,2) f(1)] f(2)
    by (simp add: in_iot_def req_free_def o)
qed

definition iot_demo_port :: "string option \<Rightarrow> modem_port" where
  "iot_demo_port first = \<lparr>mp_fd = Some 3, mp_setattr = None, mp_read = (\<lambda>n. if n = 0 then first else Some ''OK'')\<rparr>"

definition iot_demo :: iot_env where
  "iot_demo = \<lparr>ie_shell = (\<lambda>c t fs. Some ([], fs)), ie_port = iot_demo_port (Some ''OK''), ie_platform = roomy None,
     ie_getenv = [''QUERY_STRING'' \<mapsto> ''cmd=set&mode=1&category=6''], ie_pclose = (\<lambda>_. 0)\<rparr>"

lemma iot_demo_form: "browser_sends (ie_getenv iot_demo) [] [(''cmd'', ''set''), (''mode'', ''1''), (''category'', ''6'')]"
proof -
  have "form_text (CHR ''&'') [(''cmd'', ''set''), (''mode'', ''1''), (''category'', ''6'')] = ''cmd=set&mode=1&category=6''"
    by code_simp
  then show ?thesis by (simp add: browser_sends_def plain_form_def iot_demo_def)
qed

lemma iot_demo_poll: "poll at_code (ie_port iot_demo) 0 = Some (Inr (True, ''OK''))"
  by (rule poll_first [where bs = "''OK''"]) (simp_all add: iot_demo_def iot_demo_port_def at_code_def cstr_def)

theorem modem_command_sent_witness:
  "\<exists>w'. iot_main iot_demo [] ''hsdpa'' (web_world Map.empty [], []) = Some (Inr (w', [''AT#HSDPA=1,6'' @ [cr]]))"
  using modem_command_sent [OF iot_demo_form _ _ _ _ _ _ _ iot_demo_poll, of "web_world Map.empty []" "''hsdpa''" "''AT#HSDPA=1,6''" 3 "[]" "[]"]
  by (auto simp: iot_demo_def iot_demo_port_def web_world_def qentry_get_def at_command_def)

text \<open>
  Posted forms. A form that is posted to \<open>iot.cgi\<close>, with its \<open>cmd\<close> in the body, makes every page crash: the
  page decodes the request a second time, when the body has been read, finds no \<open>cmd\<close> and hands a null
  pointer to \<open>strcmp\<close>.
\<close>

theorem posted_form_crashes:
  assumes "browser_sends (ie_getenv ie) cs fs" "ie_getenv ie ''CONTENT_TYPE'' = Some ''application/x-www-form-urlencoded''"
    and "ie_getenv ie ''REQUEST_METHOD'' = Some ''POST''"
    and "plain_form ps" "ie_getenv ie ''CONTENT_LENGTH'' = Some (show_nat (length (form_text (CHR ''&'') ps)))"
    and "form_text (CHR ''&'') ps \<noteq> []" "length (form_text (CHR ''&'') ps) < 2147483647"
    and "qentry_get (cs @ fs) ''cmd'' = None" "map_of iot_commands a = Some f"
  shows "iot_main ie (form_text (CHR ''&'') ps) a (w, sent) = Some (Inl NullPointer)"
proof -
  let ?n = "length (form_text (CHR ''&'') ps)"
  let ?e = "cs @ (replicate ?n (CHR 0xFF), []) # fs"
  have n: "0 < ?n" using assms(6) by simp
  have "replicate ?n (CHR 0xFF) \<noteq> ''cmd''" using n by (cases ?n) auto
  then have "qentry_get ?e ''cmd'' = None" using assms(8) by (simp add: qentry_get_def map_add_None)
  moreover have "qcgireq_parse (ie_platform ie) (ie_getenv ie) [] fs0 = Some (Inr (?e, [], fs0))" for fs0
    using second_post [OF assms(1,2,3,5) n assms(7)] .
  ultimately have "f ie [] st = Some (Inl NullPointer)" for st using page_no_cmd [OF assms(9)] by blast
  then show ?thesis
    using post_request_parsed [OF assms(1-5,7), of "ie_platform ie" "[]"] assms(9) by (simp add: iot_main_def Let_def)
qed

definition post_demo :: iot_env where
  "post_demo = iot_demo\<lparr>ie_getenv := [''QUERY_STRING'' \<mapsto> [], ''REQUEST_METHOD'' \<mapsto> ''POST'',
     ''CONTENT_TYPE'' \<mapsto> ''application/x-www-form-urlencoded'', ''CONTENT_LENGTH'' \<mapsto> ''9'']\<rparr>"

theorem posted_form_crashes_witness:
  "iot_main post_demo ''cmd=state'' ''usim'' (web_world Map.empty [], []) = Some (Inl NullPointer)"
proof -
  let ?ps = "[(''cmd'', ''state'')]"
  have t: "form_text (CHR ''&'') ?ps = ''cmd=state''" by code_simp
  have len: "show_nat (length (form_text (CHR ''&'') ?ps)) = ''9''" by code_simp
  have "iot_main post_demo (form_text (CHR ''&'') ?ps) ''usim'' (web_world Map.empty [], []) = Some (Inl NullPointer)"
  proof (rule posted_form_crashes)
    show "ie_getenv post_demo ''CONTENT_LENGTH'' = Some (show_nat (length (form_text (CHR ''&'') ?ps)))"
      unfolding len by (simp add: post_demo_def)
    show "browser_sends (ie_getenv post_demo) [] []" by (simp add: browser_sends_def plain_form_def post_demo_def)
    show "form_text (CHR ''&'') ?ps \<noteq> []" "length (form_text (CHR ''&'') ?ps) < 2147483647" unfolding t by simp_all
  qed (simp_all add: post_demo_def plain_form_def qentry_get_def iot_commands_def)
  then show ?thesis unfolding t .
qed

lemma one_status_line:
  assumes "popen sh cmd w = (Some (s @ [nl]), w')" "nl \<notin> set s" "nul \<notin> set s" "length s < 255"
  shows "status_lines sh cmd f w = f s w'"
proof -
  have "fgets_all 256 (s @ [nl]) = [s @ [nl]]" using fgets_all_line [of s 256 "[]"] assms(2,4) by simp
  moreover have "cstr (s @ [nl]) = s @ [nl]" using assms(3) by (intro cstr_id) auto
  ultimately show ?thesis using assms(1) by (cases "f s w'") (simp_all add: status_lines_def chop_def)
qed

lemma show_int_plain: "nl \<notin> set (show_int v)" "nul \<notin> set (show_int v)"
  using show_int_chars by blast+

definition link_action :: "int \<Rightarrow> string \<Rightarrow> string list" where
  "link_action v s = (if v < - 100 then (if s = ''running'' then [stop_link] else [])
     else if s = ''running'' then [] else [start_link])"

lemma popen_snd: "cmds (snd (popen sh c w)) = cmds w @ [c]" "wperm (snd (popen sh c w)) = wperm w"
  using popen_cmds [of sh c w] popen_wperm [of sh c w] by (metis prod.collapse)+

lemma popen_exact: "sh cmd (clock w) (files w) = Some (t, files w) \<Longrightarrow> popen sh cmd w = (Some t, w\<lparr>cmds := cmds w @ [cmd]\<rparr>)"
  by (simp add: popen_def Let_def)

lemma check_action:
  assumes "sh rssi_pipe (clock w) (files w) = Some (show_int v @ [nl], files w)" "length (show_int v) < 255"
    and "sh link_status (clock w) (files w) = Some (s @ [nl], files w)" "nl \<notin> set s" "nul \<notin> set s" "length s < 255"
    and "- 2147483648 \<le> v" "v \<le> 2147483647"
  shows "\<exists>w'. check sh w = Inr w' \<and> cmds w' = cmds w @ [rssi_pipe, link_status] @ link_action v s \<and> wperm w' = wperm w"
proof -
  let ?w1 = "w\<lparr>cmds := cmds w @ [rssi_pipe]\<rparr>" and ?w2 = "w\<lparr>cmds := cmds w @ [rssi_pipe, link_status]\<rparr>"
  have p: "popen sh rssi_pipe w = (Some (show_int v @ [nl]), ?w1)" "popen sh link_status ?w1 = (Some (s @ [nl]), ?w2)"
    using popen_exact [of sh rssi_pipe w] popen_exact [of sh link_status ?w1] assms(1,3) by simp_all
  have v: "atoi (show_int v) = v" using atoi_show_int [of v "[]"] assms(7,8) by simp
  have "check sh w = judge_signal sh (show_int v) ?w1"
    unfolding check_def by (rule one_status_line [OF p(1) show_int_plain assms(2)])
  also have "\<dots> = Inr (case link_action v s of [] \<Rightarrow> ?w2 | c # _ \<Rightarrow> snd (popen sh c ?w2))"
    using one_status_line [OF p(2) assms(4-6)] v by (simp add: judge_signal_def link_action_def)
  finally show ?thesis using popen_snd [of sh _ ?w2] by (simp add: link_action_def)
qed

text \<open>
  C31. Signal and link. When the modem answers \<open>AT#RFSTS\<close> with OK and the strength in the answer is \<open>v\<close> dBm, one
  run of the timer handler stops a running link and its monitor if \<open>v\<close> is below -100, starts the monitor if the
  strength is sufficient and the link is not running, and does nothing to the link otherwise. The port
  is marked as used while it runs, and as free at the end.
\<close>

theorem signal_decides:
  assumes "mp_fd m = Some fd" "poll at_code m 0 = Some (Inr (True, buf))"
    and "\<forall>p. wperm w p" "- 2147483648 \<le> v" "v \<le> 2147483647" "length (show_int v) < 255"
    and "\<forall>t fs. fs ''/tmp/rssi.log'' = Some buf \<and> fs ''/tmp/isserial'' = Some ''used'' \<longrightarrow>
      sh rssi_pipe t fs = Some (show_int v @ [nl], fs) \<and> sh link_status t fs = Some (s @ [nl], fs)"
    and "nl \<notin> set s" "nul \<notin> set s" "length s < 255"
  shows "\<exists>w'. timer_handler sh m (w, sent) = Some (Inr (w', sent @ [''AT#RFSTS'' @ [cr]])) \<and>
    cmds w' = cmds w @ [rssi_pipe, link_status] @ link_action v s \<and> files w' ''/tmp/isserial'' = Some ''none''"
proof -
  let ?w = "write_file ''/tmp/rssi.log'' buf (write_file ''/tmp/isserial'' ''used'' (puts (port_banner fd) w))"
  have "sh rssi_pipe (clock ?w) (files ?w) = Some (show_int v @ [nl], files ?w) \<and>
      sh link_status (clock ?w) (files ?w) = Some (s @ [nl], files ?w)"
    using assms(7) [rule_format, of "files ?w" "clock ?w"] by simp
  then obtain w' where w': "check sh ?w = Inr w'" "cmds w' = cmds w @ [rssi_pipe, link_status] @ link_action v s" "wperm w' = wperm w"
    using check_action [of sh ?w v s] assms(4-6,8-10) by auto
  then have "timer_handler sh m (w, sent) = Some (Inr (write_file ''/tmp/isserial'' ''none'' w', sent @ [''AT#RFSTS'' @ [cr]]))"
    using assms(1-3) by (simp add: timer_handler_def port_write_def iot_open_port_def put_file_def)
  with w'(2) show ?thesis by simp
qed

definition weak_shell :: shell where
  "weak_shell cmd t fs = Some (if cmd = rssi_pipe then show_int (- 107) @ [nl] else if cmd = link_status then ''running'' @ [nl] else [], fs)"

theorem signal_decides_witness:
  "\<exists>w'. timer_handler weak_shell (iot_demo_port (Some ''OK'')) (web_world Map.empty [], []) = Some (Inr (w', [''AT#RFSTS'' @ [cr]])) \<and>
    cmds w' = [rssi_pipe, link_status, stop_link]"
proof -
  have "poll at_code (iot_demo_port (Some ''OK'')) 0 = Some (Inr (True, ''OK''))" using iot_demo_poll by (simp add: iot_demo_def)
  moreover have "length (show_int (- 107)) < 255" by code_simp
  moreover have "link_status \<noteq> rssi_pipe" by code_simp
  ultimately show ?thesis
    using signal_decides [of "iot_demo_port (Some ''OK'')" 3 "''OK''" "web_world Map.empty []" "- 107" weak_shell "''running''" "[]"]
    by (auto simp: iot_demo_port_def web_world_def weak_shell_def link_action_def)
qed

lemma restore_runs:
  assumes "sh ''./config_unzip.sh'' (clock u) (files u) = Some (out1, fs1)" "sh ''./reboot.sh'' (clock u) fs1 = Some (out2, fs2)" "req_live u"
  shows "\<exists>w'. restore_config sh u = Inr w' \<and> files w' = fs2 \<and> cmds w' = cmds u @ [''./config_unzip.sh'', ''./reboot.sh''] \<and> pool w' = pool u"
  using assms by (simp add: restore_config_def system_wait_def popen_def Let_def req_free_def)

text \<open>
  C32. Restoring a configuration. A form with a file that is sent to \<open>upload.cgi\<close>, by anyone, ends up under \<open>/tmp/\<close>
  and the name that the sender gave it, byte for byte; then the script that unpacks it runs on these files,
  and the device restarts. The name may have slashes and dots, so it need not be below \<open>/tmp\<close>. The body
  has less than one gigabyte and there is memory for it.
\<close>

theorem upload_restores:
  assumes "browser_sends (ie_getenv ie) [] fs" "ie_getenv ie ''CONTENT_TYPE'' = Some (multipart_type bound)" "plain_boundary bound"
    and "field_name filename" "header_text ctype" "length ctype < 256" "delimits (''--'' @ bound) data"
    and "data \<noteq> []" "length (upload_body bound ''binary'' filename ctype data) < 2 ^ 30" "wperm w (''/tmp/'' @ filename)"
    and "ie_shell ie ''./config_unzip.sh'' (clock w) ((files w)(''/tmp/'' @ filename \<mapsto> data)) = Some (out1, fs1)"
    and "ie_shell ie ''./reboot.sh'' (clock w) fs1 = Some (out2, fs2)" "memory_for (pf_malloc (ie_platform ie)) (length (upload_body bound ''binary'' filename ctype data))"
  shows "\<exists>w'. upload_main ie (upload_body bound ''binary'' filename ctype data) w = Some (Inr w') \<and>
    files w' = fs2 \<and> cmds w' = cmds w @ [''./config_unzip.sh'', ''./reboot.sh''] \<and> pool w' = pool w"
proof -
  let ?e = "file_entries ''binary'' filename ctype data @ fs" and ?p = "''/tmp/'' @ filename"
  let ?w = "w\<lparr>req := ?e, req_live := True\<rparr>"
  have "field_name ''binary''" by (simp add: field_name_def header_text_def trim_char_def)
  then have run: "upload_main ie (upload_body bound ''binary'' filename ctype data) w = Some (upload_serve (ie_shell ie) ?w)"
    using upload_parsed [OF assms(1-3), of "''binary''" filename ctype data] assms(4-7,9,13)
    by (simp add: upload_main_def qentry_get_def)
  have n: "nul \<notin> set filename" "length filename < 250" using assms(4) by (simp_all add: field_name_def header_text_def)
  have "nul \<notin> set (show_nat (length data))" using show_int_plain(2) [of "int (length data)"] by (simp add: show_int_def)
  moreover have size: "length data \<le> 2147483647" using assms(9) by (simp add: upload_body_def)
  ultimately have g: "getstr ?w ''binary.filename'' = Some filename" "getint ?w ''binary.length'' = int (length data)"
    "qentry_get ?e ''binary'' = Some data"
    using size n(1) atoi_show_int [of "int (length data)" "[]"]
    by (simp_all add: getint_def getstr_def qentry_get_def file_entries_def cstr_id show_int_def)
  let ?w1 = "write_file ?p data ?w"
  have "savefile ?p (Some data) (int (length data)) ?w = Inr (int (length data), ?w1)"
    using assms(10) by (simp add: savefile_def)
  then have s: "upload_serve (ie_shell ie) ?w = restore_config (ie_shell ie) ?w1"
    using g assms(8) n(2) by (simp add: upload_serve_def Let_def)
  show ?thesis unfolding run s
    using restore_runs [of "ie_shell ie" ?w1 out1 fs1 out2 fs2] assms(11,12) by (simp add: write_file_def)
qed

theorem upload_restores_witness:
  "\<exists>w'. upload_main (iot_demo\<lparr>ie_getenv := upload_env None\<rparr>) (upload_body ''XyZ'' ''binary'' ''../etc/x'' ''a/b'' [nul, CHR ''-'', nl, cr])
      (web_world Map.empty []) = Some (Inr w') \<and>
    files w' = [''/tmp/../etc/x'' \<mapsto> [nul, CHR ''-'', nl, cr]] \<and> cmds w' = [''./config_unzip.sh'', ''./reboot.sh'']"
proof -
  let ?ie = "iot_demo\<lparr>ie_getenv := upload_env None\<rparr>"
  have e: "browser_sends (ie_getenv ?ie) [] [(''cmd'', ''fw'')]" "ie_getenv ?ie ''CONTENT_TYPE'' = Some (multipart_type ''XyZ'')"
    using demo_upload_facts(1,2) by simp_all
  have "field_name ''../etc/x''" by (simp add: field_name_def header_text_def trim_char_def)
  from upload_restores [OF e demo_upload_facts(3) this demo_upload_facts(6) _ demo_upload_facts(7), of "web_world Map.empty []" "[]" _ "[]"]
  show ?thesis
    by (auto simp: iot_demo_def web_world_def upload_body_def file_header_def disposition_name_def filename_mark_def content_type_def)
qed

end
