(* ===== verification/Qentry.thy ===== *)
theory Qentry
  imports Query
begin

text \<open>
  \<open>qentry.c\<close> of \<open>qdecoder\<close>, as it is written: a singly linked list with a pointer to its first and last object
  and a counter. An address is a number, the objects of a list are a map from addresses, and \<open>free\<close> removes an
  object from it, so that an access through a dangling pointer is a fault. The other theories use the list of
  names and values that this structure is shown to implement. \<open>malloc\<close> is the parameter \<open>alloc\<close>.
\<close>

section \<open>The structure\<close>

record qentobj_t =
  obj_name :: string
  obj_data :: string
  obj_next :: "nat option"

type_synonym objects = "nat \<rightharpoonup> qentobj_t"

record qentry_t =
  objs :: objects
  ent_num :: int
  ent_first :: "nat option"
  ent_last :: "nat option"

type_synonym alloc = "objects \<Rightarrow> nat option"

definition qEntry :: qentry_t where
  "qEntry = \<lparr>objs = Map.empty, ent_num = 0, ent_first = None, ent_last = None\<rparr>"

section \<open>Operations\<close>

text \<open>
  The loop of \<open>_remove\<close>: the object is freed, then \<open>last\<close>, \<open>first\<close> or the link of the previous object are set.
\<close>

partial_function (option) remove_loop ::
  "string \<Rightarrow> nat option \<Rightarrow> nat option \<Rightarrow> int \<Rightarrow> qentry_t \<Rightarrow> (int \<times> qentry_t) run" where
  "remove_loop name prev obj removed q = (case obj of
      None \<Rightarrow> Some (Inr (removed, q))
    | Some a \<Rightarrow> (case objs q a of
         None \<Rightarrow> Some (Inl UseAfterFree)
       | Some ob \<Rightarrow>
          if obj_name ob = name then
            (let nx = obj_next ob;
                 q1 = q\<lparr>ent_num := ent_num q - 1, objs := (objs q)(a := None)\<rparr>;
                 q2 = (if nx = None then q1\<lparr>ent_last := prev\<rparr> else q1)
             in case prev of
                 None \<Rightarrow> remove_loop name prev nx (removed + 1) (q2\<lparr>ent_first := nx\<rparr>)
               | Some p \<Rightarrow> (case objs q2 p of
                    None \<Rightarrow> Some (Inl UseAfterFree)
                  | Some po \<Rightarrow> remove_loop name prev nx (removed + 1)
                      (q2\<lparr>objs := (objs q2)(p \<mapsto> po\<lparr>obj_next := nx\<rparr>)\<rparr>)))
          else remove_loop name obj (obj_next ob) removed q))"

declare remove_loop.simps [code]

definition qent_remove :: "string option \<Rightarrow> qentry_t \<Rightarrow> (int \<times> qentry_t) run" where
  "qent_remove name q = (case name of None \<Rightarrow> Some (Inr (0, q)) | Some n \<Rightarrow> remove_loop n None (ent_first q) 0 q)"

text \<open>The new object at the end of the chain.\<close>

definition link_last :: "nat \<Rightarrow> string \<Rightarrow> string \<Rightarrow> qentry_t \<Rightarrow> qentry_t res" where
  "link_last a name data q =
     (let q1 = q\<lparr>objs := (objs q)(a \<mapsto> \<lparr>obj_name = name, obj_data = data, obj_next = None\<rparr>)\<rparr> in
      bindE (if ent_first q = None then Inr (q1\<lparr>ent_first := Some a, ent_last := Some a\<rparr>)
        else case ent_last q of
          None \<Rightarrow> Inl NullPointer
        | Some l \<Rightarrow> (case objs q1 l of
             None \<Rightarrow> Inl UseAfterFree
           | Some lo \<Rightarrow> Inr (q1\<lparr>objs := (objs q1)(l \<mapsto> lo\<lparr>obj_next := Some a\<rparr>), ent_last := Some a\<rparr>)))
       (\<lambda>q. Inr (q\<lparr>ent_num := ent_num q + 1\<rparr>)))"

text \<open>\<open>_put\<close>: the size is the length of the data, and a null pointer is \<open>None\<close>.\<close>

definition qent_put :: "alloc \<Rightarrow> string option \<Rightarrow> string option \<Rightarrow> bool \<Rightarrow> qentry_t \<Rightarrow> (bool \<times> qentry_t) run" where
  "qent_put alloc name data replace q = (case (name, data) of
      (Some n, Some d) \<Rightarrow>
        if d = [] then Some (Inr (False, q))
        else (case alloc (objs q) of
            None \<Rightarrow> Some (Inr (False, q))
          | Some a \<Rightarrow>
             bindR (if replace then qent_remove (Some n) q else Some (Inr (0, q))) (\<lambda>(_, q).
               Some (bindE (link_last a n d q) (\<lambda>q. Inr (True, q)))))
    | _ \<Rightarrow> Some (Inr (False, q)))"

definition qent_putstr :: "alloc \<Rightarrow> string option \<Rightarrow> string option \<Rightarrow> bool \<Rightarrow> qentry_t \<Rightarrow> (bool \<times> qentry_t) run" where
  "qent_putstr alloc name str replace q = qent_put alloc name (map_option (\<lambda>s. cstr s @ [nul]) str) replace q"

text \<open>\<open>snprintf\<close> into 21 bytes.\<close>

definition qent_putint :: "alloc \<Rightarrow> string option \<Rightarrow> int \<Rightarrow> bool \<Rightarrow> qentry_t \<Rightarrow> (bool \<times> qentry_t) run" where
  "qent_putint alloc name num replace q = qent_put alloc name (Some (take 20 (show_int num) @ [nul])) replace q"

text \<open>
  The search loops of \<open>_get\<close> and \<open>_caseget\<close>, which differ in the comparison, and of \<open>_getlast\<close>. The data is returned as
  it is or as a copy; the copy is taken to succeed.
\<close>

partial_function (option) find_loop :: "(string \<Rightarrow> bool) \<Rightarrow> objects \<Rightarrow> nat option \<Rightarrow> string option run" where
  "find_loop eq h obj = (case obj of
      None \<Rightarrow> Some (Inr None)
    | Some a \<Rightarrow> (case h a of
         None \<Rightarrow> Some (Inl UseAfterFree)
       | Some ob \<Rightarrow> if eq (obj_name ob) then Some (Inr (Some (obj_data ob))) else find_loop eq h (obj_next ob)))"

declare find_loop.simps [code]

partial_function (option) last_loop :: "string \<Rightarrow> objects \<Rightarrow> nat option \<Rightarrow> string option \<Rightarrow> string option run" where
  "last_loop name h obj lastobj = (case obj of
      None \<Rightarrow> Some (Inr lastobj)
    | Some a \<Rightarrow> (case h a of
         None \<Rightarrow> Some (Inl UseAfterFree)
       | Some ob \<Rightarrow> last_loop name h (obj_next ob) (if obj_name ob = name then Some (obj_data ob) else lastobj)))"

declare last_loop.simps [code]

definition qent_get :: "string option \<Rightarrow> qentry_t \<Rightarrow> string option run" where
  "qent_get name q = (case name of None \<Rightarrow> Some (Inr None) | Some n \<Rightarrow> find_loop (\<lambda>x. x = n) (objs q) (ent_first q))"

definition qent_getlast :: "string option \<Rightarrow> qentry_t \<Rightarrow> string option run" where
  "qent_getlast name q = (case name of None \<Rightarrow> Some (Inr None) | Some n \<Rightarrow> last_loop n (objs q) (ent_first q) None)"

definition tolower :: "char \<Rightarrow> char" where
  "tolower c = (let n = (of_char c :: nat) in if 65 \<le> n \<and> n \<le> 90 then char_of (n + 32) else c)"

definition strcasecmp :: "string \<Rightarrow> string \<Rightarrow> bool" where
  "strcasecmp s t \<longleftrightarrow> map tolower s = map tolower t"

definition qent_caseget :: "string option \<Rightarrow> qentry_t \<Rightarrow> string option run" where
  "qent_caseget name q = (case name of None \<Rightarrow> Some (Inr None) | Some n \<Rightarrow> find_loop (strcasecmp n) (objs q) (ent_first q))"

text \<open>The integer versions of the three.\<close>

definition as_int :: "string option run \<Rightarrow> int run" where
  "as_int r = bindR r (\<lambda>d. Some (Inr (case d of None \<Rightarrow> 0 | Some s \<Rightarrow> atoi (cstr s))))"

definition qent_getint :: "string option \<Rightarrow> qentry_t \<Rightarrow> int run" where
  "qent_getint name q = as_int (qent_get name q)"

definition qent_getintlast :: "string option \<Rightarrow> qentry_t \<Rightarrow> int run" where
  "qent_getintlast name q = as_int (qent_getlast name q)"

definition qent_casegetint :: "string option \<Rightarrow> qentry_t \<Rightarrow> int run" where
  "qent_casegetint name q = as_int (qent_caseget name q)"

text \<open>
  \<open>_getnext\<close>. The cursor has no name before the first call; then it keeps the pointer to the object behind the
  one it has reported.
\<close>

record cursor =
  cur_name :: "string option"
  cur_data :: string
  cur_next :: "nat option"

partial_function (option) next_loop :: "string option \<Rightarrow> objects \<Rightarrow> nat option \<Rightarrow> cursor \<Rightarrow> (bool \<times> cursor) run" where
  "next_loop name h cont obj = (case cont of
      None \<Rightarrow> Some (Inr (False, obj))
    | Some a \<Rightarrow> (case h a of
         None \<Rightarrow> Some (Inl UseAfterFree)
       | Some ob \<Rightarrow>
          if name \<noteq> None \<and> name \<noteq> Some (obj_name ob) then next_loop name h (obj_next ob) obj
          else Some (Inr (True, \<lparr>cur_name = Some (obj_name ob), cur_data = obj_data ob, cur_next = obj_next ob\<rparr>))))"

declare next_loop.simps [code]

definition qent_getnext :: "string option \<Rightarrow> cursor \<Rightarrow> qentry_t \<Rightarrow> (bool \<times> cursor) run" where
  "qent_getnext name obj q =
     (let obj = (if cur_name obj = None then obj\<lparr>cur_next := ent_first q\<rparr> else obj)
      in next_loop name (objs q) (cur_next obj) obj)"

definition qent_size :: "qentry_t \<Rightarrow> int" where
  "qent_size q = ent_num q"

partial_function (option) free_loop :: "nat option \<Rightarrow> objects \<Rightarrow> objects run" where
  "free_loop obj h = (case obj of
      None \<Rightarrow> Some (Inr h)
    | Some a \<Rightarrow> (case h a of
         None \<Rightarrow> Some (Inl UseAfterFree)
       | Some ob \<Rightarrow> free_loop (obj_next ob) (h(a := None))))"

declare free_loop.simps [code]

definition qent_truncate :: "qentry_t \<Rightarrow> qentry_t run" where
  "qent_truncate q = bindR (free_loop (ent_first q) (objs q)) (\<lambda>h.
     Some (Inr \<lparr>objs = h, ent_num = 0, ent_first = None, ent_last = None\<rparr>))"

partial_function (option) reverse_loop :: "nat option \<Rightarrow> nat option \<Rightarrow> objects \<Rightarrow> (nat option \<times> objects) run" where
  "reverse_loop prev obj h = (case obj of
      None \<Rightarrow> Some (Inr (prev, h))
    | Some a \<Rightarrow> (case h a of
         None \<Rightarrow> Some (Inl UseAfterFree)
       | Some ob \<Rightarrow> reverse_loop obj (obj_next ob) (h(a \<mapsto> ob\<lparr>obj_next := prev\<rparr>))))"

declare reverse_loop.simps [code]

definition qent_reverse :: "qentry_t \<Rightarrow> qentry_t run" where
  "qent_reverse q = bindR (reverse_loop None (ent_first q) (objs q)) (\<lambda>(prev, h).
     Some (Inr (q\<lparr>objs := h, ent_last := ent_first q, ent_first := prev\<rparr>)))"

section \<open>The list in memory\<close>

text \<open>
  A path through objects at given addresses with given contents, from a pointer to a pointer.
\<close>

fun path :: "objects \<Rightarrow> nat option \<Rightarrow> (nat \<times> string \<times> string) list \<Rightarrow> nat option \<Rightarrow> bool" where
  "path h p [] e \<longleftrightarrow> p = e"
| "path h p ((a, n, d) # xs) e \<longleftrightarrow> p = Some a \<and>
     (\<exists>nx. h a = Some \<lparr>obj_name = n, obj_data = d, obj_next = nx\<rparr> \<and> path h nx xs e)"

definition end_of :: "(nat \<times> string \<times> string) list \<Rightarrow> nat option" where
  "end_of xs = (if xs = [] then None else Some (fst (last xs)))"

text \<open>The objects of the list are all there are: none is lost and none is used twice.\<close>

definition holds :: "qentry_t \<Rightarrow> (nat \<times> string \<times> string) list \<Rightarrow> bool" where
  "holds q xs \<longleftrightarrow> path (objs q) (ent_first q) xs None \<and> distinct (map fst xs) \<and> dom (objs q) = set (map fst xs) \<and>
     ent_last q = end_of xs \<and> ent_num q = int (length xs)"

definition represents :: "qentry_t \<Rightarrow> (string \<times> string) list \<Rightarrow> bool" where
  "represents q es \<longleftrightarrow> (\<exists>xs. holds q xs \<and> map snd xs = es)"

lemma end_of_simps [simp]: "end_of [] = None" "end_of (xs @ [x]) = Some (fst x)" "ys \<noteq> [] \<Longrightarrow> end_of (xs @ ys) = end_of ys"
  "end_of (x # ys) = (if ys = [] then Some (fst x) else end_of ys)"
  by (simp_all add: end_of_def)

lemma end_of_mem: "end_of xs = Some a \<Longrightarrow> a \<in> set (map fst xs)"
  by (auto simp: end_of_def split: if_splits intro!: imageI)

lemma path_upd [simp]: "a \<notin> set (map fst xs) \<Longrightarrow> path (h(a := v)) p xs e = path h p xs e"
  by (induction h p xs e rule: path.induct) auto

lemma path_append: "path h p (xs @ ys) e \<longleftrightarrow> (\<exists>m. path h p xs m \<and> path h m ys e)"
  by (induction h p xs e rule: path.induct) auto

lemma path_ConsE:
  assumes "path h p (x # xs) e"
  obtains a n d nx where "x = (a, n, d)" "p = Some a" "h a = Some \<lparr>obj_name = n, obj_data = d, obj_next = nx\<rparr>" "path h nx xs e"
  using assms by (cases x) auto

text \<open>Another target for the last object of a path.\<close>

lemma path_relink:
  assumes "path h p xs e" "distinct (map fst xs)" "end_of xs = Some a"
  obtains ob where "h a = Some ob" "path (h(a \<mapsto> ob\<lparr>obj_next := e'\<rparr>)) p xs e'"
proof -
  from assms(3) obtain ys n d where xs: "xs = ys @ [(a, n, d)]"
    by (cases xs rule: rev_cases) (auto simp: end_of_def)
  then obtain m where m: "path h p ys m" "path h m [(a, n, d)] e" using assms(1) by (auto simp: path_append)
  with xs assms(2) show thesis by (intro that [of "\<lparr>obj_name = n, obj_data = d, obj_next = e\<rparr>"]) (auto simp: path_append)
qed

section \<open>Removing\<close>

text \<open>In the middle of a loop: the objects passed, and those to come from a pointer on.\<close>

definition scan :: "qentry_t \<Rightarrow> (nat \<times> string \<times> string) list \<Rightarrow> nat option \<Rightarrow> (nat \<times> string \<times> string) list \<Rightarrow> bool" where
  "scan q ys obj zs \<longleftrightarrow> path (objs q) (ent_first q) ys obj \<and> path (objs q) obj zs None \<and> distinct (map fst (ys @ zs)) \<and>
     dom (objs q) = set (map fst (ys @ zs)) \<and> ent_last q = end_of (ys @ zs) \<and> ent_num q = int (length (ys @ zs))"

lemma scan_holds: "holds q xs \<longleftrightarrow> scan q [] (ent_first q) xs" "scan q ys None [] \<longleftrightarrow> holds q ys"
  by (auto simp: scan_def holds_def)

lemma path_None: "path h None xs e \<longleftrightarrow> xs = [] \<and> e = None"
  by (cases xs) auto

lemma path_to_None: "path h p xs None \<Longrightarrow> p = None \<longleftrightarrow> xs = []"
  by (cases xs) auto

lemma scan_object:
  assumes "scan q ys obj ((a, n, d) # zs)"
  obtains nx where "obj = Some a" "objs q a = Some \<lparr>obj_name = n, obj_data = d, obj_next = nx\<rparr>" "path (objs q) nx zs None"
  using assms by (auto simp: scan_def)

lemma scan_next:
  assumes "scan q ys obj ((a, n, d) # zs)" "objs q a = Some \<lparr>obj_name = n, obj_data = d, obj_next = nx\<rparr>"
  shows "scan q (ys @ [(a, n, d)]) nx zs"
  using assms by (auto simp: scan_def path_append)

text \<open>One object taken out, with what comes before it linked to what comes after.\<close>

definition taken_out :: "nat \<Rightarrow> nat option \<Rightarrow> nat option \<Rightarrow> qentry_t \<Rightarrow> qentry_t" where
  "taken_out a prev nx q = (let q1 = q\<lparr>ent_num := ent_num q - 1, objs := (objs q)(a := None)\<rparr>;
       q2 = (if nx = None then q1\<lparr>ent_last := prev\<rparr> else q1) in
     case prev of None \<Rightarrow> q2\<lparr>ent_first := nx\<rparr>
     | Some p \<Rightarrow> q2\<lparr>objs := (objs q2)(p \<mapsto> (the (objs q2 p))\<lparr>obj_next := nx\<rparr>)\<rparr>)"

lemma scan_taken_out:
  assumes "scan q ys obj ((a, n, d) # zs)" "objs q a = Some \<lparr>obj_name = n, obj_data = d, obj_next = nx\<rparr>"
  shows "scan (taken_out a (end_of ys) nx q) ys nx zs"
proof -
  let ?h = "(objs q)(a := None)"
  have s: "path ?h (ent_first q) ys obj" "path ?h nx zs None" "distinct (map fst (ys @ zs))" "a \<notin> set (map fst (ys @ zs))"
    "dom ?h = set (map fst (ys @ zs))" "ent_num q - 1 = int (length (ys @ zs))" "obj = Some a"
    using assms by (auto simp: scan_def)
  have l: "end_of (ys @ zs) = (if nx = None then end_of ys else ent_last q)"
    using assms(1) path_to_None [OF s(2)] by (auto simp: scan_def)
  show ?thesis
  proof (cases "end_of ys")
    case None
    then have "ys = []" by (auto simp: end_of_def split: if_splits)
    with s l None show ?thesis by (auto simp: scan_def taken_out_def Let_def)
  next
    case (Some p)
    have p: "p \<in> set (map fst ys)" "p \<notin> set (map fst zs)"
      using end_of_mem [OF Some] s(3) by auto
    obtain ob where ob: "?h p = Some ob" "path (?h(p \<mapsto> ob\<lparr>obj_next := nx\<rparr>)) (ent_first q) ys nx"
      by (rule path_relink [OF s(1) _ Some]) (use s(3) in auto)
    moreover have "path (?h(p \<mapsto> ob\<lparr>obj_next := nx\<rparr>)) nx zs None" using s(2) p(2) by simp
    moreover have "dom (?h(p \<mapsto> ob\<lparr>obj_next := nx\<rparr>)) = set (map fst (ys @ zs))"
      using s(5) p(1) by (simp add: insert_absorb)
    ultimately show ?thesis using s(3,6) l Some by (cases nx) (simp_all add: scan_def taken_out_def Let_def)
  qed
qed

lemma remove_loop_step:
  assumes "scan q ys (Some a) ((a, n, d) # zs)" "objs q a = Some \<lparr>obj_name = n, obj_data = d, obj_next = nx\<rparr>"
  shows "remove_loop name (end_of ys) (Some a) r q =
    (if n = name then remove_loop name (end_of ys) nx (r + 1) (taken_out a (end_of ys) nx q)
     else remove_loop name (Some a) nx r q)"
proof (cases "end_of ys")
  case None
  with assms(2) show ?thesis
    by (subst remove_loop.simps) (simp add: taken_out_def Let_def)
next
  case (Some p)
  then have "p \<in> set (map fst ys)" by (rule end_of_mem)
  then have "p \<in> dom (objs q)" "p \<noteq> a" using assms(1) by (auto simp: scan_def)
  then obtain ob where "objs q p = Some ob" by auto
  with \<open>p \<noteq> a\<close> Some assms(2) show ?thesis
    by (subst remove_loop.simps) (simp add: taken_out_def Let_def)
qed

lemma remove_loop_scan:
  "scan q ys obj zs \<Longrightarrow> \<exists>q'. remove_loop name (end_of ys) obj r q =
      Some (Inr (r + int (length (filter (\<lambda>x. fst (snd x) = name) zs)), q')) \<and>
    holds q' (ys @ filter (\<lambda>x. fst (snd x) \<noteq> name) zs)"
proof (induction zs arbitrary: q ys obj r)
  case Nil
  then have "obj = None" by (simp add: scan_def)
  with Nil show ?case by (subst remove_loop.simps) (simp add: scan_holds)
next
  case (Cons z zs)
  obtain a n d where z: "z = (a, n, d)" by (cases z) auto
  obtain nx where a: "obj = Some a" "objs q a = Some \<lparr>obj_name = n, obj_data = d, obj_next = nx\<rparr>"
    by (rule scan_object [OF Cons.prems [unfolded z]])
  note step = remove_loop_step [OF Cons.prems [unfolded z a(1)] a(2)]
  show ?case
  proof (cases "n = name")
    case True
    from Cons.IH [OF scan_taken_out [OF Cons.prems [unfolded z] a(2)], of "r + 1"] True a(1) z show ?thesis
      by (simp add: step add.assoc)
  next
    case False
    from Cons.IH [OF scan_next [OF Cons.prems [unfolded z] a(2)], of r] False a(1) z show ?thesis by (simp add: step)
  qed
qed

section \<open>The operations on represented lists\<close>

lemma map_filter_snd: "map snd (filter (\<lambda>x. P (fst (snd x))) xs) = filter (\<lambda>e. P (fst e)) (map snd xs)"
  by (induction xs) auto

lemma represents_empty: "represents qEntry []"
  by (simp add: represents_def holds_def qEntry_def)

lemma remove_represents:
  assumes "represents q es"
  obtains q' where "qent_remove (Some name) q = Some (Inr (int (length (filter (\<lambda>e. fst e = name) es)), q'))"
    "represents q' (filter (\<lambda>e. fst e \<noteq> name) es)" "dom (objs q') \<subseteq> dom (objs q)"
proof -
  obtain xs where xs: "holds q xs" "map snd xs = es" using assms by (auto simp: represents_def)
  let ?f = "filter (\<lambda>x. fst (snd x) \<noteq> name) xs"
  obtain q' where q': "remove_loop name None (ent_first q) 0 q =
      Some (Inr (int (length (filter (\<lambda>x. fst (snd x) = name) xs)), q'))" "holds q' ?f"
    using remove_loop_scan [of q "[]" "ent_first q" xs name 0] xs(1) by (auto simp: scan_holds(1))
  have "length (filter (\<lambda>x. fst (snd x) = name) xs) = length (filter (\<lambda>e. fst e = name) es)"
    using map_filter_snd [of "\<lambda>n. n = name" xs] xs(2) by (metis length_map)
  moreover have "represents q' (filter (\<lambda>e. fst e \<noteq> name) es)"
    using q'(2) map_filter_snd [of "\<lambda>n. n \<noteq> name" xs] xs(2) by (auto simp: represents_def)
  moreover have "dom (objs q') \<subseteq> dom (objs q)" using q'(2) xs(1) by (auto simp: holds_def)
  ultimately show thesis using q'(1) that by (simp add: qent_remove_def)
qed

lemma link_represents:
  assumes "represents q es" "objs q a = None"
  obtains q' where "link_last a n d q = Inr q'" "represents q' (es @ [(n, d)])"
proof -
  obtain xs where xs: "holds q xs" "map snd xs = es" using assms(1) by (auto simp: represents_def)
  let ?o = "\<lparr>obj_name = n, obj_data = d, obj_next = None\<rparr>" and ?ys = "xs @ [(a, n, d)]"
  have a: "a \<notin> set (map fst xs)" using xs(1) assms(2) by (auto simp: holds_def)
  have rep: "represents q' (es @ [(n, d)])" if "holds q' ?ys" for q' using that xs(2) by (auto simp: represents_def intro!: exI [of _ ?ys])
  show thesis
  proof (cases "end_of xs")
    case None
    then have "xs = []" by (auto simp: end_of_def split: if_splits)
    then have "link_last a n d q = Inr (q\<lparr>objs := (objs q)(a \<mapsto> ?o), ent_first := Some a, ent_last := Some a, ent_num := ent_num q + 1\<rparr>)"
      "holds (q\<lparr>objs := (objs q)(a \<mapsto> ?o), ent_first := Some a, ent_last := Some a, ent_num := ent_num q + 1\<rparr>) ?ys"
      using xs(1) by (auto simp: link_last_def Let_def holds_def)
    then show thesis using that rep by blast
  next
    case (Some l)
    let ?h = "(objs q)(a \<mapsto> ?o)"
    have h: "path ?h (ent_first q) xs None" "distinct (map fst xs)" using xs(1) a by (auto simp: holds_def)
    obtain ob where ob: "?h l = Some ob" "path (?h(l \<mapsto> ob\<lparr>obj_next := Some a\<rparr>)) (ent_first q) xs (Some a)"
      by (rule path_relink [OF h Some])
    have l: "l \<in> set (map fst xs)" by (rule end_of_mem [OF Some])
    let ?q = "q\<lparr>objs := ?h(l \<mapsto> ob\<lparr>obj_next := Some a\<rparr>), ent_last := Some a, ent_num := ent_num q + 1\<rparr>"
    obtain f where "ent_first q = Some f" using xs(1) l by (cases xs) (auto simp: holds_def)
    then have "link_last a n d q = Inr ?q"
      using xs(1) Some ob(1) by (simp add: link_last_def Let_def holds_def)
    moreover have "holds ?q ?ys" using xs(1) ob a l by (auto simp: holds_def path_append)
    ultimately show thesis using that rep by blast
  qed
qed

text \<open>\<open>malloc\<close> returns memory that is not in use.\<close>

definition fresh_alloc :: "alloc \<Rightarrow> bool" where
  "fresh_alloc alloc \<longleftrightarrow> (\<forall>h a. alloc h = Some a \<longrightarrow> h a = None)"

definition put_entry :: "bool \<Rightarrow> string \<Rightarrow> string \<Rightarrow> (string \<times> string) list \<Rightarrow> (string \<times> string) list" where
  "put_entry replace n d es = (if replace then filter (\<lambda>e. fst e \<noteq> n) es else es) @ [(n, d)]"

interpretation entries: entry_map "put_entry True" map_of
proof
  show "map_of (put_entry True n d es) m = (if m = n then Some d else map_of es m)" for n d es m
    by (induction es) (auto simp: put_entry_def map_add_def)
qed

lemma put_represents:
  assumes "fresh_alloc alloc" "represents q es" "d \<noteq> []" "alloc (objs q) \<noteq> None"
  obtains q' where "qent_put alloc (Some n) (Some d) replace q = Some (Inr (True, q'))" "represents q' (put_entry replace n d es)"
proof -
  obtain a where a: "alloc (objs q) = Some a" "objs q a = None" using assms(1,4) by (auto simp: fresh_alloc_def)
  obtain k q1 where 1: "(if replace then qent_remove (Some n) q else Some (Inr (0, q))) = Some (Inr (k, q1))"
    "represents q1 (if replace then filter (\<lambda>e. fst e \<noteq> n) es else es)" "objs q1 a = None"
  proof (cases replace)
    case True
    obtain k q1 where "qent_remove (Some n) q = Some (Inr (k, q1))" "represents q1 (filter (\<lambda>e. fst e \<noteq> n) es)"
      "dom (objs q1) \<subseteq> dom (objs q)" by (rule remove_represents [OF assms(2), of n])
    with True a(2) that show thesis by auto
  qed (use assms(2) a(2) that in auto)
  obtain q' where "link_last a n d q1 = Inr q'" "represents q' (put_entry replace n d es)"
    by (rule link_represents [OF 1(2,3), of n d]) (use that in \<open>auto simp: put_entry_def\<close>)
  with 1(1) a(1) assms(3) that show thesis by (auto simp: qent_put_def)
qed

lemma find_loop_path:
  "path h p xs None \<Longrightarrow> find_loop eq h p = Some (Inr (map_option snd (find (\<lambda>e. eq (fst e)) (map snd xs))))"
proof (induction xs arbitrary: p)
  case Nil then show ?case by (subst find_loop.simps) simp
next
  case (Cons x xs)
  from Cons.prems(1) obtain a n d nx where x: "x = (a, n, d)"
    and nx: "p = Some a" "h a = Some \<lparr>obj_name = n, obj_data = d, obj_next = nx\<rparr>" "path h nx xs None" by (rule path_ConsE)
  from Cons.IH [OF nx(3)] x nx(1,2) show ?case by (subst find_loop.simps) simp
qed

lemma last_loop_path:
  "path h p xs None \<Longrightarrow> last_loop n h p l = Some (Inr (case map_of (rev (map snd xs)) n of None \<Rightarrow> l | Some d \<Rightarrow> Some d))"
proof (induction xs arbitrary: p l)
  case Nil then show ?case by (subst last_loop.simps) simp
next
  case (Cons x xs)
  from Cons.prems(1) obtain a n d nx where x: "x = (a, n, d)"
    and nx: "p = Some a" "h a = Some \<lparr>obj_name = n, obj_data = d, obj_next = nx\<rparr>" "path h nx xs None" by (rule path_ConsE)
  from Cons.IH [OF nx(3)] x nx(1,2) show ?case
    by (subst last_loop.simps) (simp add: map_add_def split: option.splits)
qed

lemma find_map_of: "map_option snd (find (\<lambda>e. fst e = n) es) = map_of es n"
  by (induction es) auto

lemma next_loop_path:
  "path h p xs None \<Longrightarrow> next_loop name h p c = Some (Inr (case dropWhile (\<lambda>x. name \<noteq> None \<and> name \<noteq> Some (fst (snd x))) xs of
      [] \<Rightarrow> (False, c)
    | x # ys \<Rightarrow> (True, \<lparr>cur_name = Some (fst (snd x)), cur_data = snd (snd x), cur_next = (if ys = [] then None else Some (fst (hd ys)))\<rparr>)))"
proof (induction xs arbitrary: p)
  case Nil then show ?case by (subst next_loop.simps) simp
next
  case (Cons x xs)
  from Cons.prems(1) obtain a n d nx where x: "x = (a, n, d)"
    and nx: "p = Some a" "h a = Some \<lparr>obj_name = n, obj_data = d, obj_next = nx\<rparr>" "path h nx xs None" by (rule path_ConsE)
  then have "nx = (if xs = [] then None else Some (fst (hd xs)))" by (cases xs) auto
  with nx x Cons.IH [OF nx(3)] show ?case by (subst next_loop.simps) auto
qed

lemma free_loop_path: "path h p xs None \<Longrightarrow> distinct (map fst xs) \<Longrightarrow> dom h = set (map fst xs) \<Longrightarrow> free_loop p h = Some (Inr Map.empty)"
proof (induction xs arbitrary: p h)
  case Nil then show ?case by (subst free_loop.simps) simp
next
  case (Cons x xs)
  from Cons.prems(1) obtain a n d nx where x: "x = (a, n, d)"
    and nx: "p = Some a" "h a = Some \<lparr>obj_name = n, obj_data = d, obj_next = nx\<rparr>" "path h nx xs None" by (rule path_ConsE)
  have "free_loop nx (h(a := None)) = Some (Inr Map.empty)"
    using Cons.prems(2,3) x nx(3) by (intro Cons.IH) (auto simp del: fun_upd_apply)
  with nx(1,2) show ?case by (subst free_loop.simps) simp
qed

lemma reverse_loop_path:
  "path h p xs None \<Longrightarrow> path h prev ys None \<Longrightarrow> distinct (map fst (xs @ ys)) \<Longrightarrow>
   \<exists>h' p'. reverse_loop prev p h = Some (Inr (p', h')) \<and> path h' p' (rev xs @ ys) None \<and> dom h' = dom h"
proof (induction xs arbitrary: p h prev ys)
  case Nil then show ?case by (subst reverse_loop.simps) simp
next
  case (Cons x xs)
  from Cons.prems(1) obtain a n d nx where x: "x = (a, n, d)"
    and nx: "p = Some a" "h a = Some \<lparr>obj_name = n, obj_data = d, obj_next = nx\<rparr>" "path h nx xs None" by (rule path_ConsE)
  let ?h = "h(a \<mapsto> \<lparr>obj_name = n, obj_data = d, obj_next = prev\<rparr>)"
  have "path ?h nx xs None" "path ?h (Some a) (x # ys) None" "distinct (map fst (xs @ x # ys))"
    using Cons.prems(2,3) x nx(3) by auto
  from Cons.IH [OF this] obtain h' p' where "reverse_loop (Some a) nx ?h = Some (Inr (p', h'))"
    "path h' p' (rev (x # xs) @ ys) None" "dom h' = dom ?h" by (auto simp del: fun_upd_apply)
  moreover have "dom ?h = dom h" using nx(2) by auto
  ultimately show ?case using nx(1,2) by (subst reverse_loop.simps) simp
qed

lemma representsE:
  assumes "represents q es"
  obtains xs where "path (objs q) (ent_first q) xs None" "distinct (map fst xs)" "dom (objs q) = set (map fst xs)"
    "ent_last q = end_of xs" "ent_num q = int (length xs)" "map snd xs = es"
  using assms by (auto simp: represents_def holds_def)

lemma get_represents: "represents q es \<Longrightarrow> qent_get (Some n) q = Some (Inr (map_of es n))"
  by (erule representsE) (simp add: qent_get_def find_loop_path find_map_of)

lemma caseget_represents:
  "represents q es \<Longrightarrow> qent_caseget (Some n) q = Some (Inr (map_option snd (find (\<lambda>e. strcasecmp n (fst e)) es)))"
  by (erule representsE) (simp add: qent_caseget_def find_loop_path)

lemma getlast_represents: "represents q es \<Longrightarrow> qent_getlast (Some n) q = Some (Inr (map_of (rev es) n))"
  by (erule representsE) (auto simp: qent_getlast_def last_loop_path split: option.splits)

lemma size_represents: "represents q es \<Longrightarrow> qent_size q = int (length es)"
  by (erule representsE) (auto simp: qent_size_def)

lemma truncate_represents: "represents q es \<Longrightarrow> qent_truncate q = Some (Inr qEntry)"
  by (erule representsE) (simp add: qent_truncate_def free_loop_path qEntry_def)

lemma reverse_represents:
  assumes "represents q es"
  obtains q' where "qent_reverse q = Some (Inr q')" "represents q' (rev es)"
proof -
  obtain xs where xs: "path (objs q) (ent_first q) xs None" "distinct (map fst xs)" "dom (objs q) = set (map fst xs)"
    "ent_last q = end_of xs" "ent_num q = int (length xs)" "map snd xs = es" by (rule representsE [OF assms])
  obtain h p where h: "reverse_loop None (ent_first q) (objs q) = Some (Inr (p, h))" "path h p (rev xs) None" "dom h = dom (objs q)"
    using reverse_loop_path [OF xs(1), of None "[]"] xs(2) by auto
  have "ent_first q = end_of (rev xs)" using xs(1) by (cases xs) auto
  then have "holds (q\<lparr>objs := h, ent_last := ent_first q, ent_first := p\<rparr>) (rev xs)"
    using h xs by (simp add: holds_def rev_map [symmetric])
  then have "represents (q\<lparr>objs := h, ent_last := ent_first q, ent_first := p\<rparr>) (rev es)"
    using xs(6) by (auto simp: represents_def rev_map)
  with h(1) that show thesis by (simp add: qent_reverse_def)
qed

section \<open>Sequences of operations\<close>

datatype qop = OpPut string string bool | OpGet string | OpGetLast string | OpCaseGet string | OpRemove string
  | OpReverse | OpTruncate | OpSize

datatype answer = Done bool | Found "string option" | Count int

fun qent_op :: "alloc \<Rightarrow> qop \<Rightarrow> qentry_t \<Rightarrow> (answer \<times> qentry_t) run" where
  "qent_op al (OpPut n d r) q = bindR (qent_put al (Some n) (Some d) r q) (\<lambda>(b, q). Some (Inr (Done b, q)))"
| "qent_op al (OpGet n) q = bindR (qent_get (Some n) q) (\<lambda>v. Some (Inr (Found v, q)))"
| "qent_op al (OpGetLast n) q = bindR (qent_getlast (Some n) q) (\<lambda>v. Some (Inr (Found v, q)))"
| "qent_op al (OpCaseGet n) q = bindR (qent_caseget (Some n) q) (\<lambda>v. Some (Inr (Found v, q)))"
| "qent_op al (OpRemove n) q = bindR (qent_remove (Some n) q) (\<lambda>(k, q). Some (Inr (Count k, q)))"
| "qent_op al OpReverse q = bindR (qent_reverse q) (\<lambda>q. Some (Inr (Done True, q)))"
| "qent_op al OpTruncate q = bindR (qent_truncate q) (\<lambda>q. Some (Inr (Done True, q)))"
| "qent_op al OpSize q = Some (Inr (Count (qent_size q), q))"

fun qent_ops :: "alloc \<Rightarrow> qop list \<Rightarrow> qentry_t \<Rightarrow> (answer list \<times> qentry_t) run" where
  "qent_ops al [] q = Some (Inr ([], q))"
| "qent_ops al (c # cs) q = bindR (qent_op al c q) (\<lambda>(x, q). bindR (qent_ops al cs q) (\<lambda>(xs, q). Some (Inr (x # xs, q))))"

text \<open>The same operations on the list of names and values.\<close>

fun list_op :: "qop \<Rightarrow> (string \<times> string) list \<Rightarrow> answer \<times> (string \<times> string) list" where
  "list_op (OpPut n d r) es = (if d = [] then (Done False, es) else (Done True, put_entry r n d es))"
| "list_op (OpGet n) es = (Found (map_of es n), es)"
| "list_op (OpGetLast n) es = (Found (map_of (rev es) n), es)"
| "list_op (OpCaseGet n) es = (Found (map_option snd (find (\<lambda>e. strcasecmp n (fst e)) es)), es)"
| "list_op (OpRemove n) es = (Count (int (length (filter (\<lambda>e. fst e = n) es))), filter (\<lambda>e. fst e \<noteq> n) es)"
| "list_op OpReverse es = (Done True, rev es)"
| "list_op OpTruncate es = (Done True, [])"
| "list_op OpSize es = (Count (int (length es)), es)"

fun list_ops :: "qop list \<Rightarrow> (string \<times> string) list \<Rightarrow> answer list \<times> (string \<times> string) list" where
  "list_ops [] es = ([], es)"
| "list_ops (c # cs) es = (case list_op c es of (x, es) \<Rightarrow> (case list_ops cs es of (xs, es) \<Rightarrow> (x # xs, es)))"

text \<open>There is memory for \<open>n\<close> objects.\<close>

definition room_for :: "nat \<Rightarrow> alloc \<Rightarrow> bool" where
  "room_for n alloc \<longleftrightarrow> (\<forall>h. finite (dom h) \<longrightarrow> card (dom h) < n \<longrightarrow> alloc h \<noteq> None)"

lemma represents_card:
  assumes "represents q es" shows "finite (dom (objs q))" "card (dom (objs q)) = length es"
proof -
  obtain xs where xs: "distinct (map fst xs)" "dom (objs q) = set (map fst xs)" "map snd xs = es" by (rule representsE [OF assms])
  then show "finite (dom (objs q))" by simp
  have "card (dom (objs q)) = length (map fst xs)" unfolding xs(2) by (rule distinct_card [OF xs(1)])
  also have "\<dots> = length es" using xs(3) by auto
  finally show "card (dom (objs q)) = length es" .
qed

lemma op_represents:
  assumes "fresh_alloc al" "room_for n al" "represents q es" "length es < n"
  shows "\<exists>q'. qent_op al c q = Some (Inr (fst (list_op c es), q')) \<and> represents q' (snd (list_op c es))"
proof (cases c)
  case (OpPut m d r)
  have "al (objs q) \<noteq> None" using assms(2,4) represents_card [OF assms(3)] by (simp add: room_for_def)
  show ?thesis
  proof (cases "d = []")
    case True then show ?thesis using OpPut assms(3) by (simp add: qent_put_def)
  next
    case False
    obtain q' where "qent_put al (Some m) (Some d) r q = Some (Inr (True, q'))" "represents q' (put_entry r m d es)"
      by (rule put_represents [OF assms(1,3) False \<open>al (objs q) \<noteq> None\<close>])
    with OpPut False show ?thesis by simp
  qed
next
  case (OpRemove m)
  obtain q' where "qent_remove (Some m) q = Some (Inr (int (length (filter (\<lambda>e. fst e = m) es)), q'))"
    "represents q' (filter (\<lambda>e. fst e \<noteq> m) es)" by (rule remove_represents [OF assms(3)])
  then show ?thesis using OpRemove by simp
next
  case OpReverse
  obtain q' where "qent_reverse q = Some (Inr q')" "represents q' (rev es)" by (rule reverse_represents [OF assms(3)])
  then show ?thesis using OpReverse by simp
qed (use assms(3) in \<open>simp_all add: get_represents getlast_represents caseget_represents truncate_represents
     size_represents represents_empty\<close>)

lemma list_op_length: "length (snd (list_op c es)) \<le> Suc (length es)"
  by (cases c) (auto simp: put_entry_def intro: le_SucI)

lemma ops_represent:
  assumes "fresh_alloc al" "room_for n al"
  shows "represents q es \<Longrightarrow> length es + length cs \<le> n \<Longrightarrow>
    \<exists>q'. qent_ops al cs q = Some (Inr (fst (list_ops cs es), q')) \<and> represents q' (snd (list_ops cs es))"
proof (induction cs arbitrary: q es)
  case (Cons c cs)
  obtain x es1 where 1: "list_op c es = (x, es1)" by fastforce
  obtain q1 where q1: "qent_op al c q = Some (Inr (x, q1))" "represents q1 es1"
    using op_represents [OF assms Cons.prems(1), of c] Cons.prems(2) 1 by auto
  have "length es1 + length cs \<le> n" using list_op_length [of c es] 1 Cons.prems(2) by simp
  from Cons.IH [OF q1(2) this] q1(1) 1 show ?case by (auto split: prod.splits)
qed simp

text \<open>
  C12. The linked list. Any sequence of operations on a new list, with memory for as many objects as it has
  operations, ends without a dangling or null pointer being used, and gives the same answers as the operations
  on a list of names and values; the objects in memory are those of the list and no others.
\<close>

theorem linked_list_refines:
  assumes "fresh_alloc al" "room_for (length cs) al"
  shows "\<exists>q'. qent_ops al cs qEntry = Some (Inr (fst (list_ops cs []), q')) \<and> represents q' (snd (list_ops cs [])) \<and>
    card (dom (objs q')) = length (snd (list_ops cs []))"
  using ops_represent [OF assms represents_empty] represents_card(2) by fastforce

definition small_alloc :: alloc where
  "small_alloc h = find (\<lambda>a. h a = None) [0..<8]"

lemma small_alloc_ok: "fresh_alloc small_alloc" "room_for 8 small_alloc"
proof -
  show "fresh_alloc small_alloc" by (auto simp: fresh_alloc_def small_alloc_def find_Some_iff)
  have False if h: "finite (dom h)" "card (dom h) < 8" "\<forall>a \<in> set [0..<8]. h a \<noteq> None" for h :: objects
  proof -
    have "set [0..<8] \<subseteq> dom h" using h(3) by blast
    then have "card (set [0..<8]) \<le> card (dom h)" by (rule card_mono [OF h(1)])
    with h(2) show False by simp
  qed
  then show "room_for 8 small_alloc" unfolding room_for_def small_alloc_def find_None_iff by fastforce
qed

theorem linked_list_refines_witness:
  "\<exists>q'. qent_ops small_alloc [OpPut ''a'' ''1'' False, OpPut ''b'' ''2'' False, OpPut ''a'' ''3'' False, OpGet ''a'',
      OpGetLast ''a'', OpRemove ''a'', OpPut ''c'' ''4'' True, OpSize] qEntry =
    Some (Inr ([Done True, Done True, Done True, Found (Some ''1''), Found (Some ''3''), Count 2, Done True, Count 2], q')) \<and>
    represents q' [(''b'', ''2''), (''c'', ''4'')]"
proof -
  let ?cs = "[OpPut ''a'' ''1'' False, OpPut ''b'' ''2'' False, OpPut ''a'' ''3'' False, OpGet ''a'', OpGetLast ''a'', OpRemove ''a'',
    OpPut ''c'' ''4'' True, OpSize]"
  have "length ?cs = 8" by simp
  then have "room_for (length ?cs) small_alloc" using small_alloc_ok(2) by metis
  moreover have "list_ops ?cs [] = ([Done True, Done True, Done True, Found (Some ''1''), Found (Some ''3''), Count 2, Done True, Count 2],
      [(''b'', ''2''), (''c'', ''4'')])"
    by (simp add: put_entry_def)
  ultimately show ?thesis using linked_list_refines [OF small_alloc_ok(1), of ?cs] by (metis fst_conv snd_conv)
qed

text \<open>
  The lists of strings that the programs keep: \<open>_putstr\<close> stores the terminator with the value. On them the
  functions of \<open>Cgi\<close> are the functions on the linked list.
\<close>

definition stored :: "qentry \<Rightarrow> (string \<times> string) list" where
  "stored e = map (\<lambda>(n, s). (n, s @ [nul])) e"

lemma stored_filter: "filter (\<lambda>x. P (fst x)) (stored e) = stored (filter (\<lambda>x. P (fst x)) e)"
  by (induction e) (auto simp: stored_def)

theorem request_list_in_memory:
  assumes "fresh_alloc al" "represents q (stored e)" "al (objs q) \<noteq> None" "nul \<notin> set s"
  shows "(\<exists>q'. qent_putstr al (Some n) (Some s) replace q = Some (Inr (True, q')) \<and>
      represents q' (stored (qentry_putstr e n s replace))) \<and>
    qent_get (Some n) q = Some (Inr (map_option (\<lambda>v. v @ [nul]) (qentry_get e n)))"
proof -
  have "put_entry replace n (s @ [nul]) (stored e) = stored (qentry_putstr e n s replace)"
    by (simp add: put_entry_def qentry_putstr_def qentry_remove_def stored_filter [of "\<lambda>x. x \<noteq> n"])
      (simp add: stored_def)
  moreover have "map_of (stored e) n = map_option (\<lambda>v. v @ [nul]) (qentry_get e n)"
    by (induction e) (auto simp: stored_def qentry_get_def)
  ultimately show ?thesis
    using put_represents [OF assms(1,2) _ assms(3), of "s @ [nul]" n replace] get_represents [OF assms(2), of n] assms(4)
    by (auto simp: qent_putstr_def cstr_id)
qed

section \<open>Saving and loading\<close>

partial_function (option) save_loop :: "objects \<Rightarrow> nat option \<Rightarrow> string \<Rightarrow> string run" where
  "save_loop h obj text = (case obj of
      None \<Rightarrow> Some (Inr text)
    | Some a \<Rightarrow> (case h a of
         None \<Rightarrow> Some (Inl UseAfterFree)
       | Some ob \<Rightarrow> save_loop h (obj_next ob) (text @ obj_name ob @ CHR ''='' # q_urlencode (obj_data ob) @ [nl])))"

declare save_loop.simps [code]

definition save_header :: "string \<Rightarrow> string" where
  "save_header filepath = ''# Generated by qdecoder.'' @ nl # ''# '' @ filepath @ [nl]"

text \<open>\<open>fopen(filepath, "w") < 0\<close> does not see the null pointer of a file that cannot be opened.\<close>

definition qent_save :: "string \<Rightarrow> qentry_t \<Rightarrow> 'a os_scheme \<Rightarrow> (bool \<times> 'a os_scheme) run" where
  "qent_save filepath q w = (if \<not> wperm w filepath then Some (Inl NullPointer)
     else bindR (save_loop (objs q) (ent_first q) (save_header filepath)) (\<lambda>text. Some (Inr (True, write_file filepath text w))))"

text \<open>\<open>_q_fgetline\<close>: a line of any length, with the rest of the stream.\<close>

definition q_fgetline :: "string \<Rightarrow> (string \<times> string) option" where
  "q_fgetline fp = (if fp = [] then None
     else Some (takeWhile (\<lambda>c. c \<noteq> nl) fp @ take 1 (dropWhile (\<lambda>c. c \<noteq> nl) fp), drop 1 (dropWhile (\<lambda>c. c \<noteq> nl) fp)))"

lemma fgetline_shorter: "q_fgetline fp = Some (l, r) \<Longrightarrow> length r < length fp"
  using length_dropWhile_le [of "\<lambda>c. c \<noteq> nl" fp] by (cases fp) (auto simp: q_fgetline_def split: if_splits)

function load_loop :: "alloc \<Rightarrow> string \<Rightarrow> int \<Rightarrow> qentry_t \<Rightarrow> (int \<times> qentry_t) run" where
  "load_loop al fp cnt q = (case q_fgetline fp of
      None \<Rightarrow> Some (Inr (cnt, q))
    | Some (l, rest) \<Rightarrow> (case q_makeword (CHR ''='') (cstr l) of (name, data) \<Rightarrow>
        bindR (Some (q_urldecode (q_strtrim data))) (\<lambda>d.
          bindR (qent_put al (Some (q_strtrim name)) (Some d) False q) (\<lambda>x. load_loop al rest (cnt + 1) (snd x)))))"
  by pat_completeness auto
termination
  by (relation "measure (\<lambda>(al, fp, cnt, q). length fp)") (auto dest: fgetline_shorter)

declare load_loop.simps [simp del]

definition qent_load :: "alloc \<Rightarrow> string \<Rightarrow> qentry_t \<Rightarrow> 'a os_scheme \<Rightarrow> (int \<times> qentry_t) run" where
  "qent_load al filepath q w = (case files w filepath of
      None \<Rightarrow> Some (Inr (0, q))
    | Some content \<Rightarrow> load_loop al content 0 q)"

definition saved_line :: "string \<times> string \<Rightarrow> string" where
  "saved_line e = fst e @ CHR ''='' # q_urlencode (snd e) @ [nl]"

lemma save_loop_path: "path h p xs None \<Longrightarrow> save_loop h p t = Some (Inr (t @ concat (map saved_line (map snd xs))))"
proof (induction xs arbitrary: p t)
  case Nil then show ?case by (subst save_loop.simps) simp
next
  case (Cons x xs)
  from Cons.prems(1) obtain a n d nx where x: "x = (a, n, d)"
    and nx: "p = Some a" "h a = Some \<lparr>obj_name = n, obj_data = d, obj_next = nx\<rparr>" "path h nx xs None" by (rule path_ConsE)
  from Cons.IH [OF nx(3)] x nx(1,2) show ?case by (subst save_loop.simps) (simp add: saved_line_def [of "(n, d)"])
qed

text \<open>Names and paths that the format can represent.\<close>

definition plain_name :: "string \<Rightarrow> bool" where
  "plain_name n \<longleftrightarrow> CHR ''='' \<notin> set n \<and> nl \<notin> set n \<and> nul \<notin> set n \<and> q_strtrim n = n"

lemma fgetline_line: "nl \<notin> set l \<Longrightarrow> q_fgetline (l @ nl # r) = Some (l @ [nl], r)"
  by (induction l) (auto simp: q_fgetline_def)

text \<open>How a line of the file is taken apart.\<close>

lemma comment_parsed:
  assumes "CHR ''='' \<notin> set l" "nl \<notin> set l" "nul \<notin> set l"
  shows "q_fgetline (l @ nl # r) = Some (l @ [nl], r)" "q_makeword (CHR ''='') (cstr (l @ [nl])) = (l @ [nl], [])"
    "q_strtrim [] = []" "q_urldecode [] = Inr []"
proof -
  have "cstr (l @ [nl]) = l @ [nl]" using assms(3) by (intro cstr_id) auto
  moreover have "q_makeword (CHR ''='') (l @ [nl]) = (l @ [nl], [])" using assms(1) by (intro makeword_end) auto
  ultimately show "q_makeword (CHR ''='') (cstr (l @ [nl])) = (l @ [nl], [])" by simp
  show "q_fgetline (l @ nl # r) = Some (l @ [nl], r)" by (rule fgetline_line [OF assms(2)])
qed (simp_all add: q_strtrim_def)

lemma saved_line_parsed:
  assumes "plain_name n" "d \<noteq> []"
  shows "q_fgetline (saved_line (n, d) @ r) = Some (n @ CHR ''='' # q_urlencode d @ [nl], r)"
    "q_makeword (CHR ''='') (cstr (n @ CHR ''='' # q_urlencode d @ [nl])) = (n, q_urlencode d @ [nl])"
    "q_strtrim n = n" "q_urldecode (q_strtrim (q_urlencode d @ [nl])) = Inr d"
proof -
  have safe: "c \<notin> {CHR ''&'', CHR ''='', CHR '';'', nul} \<and> \<not> trim_char c" if "c \<in> set (q_urlencode d)" for c
    using url_safe_char [OF urlencode_safe [OF that]] .
  then have nl: "nl \<notin> set (q_urlencode d)" "nul \<notin> set (q_urlencode d)" by (auto simp: trim_char_def)
  have ne: "q_urlencode d \<noteq> []" using assms(2) by (cases d) (auto simp: q_urlencode_def url_char_def)
  have "q_strtrim (q_urlencode d @ [nl]) = q_urlencode d"
    using ne safe by (intro strtrim_edges) (auto simp: trim_char_def)
  then show "q_urldecode (q_strtrim (q_urlencode d @ [nl])) = Inr d" by (simp add: urldecode_urlencode)
  let ?l = "n @ CHR ''='' # q_urlencode d"
  show "q_fgetline (saved_line (n, d) @ r) = Some (n @ CHR ''='' # q_urlencode d @ [nl], r)"
    using fgetline_line [of ?l r] assms(1) nl by (simp add: saved_line_def plain_name_def)
  have "cstr (?l @ [nl]) = ?l @ [nl]" using assms(1) nl by (intro cstr_id) (auto simp: plain_name_def)
  moreover have "q_makeword (CHR ''='') (?l @ [nl]) = (n, q_urlencode d @ [nl])"
    using makeword_stop [of "CHR ''=''" n "q_urlencode d @ [nl]"] assms(1) by (simp add: plain_name_def)
  ultimately show "q_makeword (CHR ''='') (cstr (n @ CHR ''='' # q_urlencode d @ [nl])) = (n, q_urlencode d @ [nl])" by simp
  show "q_strtrim n = n" using assms(1) by (simp add: plain_name_def)
qed

lemma load_comment:
  assumes "CHR ''='' \<notin> set l" "nl \<notin> set l" "nul \<notin> set l"
  shows "load_loop al (l @ nl # r) cnt q = load_loop al r (cnt + 1) q"
  using comment_parsed [OF assms] by (subst load_loop.simps) (simp add: qent_put_def)

lemma load_saved_line:
  assumes "plain_name n" "d \<noteq> []"
  shows "load_loop al (saved_line (n, d) @ r) cnt q =
    bindR (qent_put al (Some n) (Some d) False q) (\<lambda>x. load_loop al r (cnt + 1) (snd x))"
  using saved_line_parsed [OF assms] by (subst load_loop.simps) simp

lemma load_saved_lines:
  assumes "fresh_alloc al" "room_for n al"
  shows "\<forall>e \<in> set es. plain_name (fst e) \<and> snd e \<noteq> [] \<Longrightarrow> represents q ds \<Longrightarrow> length ds + length es \<le> n \<Longrightarrow>
    \<exists>q'. load_loop al (concat (map saved_line es)) cnt q = Some (Inr (cnt + int (length es), q')) \<and> represents q' (ds @ es)"
proof (induction es arbitrary: q ds cnt)
  case Nil then show ?case by (subst load_loop.simps) (simp add: q_fgetline_def)
next
  case (Cons e es)
  obtain m d where e: "e = (m, d)" "plain_name m" "d \<noteq> []" using Cons.prems(1) by (cases e) auto
  have "al (objs q) \<noteq> None" using assms(2) represents_card [OF Cons.prems(2)] Cons.prems(3) by (simp add: room_for_def)
  then obtain q1 where q1: "qent_put al (Some m) (Some d) False q = Some (Inr (True, q1))" "represents q1 (ds @ [(m, d)])"
    by (rule put_represents [OF assms(1) Cons.prems(2) e(3), of m False]) (simp add: put_entry_def)
  obtain q' where "load_loop al (concat (map saved_line es)) (cnt + 1) q1 = Some (Inr (cnt + 1 + int (length es), q'))"
    "represents q' ((ds @ [(m, d)]) @ es)"
    using Cons.IH [OF _ q1(2), of "cnt + 1"] Cons.prems(1,3) by auto
  with load_saved_line [OF e(2,3), of al "concat (map saved_line es)" cnt q] q1(1) e(1) show ?case
    by (simp add: algebra_simps)
qed

text \<open>
  Saved entries. A list that is saved to a file and loaded into a new list gives the same entries in the
  same order, whatever bytes the values have; the number that is returned also counts the two comment lines.
\<close>

theorem entries_saved:
  assumes "fresh_alloc al" "room_for (length es) al" "represents q es" "wperm w filepath" "plain_name filepath"
    and "list_all (\<lambda>e. plain_name (fst e) \<and> snd e \<noteq> []) es"
  shows "\<exists>w' q'. qent_save filepath q w = Some (Inr (True, w')) \<and>
    qent_load al filepath qEntry w' = Some (Inr (int (length es) + 2, q')) \<and> represents q' es"
proof -
  obtain xs where xs: "path (objs q) (ent_first q) xs None" "map snd xs = es" by (rule representsE [OF assms(3)])
  let ?t = "save_header filepath @ concat (map saved_line es)"
  have s: "qent_save filepath q w = Some (Inr (True, write_file filepath ?t w))"
    using assms(4) save_loop_path [OF xs(1)] xs(2) by (simp add: qent_save_def)
  have "load_loop al ?t 0 qEntry = load_loop al (''# '' @ filepath @ nl # concat (map saved_line es)) 1 qEntry"
    using load_comment [of "''# Generated by qdecoder.''" al _ 0 qEntry] by (simp add: save_header_def)
  also have "\<dots> = load_loop al (concat (map saved_line es)) 2 qEntry"
    using load_comment [of "''# '' @ filepath" al _ 1 qEntry] assms(5) by (simp add: plain_name_def)
  finally show ?thesis
    using s load_saved_lines [OF assms(1,2) _ represents_empty, of es 2] assms(6)
    by (auto simp: qent_load_def list_all_iff add.commute)
qed

theorem entries_saved_witness:
  "\<exists>w' q'. qent_save ''/tmp/s'' \<lparr>objs = [3 \<mapsto> \<lparr>obj_name = ''k'', obj_data = ''='' @ [nl, nul], obj_next = None\<rparr>], ent_num = 1,
      ent_first = Some 3, ent_last = Some 3\<rparr> \<lparr>files = Map.empty, wperm = \<lambda>_. True, cmds = [], out = [], clock = 0\<rparr> = Some (Inr (True, w')) \<and>
    qent_load small_alloc ''/tmp/s'' qEntry (w' :: os) = Some (Inr (3, q')) \<and> represents q' [(''k'', ''='' @ [nl, nul])]"
proof -
  let ?q = "\<lparr>objs = [3 \<mapsto> \<lparr>obj_name = ''k'', obj_data = ''='' @ [nl, nul], obj_next = None\<rparr>], ent_num = 1,
      ent_first = Some 3, ent_last = Some 3\<rparr>"
  let ?w = "\<lparr>files = Map.empty, wperm = \<lambda>_. True, cmds = [], out = [], clock = 0\<rparr> :: os"
  have "holds ?q [(3, ''k'', ''='' @ [nl, nul])]" by (simp add: holds_def)
  then have "represents ?q [(''k'', ''='' @ [nl, nul])]" unfolding represents_def by force
  moreover have "room_for (length [(''k'', ''='' @ [nl, nul])]) small_alloc" using small_alloc_ok(2) by (simp add: room_for_def)
  moreover have "plain_name ''/tmp/s''" "plain_name ''k''" by (simp_all add: plain_name_def strtrim_id trim_char_def)
  ultimately show ?thesis using entries_saved [OF small_alloc_ok(1), of "[(''k'', ''='' @ [nl, nul])]" ?q ?w "''/tmp/s''"] by simp
qed

end
