(* ===== verification/Qsess.thy ===== *)
theory Qsess
  imports Qentry Cookie
begin

text \<open>
  \<open>qcgisess.c\<close>: sessions that \<open>qdecoder\<close> keeps in files, one for the entries of a session and one for its expiry.
  The list of a session is the list of names and data that the linked list of \<open>qentry.c\<close> represents, with the
  terminating zero that \<open>putstr\<close> stores as part of the data. Then the clearing of old uploads of \<open>qcgireq.c\<close>.
\<close>

type_synonym ents = "(string \<times> string) list"

text \<open>
  What the code asks the system for: microseconds, process number, the port of the client, the names in a directory,
  the age of a file and whether a directory can be used.
\<close>

record sess_env =
  se_usec :: nat
  se_pid :: nat
  se_port :: "string option"
  se_readdir :: "string \<Rightarrow> string list option"
  se_mtime :: "string \<Rightarrow> int option"
  se_access :: "string \<Rightarrow> bool"

abbreviation PATH_MAX :: nat where "PATH_MAX \<equiv> 4096"

abbreviation SESSION_ID :: string where "SESSION_ID \<equiv> ''QSESSIONID''"
abbreviation INTER_SESSIONID :: string where "INTER_SESSIONID \<equiv> ''_Q_SESSIONID''"
abbreviation INTER_SESSION_REPO :: string where "INTER_SESSION_REPO \<equiv> ''_Q_REPOSITORY''"
abbreviation INTER_CREATED_SEC :: string where "INTER_CREATED_SEC \<equiv> ''_Q_CREATED''"
abbreviation INTER_INTERVAL_SEC :: string where "INTER_INTERVAL_SEC \<equiv> ''_Q_INTERVAL''"
abbreviation INTER_CONNECTIONS :: string where "INTER_CONNECTIONS \<equiv> ''_Q_CONNECTIONS''"

section \<open>Entries of a session\<close>

text \<open>Data read as a C string; without a terminating zero the read goes on behind it.\<close>

definition c_string :: "string \<Rightarrow> string res" where
  "c_string d = (if nul \<in> set d then Inr (cstr d) else Inl OutOfBoundsRead)"

text \<open>\<open>atoi\<close> reads on only as long as there are digits.\<close>

definition atoi_data :: "string \<Rightarrow> int res" where
  "atoi_data d = (if nul \<in> set d then Inr (atoi (cstr d))
     else let t = dropWhile isspace d; u = (if t \<noteq> [] \<and> hd t \<in> {CHR ''-'', CHR ''+''} then tl t else t) in
       if dropWhile isdigit u = [] then Inl OutOfBoundsRead else Inr (atoi d))"

definition ent_int :: "string \<Rightarrow> ents \<Rightarrow> int res" where
  "ent_int name es = (case map_of es name of None \<Rightarrow> Inr 0 | Some d \<Rightarrow> atoi_data d)"

definition ent_putstr :: "string \<Rightarrow> string \<Rightarrow> bool \<Rightarrow> ents \<Rightarrow> ents" where
  "ent_putstr name s replace es = put_entry replace name (s @ [nul]) es"

definition ent_putint :: "string \<Rightarrow> int \<Rightarrow> bool \<Rightarrow> ents \<Rightarrow> ents" where
  "ent_putint name n replace es = put_entry replace name (take 20 (show_int n) @ [nul]) es"

definition ent_save :: "string \<Rightarrow> ents \<Rightarrow> 'a os_scheme \<Rightarrow> 'a os_scheme res" where
  "ent_save filepath es w = (if wperm w filepath then Inr (write_file filepath (save_header filepath @ concat (map saved_line es)) w)
     else Inl NullPointer)"

function load_entries :: "string \<Rightarrow> ents \<Rightarrow> ents res" where
  "load_entries fp es = (case q_fgetline fp of
      None \<Rightarrow> Inr es
    | Some (l, rest) \<Rightarrow> (case q_makeword (CHR ''='') (cstr l) of (name, data) \<Rightarrow>
        bindE (q_urldecode (q_strtrim data)) (\<lambda>d. load_entries rest (if d = [] then es else es @ [(q_strtrim name, d)]))))"
  by pat_completeness auto
termination
  by (relation "measure (\<lambda>(fp, es). length fp)") (auto dest: fgetline_shorter)

declare load_entries.simps [simp del]

definition ent_load :: "string \<Rightarrow> ents \<Rightarrow> 'a os_scheme \<Rightarrow> ents res" where
  "ent_load filepath es w = (case files w filepath of None \<Rightarrow> Inr es | Some content \<Rightarrow> load_entries content es)"

section \<open>Files\<close>

text \<open>A file can be removed where it could be written.\<close>

definition q_unlink :: "string \<Rightarrow> 'a os_scheme \<Rightarrow> int \<times> 'a os_scheme" where
  "q_unlink pathname w = (if files w pathname = None \<or> \<not> wperm w pathname then (- 1, w)
     else (0, w\<lparr>files := (files w)(pathname := None)\<rparr>))"

definition q_countread :: "string \<Rightarrow> 'a os_scheme \<Rightarrow> int" where
  "q_countread filepath w = (case files w filepath of
      None \<Rightarrow> 0
    | Some content \<Rightarrow> let buf = take 10 content in if buf = [] then 0 else atoi (cstr buf))"

definition q_countsave :: "string \<Rightarrow> int \<Rightarrow> 'a os_scheme \<Rightarrow> bool \<times> 'a os_scheme" where
  "q_countsave filepath number w = (if \<not> wperm w filepath then (False, w)
     else (True, write_file filepath (take 10 (show_int number)) w))"

definition session_storage_path :: "string \<Rightarrow> string \<Rightarrow> string" where
  "session_storage_path repo sessionkey = take (PATH_MAX - 1) (repo @ ''/'' @ ''qsession-'' @ sessionkey @ ''.properties'')"

definition session_timeout_path :: "string \<Rightarrow> string \<Rightarrow> string" where
  "session_timeout_path repo sessionkey = take (PATH_MAX - 1) (repo @ ''/'' @ ''qsession-'' @ sessionkey @ ''.expire'')"

definition is_valid_session :: "string \<Rightarrow> cgi \<Rightarrow> int" where
  "is_valid_session filepath w = (let timeout = q_countread filepath w in
     if timeout = 0 then 0 else if timeout \<ge> sint (now w) then 1 else - 1)"

definition update_timeout :: "string \<Rightarrow> int \<Rightarrow> cgi \<Rightarrow> bool \<times> cgi" where
  "update_timeout filepath timeout_interval w = (if timeout_interval \<le> 0 then (False, w)
     else q_countsave filepath (sint (now w + word_of_int timeout_interval)) w)"

text \<open>The last digits of microseconds, seconds, process number and client port.\<close>

definition hexn :: "nat \<Rightarrow> nat \<Rightarrow> string" where
  "hexn k n = map (\<lambda>i. hex_digit (n div 16 ^ i mod 16)) (rev [0..<k])"

definition genuniqid :: "sess_env \<Rightarrow> cgi \<Rightarrow> string" where
  "genuniqid se w = (let port = (case se_port se of None \<Rightarrow> 0 | Some p \<Rightarrow> unat (word_of_int (atoi p) :: word32)) in
     hexn 5 (se_usec se mod 0x100000) @ hexn 5 (unat (now w) mod 0x100000) @
     hexn 4 (se_pid se mod 0x10000) @ hexn 4 (port mod 0x10000))"

text \<open>The names of a directory, as \<open>readdir\<close> returns them one after the other.\<close>

fun clear_loop :: "string \<Rightarrow> string list \<Rightarrow> cgi \<Rightarrow> cgi res" where
  "clear_loop repo [] w = Inr w"
| "clear_loop repo (d_name # ns) w = (let timeoutpath = take (PATH_MAX - 1) (repo @ ''/'' @ d_name) in
     if strstr d_name ''qsession-'' \<and> strstr d_name ''.expire'' \<and> is_valid_session timeoutpath w \<le> 0
     then let w = snd (q_unlink timeoutpath w) in
       bindE (sprintf PATH_MAX (take (length timeoutpath - length ''.expire'') timeoutpath @ ''.properties'')) (\<lambda>storagepath.
         clear_loop repo ns (snd (q_unlink storagepath w)))
     else clear_loop repo ns w)"

definition clear_repo :: "sess_env \<Rightarrow> string \<Rightarrow> cgi \<Rightarrow> (bool \<times> cgi) res" where
  "clear_repo se repo w = (case se_readdir se repo of
      None \<Rightarrow> Inr (False, w)
    | Some names \<Rightarrow> bindE (clear_loop repo names w) (\<lambda>w. Inr (True, w)))"

section \<open>Sessions\<close>

definition qcgisess_settimeout :: "int \<Rightarrow> ents \<Rightarrow> bool \<times> ents" where
  "qcgisess_settimeout seconds session = (if seconds \<le> 0 then (False, session)
     else (True, ent_putint INTER_INTERVAL_SEC seconds True session))"

definition qcgisess_getid :: "ents \<Rightarrow> string option res" where
  "qcgisess_getid session = (case map_of session INTER_SESSIONID of
      None \<Rightarrow> Inr None
    | Some d \<Rightarrow> bindE (c_string d) (\<lambda>s. Inr (Some s)))"

definition qcgisess_getcreated :: "ents \<Rightarrow> int res" where
  "qcgisess_getcreated session = bindE (deref (map_of session INTER_CREATED_SEC)) atoi_data"

text \<open>
  Whether the session is a new one, and its identifier: the one of the request if its expiry file names a time to
  come. The files of an expired session are removed.
\<close>

definition session_of_request :: "sess_env \<Rightarrow> string \<Rightarrow> cgi \<Rightarrow> bool \<times> string \<times> cgi" where
  "session_of_request se repo w = (case getstr w SESSION_ID of
      None \<Rightarrow> (True, genuniqid se w, w)
    | Some key \<Rightarrow>
       let valid = is_valid_session (session_timeout_path repo key) w in
       if valid > 0 then (False, key, w)
       else (True, genuniqid se w, if valid < 0
          then snd (q_unlink (session_timeout_path repo key) (snd (q_unlink (session_storage_path repo key) w))) else w))"

definition new_session :: "string \<Rightarrow> string \<Rightarrow> cgi \<Rightarrow> (ents \<times> cgi) res" where
  "new_session repo key w = bindE (qcgires_setcookie SESSION_ID key 0 (Some ''/'') None False w) (\<lambda>(_, w).
     let w = w\<lparr>req := qentry_putstr (req w) SESSION_ID key True\<rparr>;
         created_sec = take 10 (show_int (sint (now w)));
         session = ent_putstr INTER_SESSIONID key False [];
         session = ent_putstr INTER_SESSION_REPO repo False session;
         session = ent_putstr INTER_CREATED_SEC created_sec False session;
         session = ent_putint INTER_CONNECTIONS 1 False session
     in Inr (snd (qcgisess_settimeout (30 * 60) session), w))"

definition old_session :: "string \<Rightarrow> string \<Rightarrow> cgi \<Rightarrow> ents res" where
  "old_session repo key w = bindE (ent_load (session_storage_path repo key) [] w) (\<lambda>session.
     bindE (ent_int INTER_CONNECTIONS session) (\<lambda>conns.
     let session = ent_putint INTER_CONNECTIONS (sint (word_of_int (conns + 1) :: word32)) True session in
     bindE (ent_int INTER_INTERVAL_SEC session) (\<lambda>interval. Inr (snd (qcgisess_settimeout interval session)))))"

text \<open>\<open>strncpy\<close> leaves a directory of 4096 or more characters without its end.\<close>

definition qcgisess_init :: "sess_env \<Rightarrow> string option \<Rightarrow> cgi \<Rightarrow> (ents option \<times> cgi) res" where
  "qcgisess_init se dirpath w = (if qcgires_getcontenttype w \<noteq> None then Inr (None, w)
     else let repo = (case dirpath of None \<Rightarrow> ''/tmp'' | Some d \<Rightarrow> d) in
       if PATH_MAX \<le> length repo then Inl OutOfBoundsRead
       else case session_of_request se repo w of (is_new, key, w) \<Rightarrow>
         if is_new then bindE (new_session repo key w) (\<lambda>(session, w). Inr (Some session, w))
         else bindE (old_session repo key w) (\<lambda>session. Inr (Some session, w)))"

definition qcgisess_save :: "sess_env \<Rightarrow> ents \<Rightarrow> cgi \<Rightarrow> (bool \<times> cgi) res" where
  "qcgisess_save se session w = bindE (ent_int INTER_INTERVAL_SEC session) (\<lambda>interval.
     case (map_of session INTER_SESSIONID, map_of session INTER_SESSION_REPO) of
       (Some k, Some r) \<Rightarrow> bindE (c_string k) (\<lambda>key. bindE (c_string r) (\<lambda>repo.
         bindE (ent_save (session_storage_path repo key) session w) (\<lambda>w.
         case update_timeout (session_timeout_path repo key) interval w of (ok, w) \<Rightarrow>
           if \<not> ok then Inr (False, w)
           else bindE (clear_repo se repo w) (\<lambda>(_, w). Inr (True, w)))))
     | _ \<Rightarrow> Inr (False, w))"

definition qcgisess_destroy :: "ents \<Rightarrow> cgi \<Rightarrow> (bool \<times> cgi) res" where
  "qcgisess_destroy session w = (case (map_of session INTER_SESSIONID, map_of session INTER_SESSION_REPO) of
      (Some k, Some r) \<Rightarrow> bindE (c_string k) (\<lambda>key. bindE (c_string r) (\<lambda>repo.
        Inr (True, snd (q_unlink (session_timeout_path repo key) (snd (q_unlink (session_storage_path repo key) w))))))
    | _ \<Rightarrow> Inr (False, w))"

section \<open>Options of the request parser\<close>

fun upload_clear_loop :: "sess_env \<Rightarrow> string \<Rightarrow> int \<Rightarrow> string list \<Rightarrow> int \<Rightarrow> cgi \<Rightarrow> int \<times> cgi" where
  "upload_clear_loop se basepath clearold [] removed w = (removed, w)"
| "upload_clear_loop se basepath clearold (d_name # ns) removed w =
     (if \<not> strncmp_eq d_name ''q_'' 2 then upload_clear_loop se basepath clearold ns removed w
      else let filepath = take (PATH_MAX - 1) (basepath @ ''/'' @ d_name) in
        case se_mtime se filepath of
          None \<Rightarrow> upload_clear_loop se basepath clearold ns removed w
        | Some t \<Rightarrow>
           if t \<ge> sint (now w + word_of_int clearold) then upload_clear_loop se basepath clearold ns removed w
           else case q_unlink filepath w of (r, w) \<Rightarrow>
             upload_clear_loop se basepath clearold ns (if r = 0 then removed + 1 else removed) w)"

text \<open>A directory that cannot be opened gives \<open>false\<close>, which is 0.\<close>

definition upload_clear_base :: "sess_env \<Rightarrow> string \<Rightarrow> int \<Rightarrow> cgi \<Rightarrow> int \<times> cgi" where
  "upload_clear_base se basepath clearold w = (if clearold \<le> 0 then (- 1, w)
     else case se_readdir se basepath of None \<Rightarrow> (0, w) | Some names \<Rightarrow> upload_clear_loop se basepath clearold names 0 w)"

text \<open>The result is \<open>None\<close> when the list has been released and a null pointer is returned.\<close>

definition qcgireq_setoption :: "sess_env \<Rightarrow> qentry option \<Rightarrow> bool \<Rightarrow> string option \<Rightarrow> int \<Rightarrow> cgi \<Rightarrow> qentry option \<times> cgi" where
  "qcgireq_setoption se request filemode basepath clearold w =
     (let request = (case request of None \<Rightarrow> [] | Some r \<Rightarrow> r) in
      if filemode then
        (case basepath of
           None \<Rightarrow> (None, w)
         | Some base \<Rightarrow>
            if \<not> se_access se base then (None, w)
            else case (if clearold > 0 then upload_clear_base se base clearold w else (0, w)) of (n, w) \<Rightarrow>
              if n < 0 then (None, w)
              else (Some (qentry_putstr (qentry_putstr request ''_Q_UPLOAD_BASEPATH'' base True)
                ''_Q_UPLOAD_CLEAROLD'' (show_int clearold) True), w))
      else (Some (qentry_remove (qentry_remove request ''_Q_UPLOAD_BASEPATH'') ''_Q_UPLOAD_CLEAROLD''), w))"

section \<open>The entries in memory and in the file\<close>

lemma save_represents:
  assumes "represents q es"
  shows "qent_save p q w = Some (map_sum id (\<lambda>w'. (True, w')) (ent_save p es w))"
proof -
  obtain xs where xs: "path (objs q) (ent_first q) xs None" "map snd xs = es" by (rule representsE [OF assms])
  then show ?thesis using save_loop_path [OF xs(1)] by (simp add: qent_save_def ent_save_def)
qed

lemma load_represents:
  assumes "fresh_alloc al" "room_for n al"
  shows "represents q es \<Longrightarrow> length es + length fp \<le> n \<Longrightarrow>
    (case load_entries fp es of Inl f \<Rightarrow> load_loop al fp cnt q = Some (Inl f)
     | Inr es' \<Rightarrow> \<exists>cnt' q'. load_loop al fp cnt q = Some (Inr (cnt', q')) \<and> represents q' es')"
proof (induction fp es arbitrary: q cnt rule: load_entries.induct)
  case (1 fp es)
  show ?case
  proof (cases "q_fgetline fp")
    case None
    with "1.prems" show ?thesis by (simp add: load_entries.simps [of fp] load_loop.simps [of al fp])
  next
    case (Some x)
    obtain l rest where x: "x = (l, rest)" by fastforce
    obtain name data where m: "q_makeword (CHR ''='') (cstr l) = (name, data)" by fastforce
    note shorter = fgetline_shorter [OF Some [unfolded x]]
    show ?thesis
    proof (cases "q_urldecode (q_strtrim data)")
      case (Inl f)
      with Some x m show ?thesis by (simp add: load_entries.simps [of fp] load_loop.simps [of al fp])
    next
      case (Inr d)
      have "al (objs q) \<noteq> None"
        using assms(2) represents_card [OF "1.prems"(1)] "1.prems"(2) shorter by (simp add: room_for_def)
      obtain q1 where q1: "qent_put al (Some (q_strtrim name)) (Some d) False q = Some (Inr (d \<noteq> [], q1))"
        "represents q1 (if d = [] then es else es @ [(q_strtrim name, d)])"
      proof (cases "d = []")
        case True
        with "1.prems"(1) that show thesis by (simp add: qent_put_def)
      next
        case False
        with put_represents [OF assms(1) "1.prems"(1) False \<open>al (objs q) \<noteq> None\<close>, of "q_strtrim name" False] that
        show thesis by (auto simp: put_entry_def)
      qed
      have "length (if d = [] then es else es @ [(q_strtrim name, d)]) + length rest \<le> n"
        using "1.prems"(2) shorter by simp
      note IH = "1.IH" [OF Some x [symmetric] m [symmetric] Inr q1(2) this, of "cnt + 1"]
      have "load_loop al fp cnt q = load_loop al rest (cnt + 1) q1"
        using Some x m Inr q1(1) by (simp add: load_loop.simps [of al fp])
      moreover have "load_entries fp es = load_entries rest (if d = [] then es else es @ [(q_strtrim name, d)])"
        using Some x m Inr by (simp add: load_entries.simps [of fp])
      ultimately show ?thesis using IH by (simp only:)
    qed
  qed
qed

lemma load_entries_comment:
  assumes "CHR ''='' \<notin> set l" "nl \<notin> set l" "nul \<notin> set l"
  shows "load_entries (l @ nl # r) es = load_entries r es"
  using comment_parsed [OF assms] by (subst load_entries.simps) simp

lemma load_entries_line:
  assumes "plain_name n" "d \<noteq> []"
  shows "load_entries (saved_line (n, d) @ r) es = load_entries r (es @ [(n, d)])"
  using saved_line_parsed [OF assms] assms(2) by (subst load_entries.simps) simp

lemma load_entries_lines:
  "list_all (\<lambda>e. plain_name (fst e) \<and> snd e \<noteq> []) es \<Longrightarrow> load_entries (concat (map saved_line es)) ds = Inr (ds @ es)"
proof (induction es arbitrary: ds)
  case Nil
  then show ?case by (subst load_entries.simps) (simp add: q_fgetline_def)
next
  case (Cons e es)
  then show ?case by (cases e) (simp add: load_entries_line)
qed

lemma load_saved:
  assumes "list_all (\<lambda>e. plain_name (fst e) \<and> snd e \<noteq> []) es"
    and "CHR ''='' \<notin> set p" "nl \<notin> set p" "nul \<notin> set p"
  shows "load_entries (save_header p @ concat (map saved_line es)) [] = Inr es"
  using load_entries_comment [of "''# Generated by qdecoder.''"] load_entries_comment [of "''# '' @ p"]
    load_entries_lines [OF assms(1), of "[]"] assms(2-4)
  by (simp add: save_header_def)

section \<open>Clearing keeps a live session\<close>

lemma strstr_dot: "CHR ''.'' \<notin> set a \<Longrightarrow> strstr (a @ r) ''.expire'' = strstr r ''.expire''"
  by (induction a) auto

lemma strstr_same_length: "strstr r needle \<Longrightarrow> length r = length needle \<Longrightarrow> r = needle"
  by (auto simp: strstr_iff_sublist sublist_def)

lemma strstr_length: "strstr r needle \<Longrightarrow> length needle \<le> length r"
  by (auto simp: strstr_iff_sublist dest: sublist_length_le)

text \<open>The directory and identifier of a session whose paths are not cut.\<close>

definition session_paths_ok :: "string \<Rightarrow> string \<Rightarrow> bool" where
  "session_paths_ok repo key \<longleftrightarrow> length repo + length key \<le> 3800 \<and> CHR ''.'' \<notin> set key \<and>
     {CHR ''='', nl, nul} \<inter> (set repo \<union> set key) = {}"

lemma session_paths:
  assumes "session_paths_ok repo key"
  shows "session_storage_path repo key = repo @ ''/qsession-'' @ key @ ''.properties''"
    "session_timeout_path repo key = repo @ ''/qsession-'' @ key @ ''.expire''"
  using assms by (auto simp: session_paths_ok_def session_storage_path_def session_timeout_path_def)

text \<open>What is removed for a directory entry with no time to come belongs to another session.\<close>

lemma cleared_paths:
  assumes ok: "session_paths_ok repo key" and "strstr d ''.expire''"
    and other: "repo @ ''/'' @ d \<noteq> session_timeout_path repo key"
  shows "repo @ ''/'' @ d \<noteq> session_storage_path repo key"
    "take (length (repo @ ''/'' @ d) - 7) (repo @ ''/'' @ d) @ ''.properties'' \<notin> {session_storage_path repo key, session_timeout_path repo key}"
proof -
  have dot: "CHR ''.'' \<notin> set (''qsession-'' @ key)" using ok by (simp add: session_paths_ok_def)
  have len: "7 \<le> length d" using strstr_length [OF assms(2)] by simp
  show "repo @ ''/'' @ d \<noteq> session_storage_path repo key"
  proof
    assume "repo @ ''/'' @ d = session_storage_path repo key"
    then have "d = (''qsession-'' @ key) @ ''.properties''" by (simp add: session_paths [OF ok])
    with assms(2) strstr_dot [OF dot, of "''.properties''"] show False by simp
  qed
  have cut: "take (length (repo @ ''/'' @ d) - 7) (repo @ ''/'' @ d) = repo @ ''/'' @ take (length d - 7) d"
  proof -
    have "length d - 6 = Suc (length d - 7)" using len by simp
    with len show ?thesis by simp
  qed
  have "take (length d - 7) d \<noteq> ''qsession-'' @ key"
  proof
    assume a: "take (length d - 7) d = ''qsession-'' @ key"
    have d: "d = (''qsession-'' @ key) @ drop (length d - 7) d" using append_take_drop_id [of "length d - 7" d] a by metis
    then have "strstr (drop (length d - 7) d) ''.expire''" using assms(2) strstr_dot [OF dot] by metis
    moreover have "length (drop (length d - 7) d) = length ''.expire''" using len by simp
    ultimately have "drop (length d - 7) d = ''.expire''" by (rule strstr_same_length)
    with d other show False by (simp add: session_paths [OF ok])
  qed
  then show "take (length (repo @ ''/'' @ d) - 7) (repo @ ''/'' @ d) @ ''.properties'' \<notin>
      {session_storage_path repo key, session_timeout_path repo key}"
    unfolding cut by (auto simp: session_paths [OF ok] append_eq_append_conv2 dest: arg_cong [of _ _ last])
qed

lemma valid_session_files:
  "files w' p = files w p \<Longrightarrow> now w' = now w \<Longrightarrow> is_valid_session p w' = is_valid_session p w"
  by (simp add: is_valid_session_def q_countread_def Let_def)

lemma q_unlink_files: "\<exists>fs. snd (q_unlink p w) = w\<lparr>files := fs\<rparr> \<and> (\<forall>x. x \<noteq> p \<longrightarrow> fs x = files w x)"
proof (cases "files w p = None \<or> \<not> wperm w p")
  case True
  then show ?thesis by (intro exI [of _ "files w"]) (simp add: q_unlink_def)
next
  case False
  then show ?thesis by (intro exI [of _ "(files w)(p := None)"]) (auto simp: q_unlink_def)
qed

lemma q_unlink_self: "wperm w p \<Longrightarrow> files (snd (q_unlink p w)) p = None"
  by (cases "files w p") (simp_all add: q_unlink_def)

lemma q_unlink_other: "x \<noteq> p \<Longrightarrow> files (snd (q_unlink p w)) x = files w x" "wperm (snd (q_unlink p w)) = wperm w"
  by (simp_all add: q_unlink_def)

lemma length_ext: "length ''.expire'' = 7"
  by simp

lemma clear_loop_keeps:
  assumes ok: "session_paths_ok repo key"
  shows "list_all (\<lambda>n. length n \<le> 255) names \<Longrightarrow> 0 < is_valid_session (session_timeout_path repo key) w \<Longrightarrow>
    \<exists>fs. clear_loop repo names w = Inr (w\<lparr>files := fs\<rparr>) \<and>
      fs (session_storage_path repo key) = files w (session_storage_path repo key) \<and>
      fs (session_timeout_path repo key) = files w (session_timeout_path repo key)"
proof (induction names arbitrary: w)
  case Nil
  show ?case by (intro exI [of _ "files w"]) simp
next
  case (Cons d names)
  let ?tp = "repo @ ''/'' @ d" and ?P = "{session_storage_path repo key, session_timeout_path repo key}"
  let ?sp = "take (length ?tp - 7) ?tp @ ''.properties''"
  have len: "length repo + length d \<le> 4055" using ok Cons.prems(1) by (simp add: session_paths_ok_def)
  then have tp: "take (PATH_MAX - 1) (repo @ ''/'' @ d) = ?tp" by simp
  show ?case
  proof (cases "strstr d ''qsession-'' \<and> strstr d ''.expire'' \<and> is_valid_session ?tp w \<le> 0")
    case False
    with Cons tp show ?thesis by (auto simp: Let_def)
  next
    case True
    then have "?tp \<noteq> session_timeout_path repo key" using Cons.prems(2) by auto
    with cleared_paths [OF ok] True have P: "?tp \<notin> ?P" "?sp \<notin> ?P" by auto
    obtain f1 where f1: "snd (q_unlink ?tp w) = w\<lparr>files := f1\<rparr>" "\<forall>x. x \<noteq> ?tp \<longrightarrow> f1 x = files w x"
      using q_unlink_files [of ?tp w] by blast
    obtain f2 where f2: "snd (q_unlink ?sp (w\<lparr>files := f1\<rparr>)) = w\<lparr>files := f2\<rparr>" "\<forall>x. x \<noteq> ?sp \<longrightarrow> f2 x = f1 x"
      using q_unlink_files [of ?sp "w\<lparr>files := f1\<rparr>"] by auto
    have keep: "f2 p = files w p" if "p \<in> ?P" for p using f1(2) f2(2) P that by metis
    then have "0 < is_valid_session (session_timeout_path repo key) (w\<lparr>files := f2\<rparr>)"
      using Cons.prems(2) by (subst valid_session_files [of _ _ w]) simp_all
    with Cons.IH [of "w\<lparr>files := f2\<rparr>"] Cons.prems(1) keep obtain fs where
      "clear_loop repo names (w\<lparr>files := f2\<rparr>) = Inr (w\<lparr>files := fs\<rparr>)" "\<forall>p \<in> ?P. fs p = files w p"
      by auto
    moreover have "clear_loop repo (d # names) w = clear_loop repo names (w\<lparr>files := f2\<rparr>)"
      using True f1(1) f2(1) len unfolding clear_loop.simps Let_def tp length_ext by simp
    ultimately show ?thesis by auto
  qed
qed

section \<open>Saving and resuming\<close>

lemma show_int_fits:
  assumes "0 \<le> n" "n < 2 ^ 31"
  shows "take 10 (show_int n) = show_int n" "take 20 (show_int n) = show_int n" "show_int n \<noteq> []"
    "nul \<notin> set (show_int n)" "atoi (show_int n) = n"
proof -
  have "length (show_int n) \<le> 10" using assms length_show_nat [of "nat n" 10] by (simp add: show_int_def)
  then show "take 10 (show_int n) = show_int n" "take 20 (show_int n) = show_int n" by simp_all
  show "show_int n \<noteq> []" by (simp add: show_int_def show_nat_nonempty)
  show "nul \<notin> set (show_int n)" by (auto dest: show_int_chars)
  show "atoi (show_int n) = n" using assms atoi_show_int [of n "[]"] by simp
qed

lemma ent_int_put [simp]:
  assumes "0 \<le> n" "n < 2 ^ 31"
  shows "atoi_data (show_int n @ [nul]) = Inr n"
  using show_int_fits [OF assms] by (simp add: atoi_data_def cstr_append_nul)

text \<open>A session as the library makes it, with names that the file can hold.\<close>

definition session_ok :: "string \<Rightarrow> string \<Rightarrow> int \<Rightarrow> ents \<Rightarrow> bool" where
  "session_ok repo key interval es \<longleftrightarrow> session_paths_ok repo key \<and>
     map_of es INTER_SESSIONID = Some (key @ [nul]) \<and> map_of es INTER_SESSION_REPO = Some (repo @ [nul]) \<and>
     map_of es INTER_INTERVAL_SEC = Some (show_int interval @ [nul]) \<and>
     list_all (\<lambda>e. plain_name (fst e) \<and> snd e \<noteq> []) es"

definition short_names :: "sess_env \<Rightarrow> string \<Rightarrow> bool" where
  "short_names se repo = (case se_readdir se repo of None \<Rightarrow> True | Some names \<Rightarrow> list_all (\<lambda>n. length n \<le> 255) names)"

lemma expiry_word:
  fixes t :: word32
  assumes "0 \<le> sint t" "0 < i" "sint t + i < 2 ^ 31"
  shows "sint (t + word_of_int i) = sint t + i"
proof -
  have "t + word_of_int i = word_of_int (sint t + i)" by simp
  then show ?thesis using sint_small [of "sint t + i"] assms by simp
qed

lemma save_session:
  assumes ok: "session_ok repo key interval es" and t: "0 \<le> sint (now w)" "0 < interval" "sint (now w) + interval < 2 ^ 31"
    and perm: "wperm w (session_storage_path repo key)" "wperm w (session_timeout_path repo key)" and names: "short_names se repo"
  obtains fs where "qcgisess_save se es w = Inr (True, w\<lparr>files := fs\<rparr>)"
    "fs (session_storage_path repo key) =
       Some (save_header (session_storage_path repo key) @ concat (map saved_line es))"
    "fs (session_timeout_path repo key) = Some (show_int (sint (now w) + interval))"
proof -
  let ?s = "session_storage_path repo key" and ?t = "session_timeout_path repo key"
  let ?e = "sint (now w) + interval" and ?text = "save_header (session_storage_path repo key) @ concat (map saved_line es)"
  let ?w = "w\<lparr>files := (files w)(?s \<mapsto> ?text, ?t \<mapsto> show_int ?e)\<rparr>"
  have p: "session_paths_ok repo key" using ok by (simp add: session_ok_def)
  then have z: "nul \<notin> set key" "nul \<notin> set repo" by (auto simp: session_paths_ok_def)
  have i: "ent_int INTER_INTERVAL_SEC es = Inr interval"
    using ok t by (simp add: ent_int_def session_ok_def)
  have c: "c_string (key @ [nul]) = Inr key" "c_string (repo @ [nul]) = Inr repo"
    using z by (simp_all add: c_string_def cstr_append_nul)
  have e: "sint (now w + word_of_int interval) = ?e" "take 10 (show_int ?e) = show_int ?e" "atoi (cstr (show_int ?e)) = ?e"
    "show_int ?e \<noteq> []"
    using expiry_word [OF t] show_int_fits [of ?e] t by (simp_all add: cstr_id)
  have st: "?s \<noteq> ?t" by (auto simp: session_paths [OF p])
  have saved: "qcgisess_save se es w = bindE (clear_repo se repo ?w) (\<lambda>(_, w). Inr (True, w))"
    using ok i c e perm t
    by (simp add: qcgisess_save_def session_ok_def ent_save_def update_timeout_def q_countsave_def write_file_def)
  have valid: "0 < is_valid_session ?t ?w"
    using e t by (simp add: is_valid_session_def q_countread_def)
  show thesis
  proof (cases "se_readdir se repo")
    case None
    with saved st show thesis by (intro that [of "files ?w"]) (simp_all add: clear_repo_def)
  next
    case (Some ns)
    then have "list_all (\<lambda>n. length n \<le> 255) ns" using names by (simp add: short_names_def)
    from clear_loop_keeps [OF p this valid] obtain fs where
      "clear_loop repo ns ?w = Inr (?w\<lparr>files := fs\<rparr>)" "fs ?s = files ?w ?s" "fs ?t = files ?w ?t"
      by blast
    with saved Some st show thesis by (intro that [of fs]) (simp_all add: clear_repo_def)
  qed
qed

lemma resume_session:
  assumes ok: "session_ok repo key interval es" and "0 < interval" "interval < 2 ^ 31" "0 < expiry" "expiry < 2 ^ 31"
    and fs: "files w (session_storage_path repo key) = Some (save_header (session_storage_path repo key) @ concat (map saved_line es))"
      "files w (session_timeout_path repo key) = Some (show_int expiry)"
    and req: "getstr w SESSION_ID = Some key" "qcgires_getcontenttype w = None" and time: "sint (now w) \<le> expiry"
    and conns: "ent_int INTER_CONNECTIONS es = Inr conns" "0 \<le> conns" "conns < 2 ^ 31 - 1"
  shows "\<exists>es'. qcgisess_init se (Some repo) w = Inr (Some es', w) \<and>
    map_of es' INTER_CONNECTIONS = Some (show_int (conns + 1) @ [nul]) \<and>
    (\<forall>n. n \<noteq> INTER_CONNECTIONS \<longrightarrow> map_of es' n = map_of es n)"
proof -
  let ?s = "session_storage_path repo key" and ?t = "session_timeout_path repo key"
  have p: "session_paths_ok repo key" using ok by (simp add: session_ok_def)
  have "is_valid_session ?t w = 1"
    using fs(2) time assms(4) show_int_fits [of expiry] assms(5) by (simp add: is_valid_session_def q_countread_def cstr_id)
  then have r: "session_of_request se repo w = (False, key, w)" using req by (simp add: session_of_request_def)
  have "load_entries (save_header ?s @ concat (map saved_line es)) [] = Inr es"
    using ok p by (intro load_saved) (auto simp: session_ok_def session_paths session_paths_ok_def)
  then have l: "ent_load ?s [] w = Inr es" using fs(1) by (simp add: ent_load_def)
  have c: "sint (word_of_int (conns + 1) :: word32) = conns + 1" using conns by (intro sint_small) simp_all
  let ?e1 = "ent_putint INTER_CONNECTIONS (conns + 1) True es" and ?e2 = "ent_putint INTER_INTERVAL_SEC interval True"
  have "map_of es INTER_INTERVAL_SEC = Some (show_int interval @ [nul])" using ok by (simp add: session_ok_def)
  then have "ent_int INTER_INTERVAL_SEC ?e1 = Inr interval"
    using assms(2,3) by (simp add: ent_int_def ent_putint_def entries.get_put)
  then have "old_session repo key w = Inr (?e2 ?e1)"
    using l conns(1) c assms(2) by (simp add: old_session_def qcgisess_settimeout_def Let_def)
  moreover have "length repo < PATH_MAX" using p by (simp add: session_paths_ok_def)
  ultimately have "qcgisess_init se (Some repo) w = Inr (Some (?e2 ?e1), w)"
    using req r by (simp add: qcgisess_init_def)
  moreover have "map_of (?e2 ?e1) n = (if n = INTER_CONNECTIONS then Some (show_int (conns + 1) @ [nul]) else map_of es n)" for n
    using ok conns assms(2,3) show_int_fits [of "conns + 1"] show_int_fits [of interval]
    by (simp add: ent_putint_def entries.get_put_put session_ok_def)
  ultimately show ?thesis by auto
qed

text \<open>The entries of a session that has just been made.\<close>

definition session_names :: "string set" where
  "session_names = {INTER_SESSIONID, INTER_SESSION_REPO, INTER_CREATED_SEC, INTER_CONNECTIONS, INTER_INTERVAL_SEC}"

lemma length_urlencode: "length (q_urlencode s) \<le> 3 * length s"
  by (induction s) (auto simp: q_urlencode_def url_char_def)

lemma length_genuniqid: "length (genuniqid se w) = 18"
  by (simp add: genuniqid_def hexn_def Let_def)

lemma setcookie_session:
  assumes "qcgires_getcontenttype w = None" "length key \<le> 18"
  shows "qcgires_setcookie SESSION_ID key 0 (Some ''/'') None False w =
    Inr (True, puts (''Set-Cookie: '' @ cookie_text SESSION_ID key 0 (Some ''/'') None False (now w) @ [nl]) w)"
proof -
  have "length (q_urlencode SESSION_ID) + length (q_urlencode key) \<le> 84"
    using length_urlencode [of SESSION_ID] length_urlencode [of key] assms(2) by simp
  then have "length (cookie_text SESSION_ID key 0 (Some ''/'') None False (now w)) < 4352"
    by (simp add: cookie_text_def)
  then show ?thesis using assms(1) by (simp add: setcookie_outcome Let_def)
qed

lemma new_session_entries:
  assumes "qcgires_getcontenttype w = None"
  shows "\<exists>es w'. new_session repo (genuniqid se w) w = Inr (es, w') \<and> files w' = files w \<and>
    map_of es INTER_SESSIONID = Some (genuniqid se w @ [nul]) \<and>
    fst ` set es = session_names"
  using setcookie_session [OF assms] length_genuniqid [of se w]
  by (auto simp: new_session_def qcgisess_settimeout_def ent_putint_def ent_putstr_def put_entry_def session_names_def Let_def)

lemma expire_session:
  assumes ok: "session_ok repo key interval es" and "0 < expiry" "expiry < 2 ^ 31"
    and fs: "files w (session_timeout_path repo key) = Some (show_int expiry)"
    and req: "getstr w SESSION_ID = Some key" "qcgires_getcontenttype w = None" and time: "expiry < sint (now w)"
    and perm: "wperm w (session_storage_path repo key)" "wperm w (session_timeout_path repo key)"
  shows "\<exists>es' w'. qcgisess_init se (Some repo) w = Inr (Some es', w') \<and>
    map_of es' INTER_SESSIONID = Some (genuniqid se w @ [nul]) \<and>
    fst ` set es' = session_names \<and>
    files w' (session_storage_path repo key) = None \<and> files w' (session_timeout_path repo key) = None"
proof -
  let ?s = "session_storage_path repo key" and ?t = "session_timeout_path repo key"
  have p: "session_paths_ok repo key" using ok by (simp add: session_ok_def)
  have st: "?s \<noteq> ?t" by (auto simp: session_paths [OF p])
  let ?w = "snd (q_unlink ?t (snd (q_unlink ?s w)))"
  have "is_valid_session ?t w = - 1"
    using fs time assms(2,3) show_int_fits [of expiry] by (simp add: is_valid_session_def q_countread_def cstr_id)
  then have r: "session_of_request se repo w = (True, genuniqid se w, ?w)" using req by (simp add: session_of_request_def)
  obtain f1 where f1: "snd (q_unlink ?s w) = w\<lparr>files := f1\<rparr>" "\<forall>x. x \<noteq> ?s \<longrightarrow> f1 x = files w x"
    using q_unlink_files [of ?s w] by blast
  obtain f2 where f2: "?w = w\<lparr>files := f2\<rparr>" using q_unlink_files [of ?t "w\<lparr>files := f1\<rparr>"] f1(1) by auto
  have gone: "files ?w ?s = None" "files ?w ?t = None"
    using perm st by (simp_all add: q_unlink_self q_unlink_other)
  have g: "genuniqid se ?w = genuniqid se w" "qcgires_getcontenttype ?w = None"
    using req(2) unfolding f2 by (simp_all add: genuniqid_def qcgires_getcontenttype_def getstr_def)
  from new_session_entries [OF g(2), of repo se] obtain es' w' where
    "new_session repo (genuniqid se w) ?w = Inr (es', w')" "files w' = files ?w" "map_of es' INTER_SESSIONID = Some (genuniqid se w @ [nul])"
    "fst ` set es' = session_names"
    unfolding g(1) by (elim exE conjE) (rule that)
  moreover have "length repo < PATH_MAX" using p by (simp add: session_paths_ok_def)
  ultimately show ?thesis using req(2) r gone by (auto simp: qcgisess_init_def)
qed

text \<open>
  C37. A saved session. Saving a session succeeds, with whatever other sessions are in its directory, and a later
  request with its identifier gets all of its entries back, with one more connection counted, as long as the time
  is not past the interval of the session; after that the request gets a new session without any of the entries,
  and the files of the old one are removed.
\<close>

theorem session_resumed:
  fixes w :: cgi
  assumes "session_ok repo key interval es" "0 \<le> sint (now w)" "0 < interval" "sint (now w) + interval < 2 ^ 31"
    and "wperm w (session_storage_path repo key)" "wperm w (session_timeout_path repo key)" "short_names se repo"
    and "ent_int INTER_CONNECTIONS es = Inr conns" "0 \<le> conns" "conns < 2 ^ 31 - 1"
  shows "\<exists>w1. qcgisess_save se es w = Inr (True, w1) \<and>
    (\<forall>se' w2. files w2 = files w1 \<longrightarrow> wperm w2 = wperm w1 \<longrightarrow> getstr w2 SESSION_ID = Some key \<longrightarrow> qcgires_getcontenttype w2 = None \<longrightarrow>
      (\<exists>es' w3. qcgisess_init se' (Some repo) w2 = Inr (Some es', w3) \<and>
        (if sint (now w2) \<le> sint (now w) + interval
         then map_of es' INTER_CONNECTIONS = Some (show_int (conns + 1) @ [nul]) \<and>
           (\<forall>n. n \<noteq> INTER_CONNECTIONS \<longrightarrow> map_of es' n = map_of es n)
         else map_of es' INTER_SESSIONID = Some (genuniqid se' w2 @ [nul]) \<and>
           fst ` set es' = session_names \<and>
           files w3 (session_storage_path repo key) = None \<and> files w3 (session_timeout_path repo key) = None)))"
    (is "\<exists>w1. _ \<and> (\<forall>se' w2. _ \<longrightarrow> _ \<longrightarrow> _ \<longrightarrow> _ \<longrightarrow> ?R se' w2)")
proof -
  obtain fs where fs: "qcgisess_save se es w = Inr (True, w\<lparr>files := fs\<rparr>)"
    "fs (session_storage_path repo key) = Some (save_header (session_storage_path repo key) @ concat (map saved_line es))"
    "fs (session_timeout_path repo key) = Some (show_int (sint (now w) + interval))"
    by (rule save_session [OF assms(1-7)])
  show ?thesis
  proof (intro exI [of _ "w\<lparr>files := fs\<rparr>"] conjI allI impI)
    fix se' :: sess_env and w2 :: cgi
    assume w2: "files w2 = files (w\<lparr>files := fs\<rparr>)" "wperm w2 = wperm (w\<lparr>files := fs\<rparr>)" "getstr w2 SESSION_ID = Some key"
      "qcgires_getcontenttype w2 = None"
    note resume = resume_session [OF assms(1,3), of "sint (now w) + interval" w2 conns se']
    note expire = expire_session [OF assms(1), of "sint (now w) + interval" w2 se']
    show "?R se' w2"
    proof (cases "sint (now w2) \<le> sint (now w) + interval")
      case True
      then show ?thesis using resume w2 fs(2,3) assms(2-4,8-10) by auto
    next
      case False
      then show ?thesis using expire w2 fs(3) assms(2-6) by auto
    qed
  qed (rule fs(1))
qed

definition demo_sess_env :: sess_env where
  "demo_sess_env = \<lparr>se_usec = 5, se_pid = 77, se_port = None, se_readdir = \<lambda>_. Some [''.'', ''..'', ''qsession-old.expire''],
     se_mtime = \<lambda>_. None, se_access = \<lambda>_. True\<rparr>"

definition demo_session :: ents where
  "demo_session = [(INTER_SESSIONID, ''00ab'' @ [nul]), (INTER_SESSION_REPO, ''/tmp'' @ [nul]), (INTER_CONNECTIONS, show_int 1 @ [nul]),
     (INTER_INTERVAL_SEC, show_int 1800 @ [nul]), (''user'', ''bob'' @ [nul])]"

lemma demo_session_ok: "session_ok ''/tmp'' ''00ab'' 1800 demo_session" "ent_int INTER_CONNECTIONS demo_session = Inr 1"
proof -
  show "session_ok ''/tmp'' ''00ab'' 1800 demo_session"
    by (simp add: session_ok_def session_paths_ok_def demo_session_def plain_name_def strtrim_id trim_char_def)
  show "ent_int INTER_CONNECTIONS demo_session = Inr 1"
    using ent_int_put [of 1] by (simp add: ent_int_def demo_session_def)
qed

theorem session_resumed_witness:
  "\<exists>w1 es' w3. qcgisess_save demo_sess_env demo_session (web_world [''/tmp/qsession-old.expire'' \<mapsto> ''5''] []) = Inr (True, w1) \<and>
    qcgisess_init demo_sess_env (Some ''/tmp'') (w1\<lparr>req := [(SESSION_ID, ''00ab'')], now := 2800\<rparr>) = Inr (Some es', w3) \<and>
    map_of es' ''user'' = Some (''bob'' @ [nul]) \<and> map_of es' INTER_CONNECTIONS = Some (show_int 2 @ [nul])"
proof -
  let ?w = "web_world [''/tmp/qsession-old.expire'' \<mapsto> ''5''] []"
  have t: "sint (now ?w) = 1000" "short_names demo_sess_env ''/tmp''"
    by (simp_all add: web_world_def short_names_def demo_sess_env_def)
  have p: "wperm ?w x" for x by (simp add: web_world_def)
  note r = session_resumed [OF demo_session_ok(1) _ _ _ p p t(2) demo_session_ok(2), unfolded t(1)]
  have "\<exists>w1. qcgisess_save demo_sess_env demo_session ?w = Inr (True, w1) \<and>
    (\<forall>se' w2. files w2 = files w1 \<longrightarrow> wperm w2 = wperm w1 \<longrightarrow> getstr w2 SESSION_ID = Some ''00ab'' \<longrightarrow> qcgires_getcontenttype w2 = None \<longrightarrow>
      (\<exists>es' w3. qcgisess_init se' (Some ''/tmp'') w2 = Inr (Some es', w3) \<and>
        (if sint (now w2) \<le> 1000 + 1800
         then map_of es' INTER_CONNECTIONS = Some (show_int (1 + 1) @ [nul]) \<and>
           (\<forall>n. n \<noteq> INTER_CONNECTIONS \<longrightarrow> map_of es' n = map_of demo_session n)
         else map_of es' INTER_SESSIONID = Some (genuniqid se' w2 @ [nul]) \<and> fst ` set es' = session_names \<and>
           files w3 (session_storage_path ''/tmp'' ''00ab'') = None \<and> files w3 (session_timeout_path ''/tmp'' ''00ab'') = None)))"
    by (rule r) simp_all
  then obtain w1 where w1: "qcgisess_save demo_sess_env demo_session ?w = Inr (True, w1)"
    "\<And>w2. files w2 = files w1 \<Longrightarrow> wperm w2 = wperm w1 \<Longrightarrow> getstr w2 SESSION_ID = Some ''00ab'' \<Longrightarrow> qcgires_getcontenttype w2 = None \<Longrightarrow>
      sint (now w2) \<le> 1000 + 1800 \<Longrightarrow> \<exists>es' w3. qcgisess_init demo_sess_env (Some ''/tmp'') w2 = Inr (Some es', w3) \<and>
        map_of es' INTER_CONNECTIONS = Some (show_int (1 + 1) @ [nul]) \<and> (\<forall>n. n \<noteq> INTER_CONNECTIONS \<longrightarrow> map_of es' n = map_of demo_session n)"
    by (elim exE conjE) (rule that, assumption, metis)
  let ?w2 = "w1\<lparr>req := [(SESSION_ID, ''00ab'')], now := 2800\<rparr>"
  have "files ?w2 = files w1" "wperm ?w2 = wperm w1" "getstr ?w2 SESSION_ID = Some ''00ab''" "qcgires_getcontenttype ?w2 = None"
    "sint (now ?w2) \<le> 1000 + 1800"
    by (simp_all add: getstr_def qentry_get_def qcgires_getcontenttype_def cstr_def)
  note init = w1(2) [OF this]
  then show ?thesis using w1(1) by (auto simp: demo_session_def)
qed

section \<open>Old uploads\<close>

text \<open>In file mode the directory and the age are in the list for the parser to find, and nothing else has changed there.\<close>

lemma setoption_stores:
  assumes "qcgireq_setoption se (Some e) True (Some base) clearold w = (Some e', w')"
  shows "qentry_get e' n = (if n = ''_Q_UPLOAD_CLEAROLD'' then Some (show_int clearold)
    else if n = ''_Q_UPLOAD_BASEPATH'' then Some base else qentry_get e n)"
  using assms by (auto simp: qcgireq_setoption_def request.get_put_put split: if_splits prod.splits)

text \<open>One name of the directory: files go, none appears, and a file that counts as old goes.\<close>

lemma upload_clear_step:
  defines "p \<equiv> \<lambda>b d. take (PATH_MAX - 1) (b @ ''/'' @ d)"
  shows "\<exists>k' fs. upload_clear_loop se b c (d # ns) k w = upload_clear_loop se b c ns k' (w\<lparr>files := fs\<rparr>) \<and>
    (\<forall>x. files w x = None \<longrightarrow> fs x = None) \<and>
    (strncmp_eq d ''q_'' 2 \<and> wperm w (p b d) \<and> (\<exists>t. se_mtime se (p b d) = Some t \<and> t < sint (now w + word_of_int c)) \<longrightarrow>
      fs (p b d) = None)"
proof (cases "strncmp_eq d ''q_'' 2 \<and> (\<exists>t. se_mtime se (p b d) = Some t \<and> t < sint (now w + word_of_int c))")
  case False
  then have "upload_clear_loop se b c (d # ns) k w = upload_clear_loop se b c ns k w"
    unfolding upload_clear_loop.simps Let_def p_def by (auto split: option.splits)
  with False show ?thesis by (intro exI [of _ k] exI [of _ "files w"]) auto
next
  case True
  obtain r w' where r: "q_unlink (p b d) w = (r, w')" by fastforce
  have "upload_clear_loop se b c (d # ns) k w = upload_clear_loop se b c ns (if r = 0 then k + 1 else k) w'"
    using True r unfolding upload_clear_loop.simps Let_def p_def by (auto split: option.splits)
  moreover have "w' = w\<lparr>files := files w'\<rparr>" "\<forall>x. files w x = None \<longrightarrow> files w' x = None"
    "wperm w (p b d) \<longrightarrow> files w' (p b d) = None"
    using r by (auto simp: q_unlink_def split: if_splits)
  ultimately show ?thesis by metis
qed

text \<open>
  Clearing removes new files too. The test compares the age of a file with a time in the future, so that a file
  that has just been written is removed as an old one.
\<close>

lemma upload_clear_loop_files:
  "files w x = None \<Longrightarrow> files (snd (upload_clear_loop se b c ns k w)) x = None"
proof (induction ns arbitrary: k w)
  case (Cons d ns)
  obtain k' fs where "upload_clear_loop se b c (d # ns) k w = upload_clear_loop se b c ns k' (w\<lparr>files := fs\<rparr>)"
    "\<forall>x. files w x = None \<longrightarrow> fs x = None" using upload_clear_step [of se b c d ns k w] by metis
  with Cons.IH [of "w\<lparr>files := fs\<rparr>" k'] Cons.prems show ?case by simp
qed simp

lemma upload_clear_loop_removes:
  assumes "d \<in> set ns" "strncmp_eq d ''q_'' 2" "length b + length d < 4095" "wperm w (b @ ''/'' @ d)"
    and "se_mtime se (b @ ''/'' @ d) = Some t" "t < sint (now w + word_of_int c)"
  shows "files (snd (upload_clear_loop se b c ns k w)) (b @ ''/'' @ d) = None"
  using assms(1,4,6)
proof (induction ns arbitrary: k w)
  case (Cons e ns)
  have p: "take (PATH_MAX - 1) (b @ ''/'' @ d) = b @ ''/'' @ d" using assms(3) by simp
  obtain k' fs where s: "upload_clear_loop se b c (e # ns) k w = upload_clear_loop se b c ns k' (w\<lparr>files := fs\<rparr>)"
    "e = d \<longrightarrow> fs (b @ ''/'' @ d) = None"
    using upload_clear_step [of se b c e ns k w] assms(2,5) Cons.prems(2,3) p by metis
  show ?case
  proof (cases "e = d")
    case True
    with s show ?thesis by (simp add: upload_clear_loop_files)
  next
    case False
    with s Cons.IH [of "w\<lparr>files := fs\<rparr>" k'] Cons.prems show ?thesis by simp
  qed
qed simp

theorem clear_removes_new_files:
  assumes "se_readdir se base = Some ns" "d \<in> set ns" "strncmp_eq d ''q_'' 2" "length base + length d < 4095"
    and "se_mtime se (base @ ''/'' @ d) = Some t" "t \<le> sint (now w)" "0 \<le> sint (now w)" "0 < clearold" "sint (now w) + clearold < 2 ^ 31"
    and "wperm w (base @ ''/'' @ d)"
  shows "files (snd (upload_clear_base se base clearold w)) (base @ ''/'' @ d) = None"
  using upload_clear_loop_removes [OF assms(2-4,10,5)] expiry_word [OF assms(7-9)] assms(1,6,8)
  by (simp add: upload_clear_base_def)

end
