(* ===== verification/Xconfig.thy ===== *)
theory Xconfig
  imports Os
begin

text \<open>
  \<open>apps/mmon/xconfig.c\<close> and \<open>apps/mmon/main.c\<close>: the configuration of the modem monitor, its file
  and its command line.
\<close>

record XCFG =
  bRun :: int
  szDevice :: string
  nBaudrate :: int
  nTimeout :: int
  nLiveCheckInterval :: int
  nBootWaitTime :: int

definition BOOT_WAIT_TIME :: int where "BOOT_WAIT_TIME = 10"
definition MIN_BOOT_WAIT_TIME :: int where "MIN_BOOT_WAIT_TIME = 1"
definition MAX_BOOT_WAIT_TIME :: int where "MAX_BOOT_WAIT_TIME = 60"
definition LIVE_CHECK_INTERVAL :: int where "LIVE_CHECK_INTERVAL = 10"

lemmas cfg_consts = BOOT_WAIT_TIME_def MIN_BOOT_WAIT_TIME_def MAX_BOOT_WAIT_TIME_def LIVE_CHECK_INTERVAL_def

definition XCFG_SetDefault :: XCFG where
  "XCFG_SetDefault = \<lparr>bRun = 0, szDevice = [], nBaudrate = 0, nTimeout = 0,
     nLiveCheckInterval = LIVE_CHECK_INTERVAL, nBootWaitTime = BOOT_WAIT_TIME\<rparr>"

definition cfg_field :: "string \<Rightarrow> string \<Rightarrow> XCFG \<Rightarrow> XCFG" where
  "cfg_field szField szContent c =
     (if szField = ''device:'' then c\<lparr>szDevice := take 1023 szContent\<rparr>
      else if szField = ''run:'' then c\<lparr>bRun := (if szContent = ''yes'' then 1 else 0)\<rparr>
      else if szField = ''boot_wait:'' then
        (let nTime = atoi szContent in
         if MIN_BOOT_WAIT_TIME \<le> nTime \<and> nTime \<le> MAX_BOOT_WAIT_TIME then c\<lparr>nBootWaitTime := nTime\<rparr> else c)
      else if szField = ''live_check:'' then
        (let nTime = atoi szContent in if 0 < nTime then c\<lparr>nLiveCheckInterval := nTime\<rparr> else c)
      else c)"

definition cfg_line :: "string \<Rightarrow> XCFG \<Rightarrow> XCFG res" where
  "cfg_line szBuf c = bindE (sscanf_ss 64 1024 (cstr szBuf)) (\<lambda>r. case r of
      None \<Rightarrow> Inr c
    | Some (szField, szContent) \<Rightarrow> if take 1 szField = ''#'' then Inr c else Inr (cfg_field szField szContent c))"

fun cfg_lines :: "string list \<Rightarrow> XCFG \<Rightarrow> XCFG res" where
  "cfg_lines [] c = Inr c"
| "cfg_lines (l # ls) c = bindE (cfg_line l c) (cfg_lines ls)"

text \<open>\<open>None\<close> is the return value -1: the file is not there and the configuration is not touched.\<close>

definition XCFG_Load :: "string \<Rightarrow> files \<Rightarrow> XCFG option res" where
  "XCFG_Load lpszName fs = (case fs lpszName of
      None \<Rightarrow> Inr None
    | Some c \<Rightarrow> bindE (cfg_lines (fgets_all 1024 c) XCFG_SetDefault) (\<lambda>cfg. Inr (Some cfg)))"

section \<open>The command line\<close>

text \<open>What \<open>getopt_long\<close> returns for the option string \<open>c: dhrsv\<close> and the long option \<open>daemon\<close>.\<close>

datatype mm_opt = OptConfig string | OptDaemon | OptHelp | OptRestart | OptStatus | OptVerbose | OptInvalid

text \<open>The loop over the options: \<open>None\<close> when an invalid option ends the program.\<close>

fun mm_options :: "mm_opt list \<Rightarrow> string \<times> bool \<Rightarrow> (string \<times> bool) option" where
  "mm_options [] st = Some st"
| "mm_options (OptConfig f # os) st = mm_options os (f, snd st)"
| "mm_options (OptDaemon # os) st = mm_options os (fst st, True)"
| "mm_options (OptInvalid # os) st = None"
| "mm_options (_ # os) st = mm_options os st"

definition default_config :: XCFG where
  "default_config = \<lparr>bRun = 1, szDevice = ''/dev/ttyS1'', nBaudrate = 115200, nTimeout = 1000 * 1000,
     nLiveCheckInterval = 10, nBootWaitTime = 10\<rparr>"

text \<open>
  \<open>main\<close> of \<open>mmon\<close>: the configuration the forked child enters \<open>MMON_Main\<close> with, if one is forked.
  \<open>fork_ok\<close> tells whether \<open>fork\<close> succeeds.
\<close>

definition mmon_main :: "bool \<Rightarrow> mm_opt list \<Rightarrow> files \<Rightarrow> XCFG option res" where
  "mmon_main fork_ok opts fs = (case mm_options opts (''/etc/mmon.conf'', False) of
      None \<Rightarrow> Inr None
    | Some (lpszConfig, bDaemonFlag) \<Rightarrow> bindE (XCFG_Load lpszConfig fs) (\<lambda>r.
        let xCfg = (case r of None \<Rightarrow> default_config | Some c \<Rightarrow> c) in
        Inr (if bDaemonFlag \<and> fork_ok then Some xCfg else None)))"

section \<open>Bounds\<close>

definition cfg_ok :: "XCFG \<Rightarrow> bool" where
  "cfg_ok c \<longleftrightarrow> 1 \<le> nBootWaitTime c \<and> nBootWaitTime c \<le> 60 \<and>
     0 < nLiveCheckInterval c \<and> nLiveCheckInterval c \<le> 2147483647 \<and> length (szDevice c) \<le> 1023"

lemma cfg_ok_default: "cfg_ok XCFG_SetDefault" "cfg_ok default_config"
  by (simp_all add: cfg_ok_def XCFG_SetDefault_def default_config_def cfg_consts)

lemma atoi_le: "atoi s \<le> 2147483647"
  by (simp add: atoi_def Let_def clamp32_def split: list.split)

lemma cfg_ok_field: "cfg_ok c \<Longrightarrow> cfg_ok (cfg_field f v c)"
  using atoi_le [of v] by (auto simp: cfg_field_def cfg_ok_def Let_def cfg_consts)

lemma cfg_ok_line:
  assumes "cfg_line l c = Inr c'" "cfg_ok c"
  shows "cfg_ok c'"
proof -
  from assms(1) obtain r where r: "sscanf_ss 64 1024 (cstr l) = Inr r"
    by (auto simp: cfg_line_def bindE_eq_Inr_iff)
  show ?thesis
    using assms r by (cases r) (auto simp: cfg_line_def cfg_ok_field split: if_splits)
qed

lemma cfg_ok_lines: "cfg_lines ls c = Inr c' \<Longrightarrow> cfg_ok c \<Longrightarrow> cfg_ok c'"
  by (induction ls arbitrary: c) (auto simp: bindE_eq_Inr_iff dest: cfg_ok_line)

text \<open>No line of the file starts with a word of 64 characters or more.\<close>

definition words_fit :: "string \<Rightarrow> bool" where
  "words_fit content \<longleftrightarrow>
     list_all (\<lambda>l. case scan_tok (cstr l) of None \<Rightarrow> True | Some (t, _) \<Rightarrow> length t < 64) (fgets_all 1024 content)"

lemma cfg_line_total:
  assumes "length l < 1024" "case scan_tok (cstr l) of None \<Rightarrow> True | Some (t, _) \<Rightarrow> length t < 64"
  shows "\<exists>c'. cfg_line l c = Inr c'"
proof (cases "scan_tok (cstr l)")
  case None
  then show ?thesis by (simp add: cfg_line_def sscanf_ss_def scanf_s_def)
next
  case (Some x)
  obtain t r where x: "x = (t, r)" by fastforce
  with Some assms(2) have t: "length t < 64" by simp
  have len: "length r < 1024"
    using scan_tok_SomeD [of "cstr l" t r] Some x length_cstr_le [of l] assms(1) by simp
  show ?thesis
  proof (cases "scan_tok r")
    case None
    with Some x t show ?thesis by (simp add: cfg_line_def sscanf_ss_def scanf_s_def)
  next
    case (Some y)
    obtain u v where y: "y = (u, v)" by fastforce
    have "length u < 1024" using scan_tok_SomeD [of r u v] Some y len by simp
    with Some y \<open>scan_tok (cstr l) = Some x\<close> x t show ?thesis
      by (simp add: cfg_line_def sscanf_ss_def scanf_s_def)
  qed
qed

lemma cfg_lines_total:
  "list_all (\<lambda>l. length l < 1024 \<and> (case scan_tok (cstr l) of None \<Rightarrow> True | Some (t, _) \<Rightarrow> length t < 64)) ls \<Longrightarrow>
   \<exists>c'. cfg_lines ls c = Inr c'"
proof (induction ls arbitrary: c)
  case (Cons l ls)
  then obtain d where "cfg_line l c = Inr d" using cfg_line_total [of l c] by auto
  with Cons show ?case by auto
qed simp

text \<open>
  C34. Configuration bounds. Whatever the configuration file holds, as long as no line starts with a
  word of 64 or more characters, \<open>main\<close> starts the monitor, and with a boot wait between 1 and 60
  seconds, a positive live check interval and a device name that fits its array.
\<close>

theorem mmon_config_bounds:
  assumes "mm_options opts (''/etc/mmon.conf'', False) = Some (conf, True)"
    and "case fs conf of None \<Rightarrow> True | Some content \<Rightarrow> words_fit content"
  shows "\<exists>c. mmon_main True opts fs = Inr (Some c) \<and> cfg_ok c"
proof (cases "fs conf")
  case None
  with assms(1) show ?thesis by (simp add: mmon_main_def XCFG_Load_def cfg_ok_default)
next
  case (Some content)
  have "list_all (\<lambda>l. length l < 1024 \<and> (case scan_tok (cstr l) of None \<Rightarrow> True | Some (t, _) \<Rightarrow> length t < 64))
      (fgets_all 1024 content)"
    using assms(2) Some fgets_all_length [of _ 1024 content] by (simp add: words_fit_def list_all_iff)
  then obtain c where c: "cfg_lines (fgets_all 1024 content) XCFG_SetDefault = Inr c"
    using cfg_lines_total by blast
  with cfg_ok_lines [OF c cfg_ok_default(1)] Some assms(1) show ?thesis
    by (simp add: mmon_main_def XCFG_Load_def)
qed

lemma demo_conf_fits: "words_fit (''boot_wait: 99'' @ nl # ''live_check: 7'' @ [nl])"
  using fgets_all_line [of "''boot_wait: 99''" 1024 "''live_check: 7'' @ [nl]"]
    fgets_all_line [of "''live_check: 7''" 1024 "[]"]
  by (simp add: words_fit_def scan_tok_def isspace_def cstr_def)

theorem mmon_config_bounds_witness:
  "\<exists>c. mmon_main True [OptDaemon] [''/etc/mmon.conf'' \<mapsto> ''boot_wait: 99'' @ nl # ''live_check: 7'' @ [nl]] =
    Inr (Some c) \<and> cfg_ok c"
  by (rule mmon_config_bounds [where conf = "''/etc/mmon.conf''"]) (use demo_conf_fits in simp_all)

end
