(* ===== verification/Mmon.thy ===== *)
theory Mmon
  imports Xconfig
begin

text \<open>
  The modem monitor daemon (\<open>apps/mmon\<close>): the service controls of \<open>modem.c\<close> and \<open>xppp.c\<close>, the
  shared status block, and the state machine of \<open>MMON_Main\<close> in \<open>mmon.c\<close>, which starts the modem
  and the PPP link and restarts them when the link goes down. \<open>/usr/bin/service\<close> is the \<open>shell\<close>
  parameter; it may answer differently at every second. How long commands and sleeps last is the parameter
  \<open>timing\<close>: a command takes its time, and a signal ends a sleep early.
\<close>

section \<open>Service controls\<close>

datatype XP3_STATE = XP3_STATE_STOPPED | XP3_STATE_RUNNING

text \<open>
  Time: a command started at \<open>t\<close> is read to its end and closed \<open>takes tm cmd t\<close> seconds later. A \<open>sleep(n)\<close> at \<open>t\<close> lasts
  at most \<open>n\<close> seconds and only \<open>asleep tm t n\<close> seconds when the handler of \<open>SIGUSR1\<close> runs before they are over.
\<close>

record timing =
  asleep :: "nat \<Rightarrow> nat \<Rightarrow> nat"
  takes :: "string \<Rightarrow> nat \<Rightarrow> nat"

definition wakes :: "timing \<Rightarrow> nat \<Rightarrow> nat \<Rightarrow> nat" where
  "wakes tm n t = t + min n (asleep tm t n)"

definition ends :: "timing \<Rightarrow> string \<Rightarrow> nat \<Rightarrow> nat" where
  "ends tm cmd t = t + takes tm cmd t"

definition nap :: "timing \<Rightarrow> nat \<Rightarrow> 'a os_scheme \<Rightarrow> 'a os_scheme" where
  "nap tm n w = w\<lparr>clock := wakes tm n (clock w)\<rparr>"

definition ask :: "timing \<Rightarrow> shell \<Rightarrow> string \<Rightarrow> 'a os_scheme \<Rightarrow> string option \<times> 'a os_scheme" where
  "ask tm sh cmd w = (case popen sh cmd w of (r, w1) \<Rightarrow> (r, w1\<lparr>clock := ends tm cmd (clock w)\<rparr>))"

text \<open>\<open>popen\<close> and, if it succeeded, \<open>pclose\<close>: the answer is not read.\<close>

definition run_service :: "timing \<Rightarrow> shell \<Rightarrow> string \<Rightarrow> 'a os_scheme \<Rightarrow> 'a os_scheme" where
  "run_service tm sh cmd w = snd (ask tm sh cmd w)"

definition XP3_Status :: "timing \<Rightarrow> shell \<Rightarrow> 'a os_scheme \<Rightarrow> (XP3_STATE \<times> 'a os_scheme) res" where
  "XP3_Status tm sh w = (case ask tm sh ''/usr/bin/service pppd status'' w of
      (None, w1) \<Rightarrow> Inr (XP3_STATE_STOPPED, w1)
    | (Some ans, w1) \<Rightarrow> bindE (fscanf_word 64 ans) (\<lambda>szStatus.
        Inr (if szStatus = ''running'' then XP3_STATE_RUNNING else XP3_STATE_STOPPED, w1)))"

definition XP3_Restart :: "timing \<Rightarrow> shell \<Rightarrow> 'a os_scheme \<Rightarrow> (XP3_STATE \<times> 'a os_scheme) res" where
  "XP3_Restart tm sh w = XP3_Status tm sh (run_service tm sh ''/usr/bin/service pppd restart'' w)"

definition XP3_Start :: "timing \<Rightarrow> shell \<Rightarrow> 'a os_scheme \<Rightarrow> (XP3_STATE \<times> 'a os_scheme) res" where
  "XP3_Start tm sh w = XP3_Status tm sh (run_service tm sh ''/usr/bin/service pppd start'' w)"

definition XP3_Stop :: "timing \<Rightarrow> shell \<Rightarrow> 'a os_scheme \<Rightarrow> (XP3_STATE \<times> 'a os_scheme) res" where
  "XP3_Stop tm sh w = XP3_Status tm sh (run_service tm sh ''/usr/bin/service pppd stop'' w)"

definition MDM_IsLive :: "timing \<Rightarrow> shell \<Rightarrow> 'a os_scheme \<Rightarrow> (bool \<times> 'a os_scheme) res" where
  "MDM_IsLive tm sh w = (case ask tm sh ''/usr/bin/service mdmctrl is_live'' w of
      (None, w1) \<Rightarrow> Inr (False, w1)
    | (Some ans, w1) \<Rightarrow> bindE (scanf_s 64 ans) (\<lambda>r. case r of
        None \<Rightarrow> Inr (False, w1)
      | Some (szAnswer, _) \<Rightarrow> Inr (szAnswer = ''yes'', w1)))"

definition MDM_Start :: "timing \<Rightarrow> shell \<Rightarrow> 'a os_scheme \<Rightarrow> 'a os_scheme" where
  "MDM_Start tm sh w = run_service tm sh ''/usr/bin/service mdmctrl start'' w"

definition MDM_Stop :: "timing \<Rightarrow> shell \<Rightarrow> 'a os_scheme \<Rightarrow> 'a os_scheme" where
  "MDM_Stop tm sh w = run_service tm sh ''/usr/bin/service mdmctrl stop'' w"

definition MDM_Restart :: "timing \<Rightarrow> shell \<Rightarrow> 'a os_scheme \<Rightarrow> 'a os_scheme" where
  "MDM_Restart tm sh w = run_service tm sh ''/usr/bin/service mdmctrl restart'' w"

section \<open>The state machine\<close>

datatype MM_STATE = MM_STATE_INIT | MM_STATE_RUNNING | MM_STATE_STOPPED | MM_STATE_RESET
  | MM_STATE_ABNORMAL | MM_STATE_FAILED | MM_STATE_UNKNOWN

text \<open>
  The loop \<open>for (i = n; i > 0; i--) { if (MDM_IsLive()) break; sleep(1); }\<close>; the first component
  is \<open>i\<close> after it.
\<close>

function boot_wait :: "timing \<Rightarrow> shell \<Rightarrow> int \<Rightarrow> os \<Rightarrow> (int \<times> os) res" where
  "boot_wait tm sh i w = (if i \<le> 0 then Inr (i, w)
     else bindE (MDM_IsLive tm sh w) (\<lambda>(live, w1). if live then Inr (i, w1) else boot_wait tm sh (i - 1) (nap tm 1 w1)))"
  by pat_completeness auto
termination
  by (relation "measure (\<lambda>(tm, sh, i, w). nat i)") auto

declare boot_wait.simps [simp del]

text \<open>The part the three starting states share: wait for the modem, then start the link.\<close>

definition bring_up :: "timing \<Rightarrow> shell \<Rightarrow> XCFG \<Rightarrow> MM_STATE \<Rightarrow> os \<Rightarrow> (MM_STATE \<times> os) res" where
  "bring_up tm sh pxCfg otherwise w = bindE (boot_wait tm sh (nBootWaitTime pxCfg) w) (\<lambda>(i, w1).
     if i \<noteq> 0 then bindE (XP3_Start tm sh w1) (\<lambda>(st, w2).
       Inr (if st = XP3_STATE_RUNNING then MM_STATE_RUNNING else otherwise, w2))
     else Inr (otherwise, w1))"

definition mmon_switch :: "timing \<Rightarrow> shell \<Rightarrow> XCFG \<Rightarrow> MM_STATE \<times> os \<Rightarrow> (MM_STATE \<times> os) res" where
  "mmon_switch tm sh pxCfg c = (case c of (xState, w) \<Rightarrow>
     (case xState of
        MM_STATE_INIT \<Rightarrow> bring_up tm sh pxCfg MM_STATE_ABNORMAL (MDM_Start tm sh w)
      | MM_STATE_ABNORMAL \<Rightarrow> bring_up tm sh pxCfg MM_STATE_FAILED (MDM_Restart tm sh w)
      | MM_STATE_RUNNING \<Rightarrow> bindE (XP3_Status tm sh (nap tm (nat (nLiveCheckInterval pxCfg)) w)) (\<lambda>(st, w1).
          Inr (if st \<noteq> XP3_STATE_RUNNING then MM_STATE_RESET else MM_STATE_RUNNING, w1))
      | MM_STATE_STOPPED \<Rightarrow> bindE (XP3_Status tm sh (nap tm (nat (nLiveCheckInterval pxCfg)) w)) (\<lambda>(st, w1).
          Inr (if st = XP3_STATE_RUNNING then MM_STATE_RUNNING else MM_STATE_STOPPED, w1))
      | MM_STATE_RESET \<Rightarrow> bring_up tm sh pxCfg MM_STATE_ABNORMAL (MDM_Restart tm sh w)
      | _ \<Rightarrow> Inr (xState, w)))"

text \<open>One turn of the loop of \<open>MMON_Main\<close>: the switch and the sleep of five seconds after it.\<close>

definition mmon_turn :: "timing \<Rightarrow> shell \<Rightarrow> XCFG \<Rightarrow> MM_STATE \<times> os \<Rightarrow> (MM_STATE \<times> os) res" where
  "mmon_turn tm sh pxCfg c = bindE (mmon_switch tm sh pxCfg c) (\<lambda>(xState, w). Inr (xState, nap tm 5 w))"

text \<open>\<open>n\<close> turns of the daemon after \<open>MM_Init\<close>.\<close>

definition MMON_Main :: "timing \<Rightarrow> shell \<Rightarrow> XCFG \<Rightarrow> nat \<Rightarrow> os \<Rightarrow> (MM_STATE \<times> os) res" where
  "MMON_Main tm sh pxCfg n w = turns n (mmon_turn tm sh pxCfg) (MM_STATE_INIT, w)"

section \<open>The status block and commands to the daemon\<close>

record MM_INFO =
  xPID :: int
  xState :: MM_STATE
  xCmd :: int

definition MM_CMD_STOP :: int where "MM_CMD_STOP = 1"
definition MM_CMD_RUN :: int where "MM_CMD_RUN = 2"
definition MM_CMD_VERBOSE :: int where "MM_CMD_VERBOSE = 3"

text \<open>
  \<open>MM_Init\<close> opens or creates the block; \<open>None\<close> is the \<open>exit\<close> when neither works. A created block is
  zeroed.
\<close>

definition MM_Init :: "bool \<Rightarrow> int \<Rightarrow> MM_INFO option \<Rightarrow> MM_INFO option" where
  "MM_Init can_create pid shm = (case shm of
      Some b \<Rightarrow> Some (b\<lparr>xPID := pid\<rparr>)
    | None \<Rightarrow> if can_create then Some \<lparr>xPID = pid, xState = MM_STATE_INIT, xCmd = 0\<rparr> else None)"

definition MM_GetDaemonID :: "MM_INFO option \<Rightarrow> int" where
  "MM_GetDaemonID shm = (case shm of None \<Rightarrow> 0 | Some b \<Rightarrow> xPID b)"

text \<open>The second component lists the processes that get \<open>SIGUSR1\<close>.\<close>

definition MM_SendCmd :: "int \<Rightarrow> MM_INFO option \<Rightarrow> MM_INFO option \<times> int list" where
  "MM_SendCmd cmd shm = (case shm of
      None \<Rightarrow> (None, [])
    | Some b \<Rightarrow> if xPID b \<noteq> 0 then (Some (b\<lparr>xCmd := cmd\<rparr>), [xPID b]) else (Some b, []))"

text \<open>The signal handler: whether tracing is on afterwards.\<close>

definition MM_Event :: "MM_INFO \<Rightarrow> bool \<Rightarrow> bool" where
  "MM_Event b trace = (if xCmd b = MM_CMD_VERBOSE then True else trace)"

section \<open>The machine\<close>

text \<open>
  What the daemon promises, as a machine over the state and the time. \<open>live t\<close> and \<open>link t\<close> tell whether the modem is
  there and whether the link is up at a time. After a start or restart of the modem at \<open>t\<close> the checks are made at
  \<open>check_time tm t 0\<close>, \<open>check_time tm t 1\<close> and so on, a second apart and as often as the configuration allows. The link is
  started after the first check that finds the modem, and the attempt succeeds if the link is up then.
\<close>

fun check_time :: "timing \<Rightarrow> nat \<Rightarrow> nat \<Rightarrow> nat" where
  "check_time tm t 0 = t"
| "check_time tm t (Suc k) = check_time tm (wakes tm 1 (ends tm ''/usr/bin/service mdmctrl is_live'' t)) k"

inductive attempt :: "timing \<Rightarrow> XCFG \<Rightarrow> (nat \<Rightarrow> bool) \<Rightarrow> (nat \<Rightarrow> bool) \<Rightarrow> nat \<Rightarrow> bool \<Rightarrow> nat \<Rightarrow> bool"
  for tm cfg live link where
  found: "k < nat (nBootWaitTime cfg) \<Longrightarrow> live (check_time tm t k) \<Longrightarrow> \<forall>j < k. \<not> live (check_time tm t j) \<Longrightarrow>
     u = ends tm ''/usr/bin/service pppd start'' (ends tm ''/usr/bin/service mdmctrl is_live'' (check_time tm t k)) \<Longrightarrow>
     up = link u \<Longrightarrow> v = ends tm ''/usr/bin/service pppd status'' u \<Longrightarrow> attempt tm cfg live link t up v"
| missing: "\<forall>j < nat (nBootWaitTime cfg). \<not> live (check_time tm t j) \<Longrightarrow>
     v = check_time tm t (nat (nBootWaitTime cfg)) \<Longrightarrow> attempt tm cfg live link t False v"

inductive mm_step :: "timing \<Rightarrow> XCFG \<Rightarrow> (nat \<Rightarrow> bool) \<Rightarrow> (nat \<Rightarrow> bool) \<Rightarrow> MM_STATE \<times> nat \<Rightarrow> MM_STATE \<times> nat \<Rightarrow> bool"
  for tm cfg live link where
  init_up: "attempt tm cfg live link (ends tm ''/usr/bin/service mdmctrl start'' t) True u \<Longrightarrow>
     mm_step tm cfg live link (MM_STATE_INIT, t) (MM_STATE_RUNNING, wakes tm 5 u)"
| init_down: "attempt tm cfg live link (ends tm ''/usr/bin/service mdmctrl start'' t) False u \<Longrightarrow>
     mm_step tm cfg live link (MM_STATE_INIT, t) (MM_STATE_ABNORMAL, wakes tm 5 u)"
| reset_up: "attempt tm cfg live link (ends tm ''/usr/bin/service mdmctrl restart'' t) True u \<Longrightarrow>
     mm_step tm cfg live link (MM_STATE_RESET, t) (MM_STATE_RUNNING, wakes tm 5 u)"
| reset_down: "attempt tm cfg live link (ends tm ''/usr/bin/service mdmctrl restart'' t) False u \<Longrightarrow>
     mm_step tm cfg live link (MM_STATE_RESET, t) (MM_STATE_ABNORMAL, wakes tm 5 u)"
| retry_up: "attempt tm cfg live link (ends tm ''/usr/bin/service mdmctrl restart'' t) True u \<Longrightarrow>
     mm_step tm cfg live link (MM_STATE_ABNORMAL, t) (MM_STATE_RUNNING, wakes tm 5 u)"
| retry_down: "attempt tm cfg live link (ends tm ''/usr/bin/service mdmctrl restart'' t) False u \<Longrightarrow>
     mm_step tm cfg live link (MM_STATE_ABNORMAL, t) (MM_STATE_FAILED, wakes tm 5 u)"
| check_up: "u = wakes tm (nat (nLiveCheckInterval cfg)) t \<Longrightarrow> link u \<Longrightarrow>
     mm_step tm cfg live link (MM_STATE_RUNNING, t) (MM_STATE_RUNNING, wakes tm 5 (ends tm ''/usr/bin/service pppd status'' u))"
| check_down: "u = wakes tm (nat (nLiveCheckInterval cfg)) t \<Longrightarrow> \<not> link u \<Longrightarrow>
     mm_step tm cfg live link (MM_STATE_RUNNING, t) (MM_STATE_RESET, wakes tm 5 (ends tm ''/usr/bin/service pppd status'' u))"
| stopped_up: "u = wakes tm (nat (nLiveCheckInterval cfg)) t \<Longrightarrow> link u \<Longrightarrow>
     mm_step tm cfg live link (MM_STATE_STOPPED, t) (MM_STATE_RUNNING, wakes tm 5 (ends tm ''/usr/bin/service pppd status'' u))"
| stopped_down: "u = wakes tm (nat (nLiveCheckInterval cfg)) t \<Longrightarrow> \<not> link u \<Longrightarrow>
     mm_step tm cfg live link (MM_STATE_STOPPED, t) (MM_STATE_STOPPED, wakes tm 5 (ends tm ''/usr/bin/service pppd status'' u))"
| failed: "mm_step tm cfg live link (MM_STATE_FAILED, t) (MM_STATE_FAILED, wakes tm 5 t)"
| unknown: "mm_step tm cfg live link (MM_STATE_UNKNOWN, t) (MM_STATE_UNKNOWN, wakes tm 5 t)"

inductive_simps mm_step_from:
  "mm_step tm cfg live link (MM_STATE_INIT, t) p" "mm_step tm cfg live link (MM_STATE_RUNNING, t) p"
  "mm_step tm cfg live link (MM_STATE_RESET, t) p" "mm_step tm cfg live link (MM_STATE_ABNORMAL, t) p"
  "mm_step tm cfg live link (MM_STATE_STOPPED, t) p" "mm_step tm cfg live link (MM_STATE_FAILED, t) p"
  "mm_step tm cfg live link (MM_STATE_UNKNOWN, t) p"

text \<open>The machine is deterministic: what the modem and the link do decides every step.\<close>

lemma attempt_det:
  assumes "attempt tm cfg live link t up v" "attempt tm cfg live link t up' v'"
  shows "up' = up \<and> v' = v"
proof -
  have same: "k = k'" if "P k" "\<forall>j < k. \<not> P j" "P k'" "\<forall>j < k'. \<not> P j" for k k' :: nat and P
    using that by (metis linorder_neqE_nat)
  from assms show ?thesis
    by (cases rule: attempt.cases [case_product attempt.cases])
      (auto dest: same [where P = "\<lambda>k. live (check_time tm t k)"])
qed

lemma mm_step_det: "mm_step tm cfg live link p q \<Longrightarrow> mm_step tm cfg live link p q' \<Longrightarrow> q' = q"
  by (induction rule: mm_step.induct) (auto simp: mm_step_from dest: attempt_det)

lemma mm_steps_det: "(mm_step tm cfg live link ^^ n) p q \<Longrightarrow> (mm_step tm cfg live link ^^ n) p q' \<Longrightarrow> q' = q"
proof (induction n arbitrary: q q')
  case (Suc n)
  from Suc.prems obtain r r' where r: "(mm_step tm cfg live link ^^ n) p r" "mm_step tm cfg live link r q"
    "(mm_step tm cfg live link ^^ n) p r'" "mm_step tm cfg live link r' q'" by (auto elim!: relpowp_Suc_E)
  with Suc.IH [OF r(1,3)] show ?case by (blast dest: mm_step_det)
qed simp

section \<open>The daemon runs the machine\<close>

lemma nap_simps [simp]:
  "clock (nap tm n w) = wakes tm n (clock w)" "cmds (nap tm n w) = cmds w" "files (nap tm n w) = files w"
  by (simp_all add: nap_def)

lemma ask_SomeI:
  "sh cmd (clock w) (files w) = Some (txt, fs) \<Longrightarrow>
   ask tm sh cmd w = (Some txt, w\<lparr>cmds := cmds w @ [cmd], files := fs, clock := ends tm cmd (clock w)\<rparr>)"
  by (simp add: ask_def popen_SomeI)

lemma run_service_simps [simp]:
  "clock (run_service tm sh cmd w) = ends tm cmd (clock w)" "cmds (run_service tm sh cmd w) = cmds w @ [cmd]"
  by (auto simp: run_service_def ask_def split: prod.split dest: popen_cmds)

text \<open>The services as the init scripts answer: \<open>yes\<close> or \<open>no\<close>, \<open>running\<close> or \<open>stopped\<close>, as it is at the time of the question.\<close>

definition reports :: "shell \<Rightarrow> (nat \<Rightarrow> bool) \<Rightarrow> (nat \<Rightarrow> bool) \<Rightarrow> bool" where
  "reports sh live link \<longleftrightarrow> (\<forall>t fs.
     (\<exists>fs'. sh ''/usr/bin/service mdmctrl is_live'' t fs = Some ((if live t then ''yes'' else ''no'') @ [nl], fs')) \<and>
     (\<exists>fs'. sh ''/usr/bin/service pppd status'' t fs = Some ((if link t then ''running'' else ''stopped'') @ [nl], fs')))"

lemma MDM_IsLive_reports:
  assumes "reports sh live link"
  shows "\<exists>w'. MDM_IsLive tm sh w = Inr (live (clock w), w') \<and> clock w' = ends tm ''/usr/bin/service mdmctrl is_live'' (clock w)"
proof -
  obtain fs' where "sh ''/usr/bin/service mdmctrl is_live'' (clock w) (files w) =
      Some ((if live (clock w) then ''yes'' else ''no'') @ [nl], fs')" using assms by (auto simp: reports_def)
  from ask_SomeI [where tm = tm and w = w and sh = sh, OF this] scanf_word_line [of "if live (clock w) then ''yes'' else ''no''" 64] show ?thesis
    by (simp add: MDM_IsLive_def isspace_def split: if_splits)
qed

lemma XP3_Status_reports:
  assumes "reports sh live link"
  shows "\<exists>w'. XP3_Status tm sh w = Inr (if link (clock w) then XP3_STATE_RUNNING else XP3_STATE_STOPPED, w') \<and>
    clock w' = ends tm ''/usr/bin/service pppd status'' (clock w)"
proof -
  obtain fs' where "sh ''/usr/bin/service pppd status'' (clock w) (files w) =
      Some ((if link (clock w) then ''running'' else ''stopped'') @ [nl], fs')" using assms by (auto simp: reports_def)
  from ask_SomeI [where tm = tm and w = w and sh = sh, OF this] scanf_word_line [of "if link (clock w) then ''running'' else ''stopped''" 64] show ?thesis
    by (simp add: XP3_Status_def fscanf_word_def isspace_def split: if_splits)
qed

lemma boot_wait_reports:
  assumes "reports sh live link"
  shows "\<exists>i w'. boot_wait tm sh (int n) w = Inr (i, w') \<and>
    ((\<exists>k < n. i = int n - int k \<and> live (check_time tm (clock w) k) \<and> (\<forall>j < k. \<not> live (check_time tm (clock w) j)) \<and>
       clock w' = ends tm ''/usr/bin/service mdmctrl is_live'' (check_time tm (clock w) k)) \<or>
     i = 0 \<and> (\<forall>j < n. \<not> live (check_time tm (clock w) j)) \<and> clock w' = check_time tm (clock w) n)"
proof (induction n arbitrary: w)
  case 0
  show ?case by (simp add: boot_wait.simps)
next
  case (Suc n)
  obtain w1 where w1: "MDM_IsLive tm sh w = Inr (live (clock w), w1)"
    "clock w1 = ends tm ''/usr/bin/service mdmctrl is_live'' (clock w)"
    using MDM_IsLive_reports [OF assms] by blast
  show ?case
  proof (cases "live (clock w)")
    case True
    with w1 show ?thesis by (intro exI) (auto simp: boot_wait.simps [of tm sh "1 + int n" w] intro!: exI [of _ 0])
  next
    case False
    let ?w = "nap tm 1 w1"
    have c: "check_time tm (clock w) (Suc j) = check_time tm (clock ?w) j" for j using w1(2) by simp
    have "boot_wait tm sh (int (Suc n)) w = boot_wait tm sh (int n) ?w"
      using w1(1) False by (simp add: boot_wait.simps [of tm sh "1 + int n" w])
    moreover obtain i w' where "boot_wait tm sh (int n) ?w = Inr (i, w')"
      and ih: "(\<exists>k < n. i = int n - int k \<and> live (check_time tm (clock ?w) k) \<and> (\<forall>j < k. \<not> live (check_time tm (clock ?w) j)) \<and>
         clock w' = ends tm ''/usr/bin/service mdmctrl is_live'' (check_time tm (clock ?w) k)) \<or>
       i = 0 \<and> (\<forall>j < n. \<not> live (check_time tm (clock ?w) j)) \<and> clock w' = check_time tm (clock ?w) n"
      using Suc.IH [of ?w] by blast
    ultimately have r: "boot_wait tm sh (int (Suc n)) w = Inr (i, w')" by simp
    have all: "(\<forall>j < Suc m. \<not> live (check_time tm (clock w) j)) \<longleftrightarrow> (\<forall>j < m. \<not> live (check_time tm (clock ?w) j))" for m
      using False by (simp add: All_less_Suc2 c del: check_time.simps(2) nap_simps)
    from ih show ?thesis
    proof
      assume "\<exists>k < n. i = int n - int k \<and> live (check_time tm (clock ?w) k) \<and> (\<forall>j < k. \<not> live (check_time tm (clock ?w) j)) \<and>
         clock w' = ends tm ''/usr/bin/service mdmctrl is_live'' (check_time tm (clock ?w) k)"
      then obtain k where k: "k < n" "i = int n - int k" "live (check_time tm (clock ?w) k)"
        "\<forall>j < k. \<not> live (check_time tm (clock ?w) j)"
        "clock w' = ends tm ''/usr/bin/service mdmctrl is_live'' (check_time tm (clock ?w) k)" by blast
      have "\<forall>j < Suc k. \<not> live (check_time tm (clock w) j)" using k(4) all by blast
      moreover have "live (check_time tm (clock w) (Suc k))"
        "clock w' = ends tm ''/usr/bin/service mdmctrl is_live'' (check_time tm (clock w) (Suc k))"
        using k(3,5) unfolding c .
      moreover have "Suc k < Suc n" "i = int (Suc n) - int (Suc k)" using k(1,2) by simp_all
      ultimately show ?thesis using r by blast
    next
      assume "i = 0 \<and> (\<forall>j < n. \<not> live (check_time tm (clock ?w) j)) \<and> clock w' = check_time tm (clock ?w) n"
      then have "i = 0" "\<forall>j < Suc n. \<not> live (check_time tm (clock w) j)" "clock w' = check_time tm (clock w) (Suc n)"
        unfolding all c by blast+
      with r show ?thesis by blast
    qed
  qed
qed

lemma bring_up_reports:
  assumes "reports sh live link" "cfg_ok cfg"
  shows "\<exists>up w'. bring_up tm sh cfg other w = Inr (if up then MM_STATE_RUNNING else other, w') \<and>
    attempt tm cfg live link (clock w) up (clock w')"
proof -
  have n: "nBootWaitTime cfg = int (nat (nBootWaitTime cfg))" using assms(2) by (simp add: cfg_ok_def)
  obtain i w1 where bw: "boot_wait tm sh (nBootWaitTime cfg) w = Inr (i, w1)"
    and alt: "(\<exists>k < nat (nBootWaitTime cfg). i = nBootWaitTime cfg - int k \<and> live (check_time tm (clock w) k) \<and>
         (\<forall>j < k. \<not> live (check_time tm (clock w) j)) \<and>
         clock w1 = ends tm ''/usr/bin/service mdmctrl is_live'' (check_time tm (clock w) k)) \<or>
       i = 0 \<and> (\<forall>j < nat (nBootWaitTime cfg). \<not> live (check_time tm (clock w) j)) \<and>
         clock w1 = check_time tm (clock w) (nat (nBootWaitTime cfg))"
    using boot_wait_reports [OF assms(1), of tm "nat (nBootWaitTime cfg)" w] n by metis
  from alt show ?thesis
  proof
    assume "\<exists>k < nat (nBootWaitTime cfg). i = nBootWaitTime cfg - int k \<and> live (check_time tm (clock w) k) \<and>
         (\<forall>j < k. \<not> live (check_time tm (clock w) j)) \<and>
         clock w1 = ends tm ''/usr/bin/service mdmctrl is_live'' (check_time tm (clock w) k)"
    then obtain k where k: "k < nat (nBootWaitTime cfg)" "i = nBootWaitTime cfg - int k" "live (check_time tm (clock w) k)"
      "\<forall>j < k. \<not> live (check_time tm (clock w) j)"
      "clock w1 = ends tm ''/usr/bin/service mdmctrl is_live'' (check_time tm (clock w) k)" by blast
    let ?w = "run_service tm sh ''/usr/bin/service pppd start'' w1"
    have i: "i \<noteq> 0" using k(1,2) by simp
    obtain w2 where w2: "XP3_Status tm sh ?w = Inr (if link (clock ?w) then XP3_STATE_RUNNING else XP3_STATE_STOPPED, w2)"
      "clock w2 = ends tm ''/usr/bin/service pppd status'' (clock ?w)"
      using XP3_Status_reports [OF assms(1)] by blast
    have "bring_up tm sh cfg other w = Inr (if link (clock ?w) then MM_STATE_RUNNING else other, w2)"
      using bw i w2(1) by (simp add: bring_up_def XP3_Start_def)
    moreover have "attempt tm cfg live link (clock w) (link (clock ?w)) (clock w2)"
      by (rule attempt.found [OF k(1,3,4) _ refl]) (simp_all add: w2(2) k(5))
    ultimately show ?thesis by blast
  next
    assume m: "i = 0 \<and> (\<forall>j < nat (nBootWaitTime cfg). \<not> live (check_time tm (clock w) j)) \<and>
         clock w1 = check_time tm (clock w) (nat (nBootWaitTime cfg))"
    have "bring_up tm sh cfg other w = Inr (if False then MM_STATE_RUNNING else other, w1)"
      using bw m by (simp add: bring_up_def)
    moreover have "attempt tm cfg live link (clock w) False (clock w1)" using m by (intro attempt.missing) simp_all
    ultimately show ?thesis by blast
  qed
qed

lemma turn_reports:
  assumes "reports sh live link" "cfg_ok cfg"
  shows "\<exists>s' w'. mmon_turn tm sh cfg (s, w) = Inr (s', w') \<and> mm_step tm cfg live link (s, clock w) (s', clock w')"
proof -
  have up: "\<exists>s' w'. bindE (bring_up tm sh cfg other (run_service tm sh cmd w)) (\<lambda>(xState, w). Inr (xState, nap tm 5 w)) = Inr (s', w') \<and>
      (\<exists>u up. s' = (if up then MM_STATE_RUNNING else other) \<and> attempt tm cfg live link (ends tm cmd (clock w)) up u \<and>
        clock w' = wakes tm 5 u)" for other cmd
    using bring_up_reports [OF assms, of tm other "run_service tm sh cmd w"] by fastforce
  let ?w = "nap tm (nat (nLiveCheckInterval cfg)) w"
  obtain w1 where "XP3_Status tm sh ?w = Inr (if link (clock ?w) then XP3_STATE_RUNNING else XP3_STATE_STOPPED, w1)"
    "clock w1 = ends tm ''/usr/bin/service pppd status'' (clock ?w)"
    using XP3_Status_reports [OF assms(1)] by blast
  then show ?thesis
  proof (cases s)
    case MM_STATE_INIT
    with up [of MM_STATE_ABNORMAL "''/usr/bin/service mdmctrl start''"] show ?thesis
      by (fastforce simp: mmon_turn_def mmon_switch_def MDM_Start_def mm_step_from split: if_splits)
  next
    case MM_STATE_RESET
    with up [of MM_STATE_ABNORMAL "''/usr/bin/service mdmctrl restart''"] show ?thesis
      by (fastforce simp: mmon_turn_def mmon_switch_def MDM_Restart_def mm_step_from split: if_splits)
  next
    case MM_STATE_ABNORMAL
    with up [of MM_STATE_FAILED "''/usr/bin/service mdmctrl restart''"] show ?thesis
      by (fastforce simp: mmon_turn_def mmon_switch_def MDM_Restart_def mm_step_from split: if_splits)
  qed (auto simp: mmon_turn_def mmon_switch_def mm_step_from)
qed

lemma turns_report:
  assumes "reports sh live link" "cfg_ok cfg"
  shows "\<exists>s' w'. turns n (mmon_turn tm sh cfg) (s, w) = Inr (s', w') \<and> (mm_step tm cfg live link ^^ n) (s, clock w) (s', clock w')"
proof (induction n arbitrary: s w)
  case (Suc n)
  obtain s1 w1 where "mmon_turn tm sh cfg (s, w) = Inr (s1, w1)" "mm_step tm cfg live link (s, clock w) (s1, clock w1)"
    using turn_reports [OF assms] by blast
  with Suc.IH [of s1 w1] show ?case by (fastforce intro: relpowp_Suc_I2 simp del: relpowp.simps)
qed simp

section \<open>Totality and time\<close>

text \<open>
  All that a turn needs from the services: if \<open>service pppd status\<close> can be started, it prints a word that fits
  the array, and a word that \<open>service mdmctrl is_live\<close> prints fits too.
\<close>

definition queries_fit :: "shell \<Rightarrow> bool" where
  "queries_fit sh \<longleftrightarrow> (\<forall>t fs.
     (\<forall>a fs'. sh ''/usr/bin/service pppd status'' t fs = Some (a, fs') \<longrightarrow> (\<exists>u r. scan_tok a = Some (u, r) \<and> length u < 64)) \<and>
     (\<forall>a fs' u r. sh ''/usr/bin/service mdmctrl is_live'' t fs = Some (a, fs') \<longrightarrow> scan_tok a = Some (u, r) \<longrightarrow> length u < 64))"

lemma ask_answer:
  obtains w' where "ask tm sh cmd w = (map_option fst (sh cmd (clock w) (files w)), w')" "clock w' = ends tm cmd (clock w)"
  by (cases "sh cmd (clock w) (files w)") (auto simp: ask_def popen_def Let_def)

lemma XP3_Status_total:
  assumes "queries_fit sh"
  shows "\<exists>st w'. XP3_Status tm sh w = Inr (st, w') \<and> clock w' = ends tm ''/usr/bin/service pppd status'' (clock w)"
proof -
  let ?c = "''/usr/bin/service pppd status''"
  obtain w' where a: "ask tm sh ?c w = (map_option fst (sh ?c (clock w) (files w)), w')" "clock w' = ends tm ?c (clock w)"
    by (rule ask_answer)
  show ?thesis
  proof (cases "sh ?c (clock w) (files w)")
    case None
    with a show ?thesis by (simp add: XP3_Status_def)
  next
    case (Some p)
    obtain x fs' where p: "p = (x, fs')" by (cases p)
    with Some assms obtain u r where "scan_tok x = Some (u, r)" "length u < 64" unfolding queries_fit_def by blast
    with a Some p show ?thesis by (simp add: XP3_Status_def fscanf_word_def scanf_s_def)
  qed
qed

lemma MDM_IsLive_total:
  assumes "queries_fit sh"
  shows "\<exists>b w'. MDM_IsLive tm sh w = Inr (b, w') \<and> clock w' = ends tm ''/usr/bin/service mdmctrl is_live'' (clock w)"
proof -
  let ?c = "''/usr/bin/service mdmctrl is_live''"
  obtain w' where a: "ask tm sh ?c w = (map_option fst (sh ?c (clock w) (files w)), w')" "clock w' = ends tm ?c (clock w)"
    by (rule ask_answer)
  show ?thesis
  proof (cases "sh ?c (clock w) (files w)")
    case None
    with a show ?thesis by (auto simp: MDM_IsLive_def)
  next
    case (Some p)
    obtain x fs' where p: "p = (x, fs')" by (cases p)
    have "length u < 64" if "scan_tok x = Some (u, r)" for u r using that Some p assms unfolding queries_fit_def by blast
    with a Some p show ?thesis by (cases "scan_tok x") (auto simp: MDM_IsLive_def scanf_s_def)
  qed
qed

lemma wakes_le: "t \<le> wakes tm n t" "wakes tm n t \<le> t + n"
  by (simp_all add: wakes_def)

lemma ends_le: "t \<le> ends tm cmd t" "\<forall>c t. takes tm c t \<le> b \<Longrightarrow> ends tm cmd t \<le> b + t"
  by (simp_all add: ends_def)

text \<open>The wait ends after at most \<open>n\<close> checks and \<open>n\<close> seconds of sleep.\<close>

lemma boot_wait_total:
  assumes "queries_fit sh" "\<forall>c t. takes tm c t \<le> b"
  shows "\<exists>i w'. boot_wait tm sh (int n) w = Inr (i, w') \<and> clock w \<le> clock w' \<and> clock w' \<le> clock w + n * (b + 1)"
proof (induction n arbitrary: w)
  case 0
  show ?case by (simp add: boot_wait.simps)
next
  case (Suc n)
  obtain l w1 where w1: "MDM_IsLive tm sh w = Inr (l, w1)" "clock w1 = ends tm ''/usr/bin/service mdmctrl is_live'' (clock w)"
    using MDM_IsLive_total [OF assms(1)] by blast
  have t1: "clock w \<le> clock w1" "clock w1 \<le> clock w + b" using ends_le(2) [OF assms(2)] unfolding w1(2) by (simp_all add: ends_le(1) add.commute [of "clock w" b])
  show ?case
  proof (cases l)
    case True
    with w1(1) t1 show ?thesis by (simp add: boot_wait.simps [of tm sh "1 + int n" w])
  next
    case False
    obtain i w' where "boot_wait tm sh (int n) (nap tm 1 w1) = Inr (i, w')" "clock (nap tm 1 w1) \<le> clock w'"
      "clock w' \<le> clock (nap tm 1 w1) + n * (b + 1)" using Suc.IH by blast
    moreover have "clock w1 \<le> clock (nap tm 1 w1)" "clock (nap tm 1 w1) \<le> clock w1 + 1" using wakes_le [where t = "clock w1" and n = 1 and tm = tm] by simp_all
    ultimately show ?thesis using w1(1) t1 False by (auto simp: boot_wait.simps [of tm sh "1 + int n" w])
  qed
qed

lemma bring_up_total:
  assumes "queries_fit sh" "\<forall>c t. takes tm c t \<le> b" "cfg_ok cfg"
  shows "\<exists>s w'. bring_up tm sh cfg other w = Inr (s, w') \<and> clock w \<le> clock w' \<and>
    clock w' \<le> clock w + nat (nBootWaitTime cfg) + (nat (nBootWaitTime cfg) + 2) * b"
proof -
  let ?n = "nat (nBootWaitTime cfg)"
  have n: "int ?n = nBootWaitTime cfg" using assms(3) by (simp add: cfg_ok_def)
  obtain i w1 where bw: "boot_wait tm sh (nBootWaitTime cfg) w = Inr (i, w1)" "clock w \<le> clock w1"
    "clock w1 \<le> clock w + ?n * (b + 1)"
    using boot_wait_total [OF assms(1,2), of ?n w] unfolding n by blast
  let ?w = "run_service tm sh ''/usr/bin/service pppd start'' w1"
  obtain st w2 where w2: "XP3_Status tm sh ?w = Inr (st, w2)" "clock w2 = ends tm ''/usr/bin/service pppd status'' (clock ?w)"
    using XP3_Status_total [OF assms(1)] by blast
  have "clock w1 \<le> clock w2" "clock w2 \<le> clock w1 + 2 * b"
    using ends_le(1) [of "clock w1" tm "''/usr/bin/service pppd start''"] ends_le(2) [OF assms(2), of "''/usr/bin/service pppd start''" "clock w1"]
      ends_le(1) [of "clock ?w" tm "''/usr/bin/service pppd status''"] ends_le(2) [OF assms(2), of "''/usr/bin/service pppd status''" "clock ?w"]
    unfolding w2(2) run_service_simps by linarith+
  with bw w2(1) show ?thesis by (cases "i = 0") (auto simp: bring_up_def XP3_Start_def algebra_simps)
qed

lemma turn_total:
  assumes "queries_fit sh" "\<forall>c t. takes tm c t \<le> b" "cfg_ok cfg"
  shows "\<exists>s' w' v. mmon_turn tm sh cfg (s, w) = Inr (s', w') \<and> clock w' = wakes tm 5 v \<and> clock w \<le> v \<and>
    v \<le> clock w + max (nat (nBootWaitTime cfg)) (nat (nLiveCheckInterval cfg)) + (nat (nBootWaitTime cfg) + 3) * b"
proof -
  let ?n = "nat (nBootWaitTime cfg)" and ?l = "nat (nLiveCheckInterval cfg)"
  have up: "\<exists>s' w'. bring_up tm sh cfg other (run_service tm sh cmd w) = Inr (s', w') \<and> clock w \<le> clock w' \<and>
      clock w' \<le> clock w + max ?n ?l + (?n + 3) * b" for other cmd
  proof -
    obtain s' w' where u: "bring_up tm sh cfg other (run_service tm sh cmd w) = Inr (s', w')"
      "ends tm cmd (clock w) \<le> clock w'" "clock w' \<le> ends tm cmd (clock w) + ?n + (?n + 2) * b"
      using bring_up_total [OF assms, of other "run_service tm sh cmd w"] by auto
    moreover have "clock w \<le> clock w'" using ends_le(1) [of "clock w" tm cmd] u(2) by linarith
    moreover have "clock w' \<le> clock w + max ?n ?l + (?n + 3) * b"
      using ends_le(2) [OF assms(2), of cmd "clock w"] u(3) by (simp add: algebra_simps max_def)
    ultimately show ?thesis by blast
  qed
  let ?w = "nap tm ?l w"
  obtain st w1 where st: "XP3_Status tm sh ?w = Inr (st, w1)" "clock w1 = ends tm ''/usr/bin/service pppd status'' (clock ?w)"
    using XP3_Status_total [OF assms(1)] by blast
  have t: "clock w \<le> clock w1 \<and> clock w1 \<le> clock w + max ?n ?l + (?n + 3) * b"
    using ends_le(1) [of "clock ?w" tm "''/usr/bin/service pppd status''"] ends_le(2) [OF assms(2), of "''/usr/bin/service pppd status''" "clock ?w"]
      wakes_le [where t = "clock w" and n = ?l and tm = tm]
    unfolding st(2) nap_simps by (simp add: algebra_simps max_def)
  have "\<exists>s' w'. mmon_switch tm sh cfg (s, w) = Inr (s', w') \<and> clock w \<le> clock w' \<and>
      clock w' \<le> clock w + max ?n ?l + (?n + 3) * b"
    using up st(1) t by (cases s) (simp_all add: mmon_switch_def MDM_Start_def MDM_Restart_def)
  then show ?thesis by (auto simp: mmon_turn_def)
qed

section \<open>Reachable states\<close>

text \<open>The edges of the machine, whatever modem and link do.\<close>

inductive mm_edge :: "MM_STATE \<Rightarrow> MM_STATE \<Rightarrow> bool" where
  "mm_edge MM_STATE_INIT MM_STATE_RUNNING" | "mm_edge MM_STATE_INIT MM_STATE_ABNORMAL"
| "mm_edge MM_STATE_RUNNING MM_STATE_RUNNING" | "mm_edge MM_STATE_RUNNING MM_STATE_RESET"
| "mm_edge MM_STATE_RESET MM_STATE_RUNNING" | "mm_edge MM_STATE_RESET MM_STATE_ABNORMAL"
| "mm_edge MM_STATE_ABNORMAL MM_STATE_RUNNING" | "mm_edge MM_STATE_ABNORMAL MM_STATE_FAILED"
| "mm_edge MM_STATE_STOPPED MM_STATE_RUNNING" | "mm_edge MM_STATE_STOPPED MM_STATE_STOPPED"
| "mm_edge MM_STATE_FAILED MM_STATE_FAILED" | "mm_edge MM_STATE_UNKNOWN MM_STATE_UNKNOWN"

code_pred mm_edge .

inductive_cases mm_edgeE: "mm_edge s t"

lemma bring_up_state:
  "bring_up tm sh c other w = Inr (s, w') \<Longrightarrow> s = MM_STATE_RUNNING \<or> s = other"
  by (auto simp: bring_up_def bindE_eq_Inr_iff split: prod.splits if_splits)

lemma switch_edge: "mmon_switch tm sh cfg (s, w) = Inr (s', w') \<Longrightarrow> mm_edge s s'"
  by (cases s) (auto simp: mmon_switch_def bindE_eq_Inr_iff intro: mm_edge.intros split: if_splits prod.splits
      dest!: bring_up_state)

interpretation mmon: simulation "mmon_turn tm sh cfg" fst mm_edge for tm sh cfg
  by unfold_locales (auto simp: mmon_turn_def bindE_eq_Inr_iff split: prod.splits dest: switch_edge)

lemma mm_reachable:
  "(mm_edge ^^ n) MM_STATE_INIT s \<Longrightarrow> s \<notin> {MM_STATE_STOPPED, MM_STATE_UNKNOWN}"
  by (induction n arbitrary: s) (auto elim!: mm_edgeE)

lemma mm_give_up:
  assumes "(mm_edge ^^ n) MM_STATE_RUNNING MM_STATE_FAILED"
  shows "3 \<le> n"
proof (rule ccontr)
  assume "\<not> 3 \<le> n"
  then consider "n = 0" | "n = 1" | "n = 2" by linarith
  then show False
    by cases (use assms in \<open>auto simp: numeral_2_eq_2 elim!: mm_edgeE\<close>)
qed

section \<open>Properties of the modem monitor\<close>

text \<open>
  C7. Refinement. The daemon runs the machine \<open>mm_step\<close>: when the services answer as modem and link are
  at the time of the question, \<open>n\<close> turns of the loop end, and state and time after them are the one outcome of \<open>n\<close>
  steps of the machine, however long commands take and whenever signals end a sleep. So the link is started only
  after a check that found the modem, \<open>RUNNING\<close> is entered exactly when the link is up then, and a lost link leads
  to a reset.
\<close>

theorem mmon_follows_machine:
  assumes "reports sh live link" "cfg_ok cfg"
  shows "\<exists>s w'. MMON_Main tm sh cfg n w = Inr (s, w') \<and>
    (\<forall>p. (mm_step tm cfg live link ^^ n) (MM_STATE_INIT, clock w) p \<longleftrightarrow> p = (s, clock w'))"
  using turns_report [OF assms, of n tm MM_STATE_INIT w] mm_steps_det [of n tm cfg live link "(MM_STATE_INIT, clock w)"]
  unfolding MMON_Main_def by metis

definition plant_shell :: "(nat \<Rightarrow> bool) \<Rightarrow> (nat \<Rightarrow> bool) \<Rightarrow> shell" where
  "plant_shell live link cmd t fs =
     (if cmd = ''/usr/bin/service mdmctrl is_live'' then Some ((if live t then ''yes'' else ''no'') @ [nl], fs)
      else if cmd = ''/usr/bin/service pppd status'' then Some ((if link t then ''running'' else ''stopped'') @ [nl], fs)
      else Some ([], fs))"

lemma plant_shell_reports: "reports (plant_shell live link) live link"
  by (simp add: reports_def plant_shell_def)

definition no_delays :: timing where
  "no_delays = \<lparr>asleep = \<lambda>t n. n, takes = \<lambda>cmd t. 0\<rparr>"

definition os0 :: os where
  "os0 = \<lparr>files = Map.empty, wperm = \<lambda>_. True, cmds = [], out = [], clock = 0\<rparr>"

text \<open>The modem is found by the check after two seconds, and the link is lost before the first check of it.\<close>

theorem mmon_follows_machine_witness:
  "\<exists>w'. MMON_Main no_delays (plant_shell (\<lambda>t. 2 \<le> t) (\<lambda>t. t < 10)) default_config 2 os0 = Inr (MM_STATE_RESET, w')"
proof -
  let ?step = "mm_step no_delays default_config (\<lambda>t. 2 \<le> t) (\<lambda>t. t < 10)"
  have "attempt no_delays default_config (\<lambda>t. 2 \<le> t) (\<lambda>t. t < 10) 0 True 2"
    by (rule attempt.found [of 2])
      (auto simp: default_config_def ends_def wakes_def no_delays_def numeral_2_eq_2 less_Suc_eq)
  then have "?step (MM_STATE_INIT, 0) (MM_STATE_RUNNING, 7)"
    by (auto simp: mm_step_from ends_def wakes_def no_delays_def intro!: exI [of _ 2])
  moreover have "\<exists>t. ?step (MM_STATE_RUNNING, 7) (MM_STATE_RESET, t)"
    by (simp add: mm_step_from wakes_def no_delays_def default_config_def)
  ultimately have "\<exists>t. (?step ^^ 2) (MM_STATE_INIT, clock os0) (MM_STATE_RESET, t)"
    by (auto simp: numeral_2_eq_2 os0_def)
  then show ?thesis
    using mmon_follows_machine [OF plant_shell_reports [of "\<lambda>t. 2 \<le> t" "\<lambda>t. t < 10"] cfg_ok_default(2), of no_delays 2 os0]
    by (metis prod.inject)
qed

text \<open>
  C26. Time and progress. Every turn of the loop ends, in whatever state it starts: after at most 5 seconds and the boot wait
  limit or the live check interval of sleep, and the time of its commands, of which there are at most three more than the
  boot wait limit, if none takes longer than \<open>b\<close> seconds. Unless a signal cuts a sleep short it takes at least 5
  seconds. The commands that start or restart a service may print what they like or fail; the status
  of the link has to be a word that fits.
\<close>

theorem mmon_turn_bounded:
  assumes "queries_fit sh" "\<forall>cmd t. takes tm cmd t \<le> b" "cfg_ok cfg"
  shows "\<exists>s' w'. mmon_turn tm sh cfg (s, w) = Inr (s', w') \<and>
    clock w' \<le> clock w + 5 + max (nat (nBootWaitTime cfg)) (nat (nLiveCheckInterval cfg)) + (nat (nBootWaitTime cfg) + 3) * b \<and>
    ((\<forall>t n. n \<le> asleep tm t n) \<longrightarrow> clock w + 5 \<le> clock w')"
proof -
  obtain s' w' v where v: "mmon_turn tm sh cfg (s, w) = Inr (s', w')" "clock w' = wakes tm 5 v" "clock w \<le> v"
    "v \<le> clock w + max (nat (nBootWaitTime cfg)) (nat (nLiveCheckInterval cfg)) + (nat (nBootWaitTime cfg) + 3) * b"
    using turn_total [OF assms, of s w] by blast
  moreover have "clock w' \<le> v + 5" "(\<forall>t n. n \<le> asleep tm t n) \<longrightarrow> clock w' = v + 5"
    unfolding v(2) wakes_def by (auto simp: min_def antisym)
  ultimately show ?thesis by auto
qed

theorem mmon_turn_bounded_witness:
  "\<exists>s' w'. mmon_turn no_delays (plant_shell (\<lambda>t. False) (\<lambda>t. False)) default_config (MM_STATE_RESET, os0) = Inr (s', w') \<and>
    5 \<le> clock w' \<and> clock w' \<le> 65"
proof -
  have "queries_fit (plant_shell (\<lambda>t. False) (\<lambda>t. False))"
    by (auto simp: queries_fit_def plant_shell_def scan_tok_def isspace_def)
  from mmon_turn_bounded [OF this _ cfg_ok_default(2), of no_delays 0 MM_STATE_RESET os0] show ?thesis
    by (auto simp: os0_def default_config_def no_delays_def)
qed

text \<open>
  Reachable states. The daemon never enters \<open>MM_STATE_STOPPED\<close> or \<open>MM_STATE_UNKNOWN\<close>, and it
  gives up (\<open>MM_STATE_FAILED\<close>) only after at least two failed attempts in a row: from
  \<open>MM_STATE_RUNNING\<close> it takes three turns or more.
\<close>

theorem mmon_gives_up_late:
  assumes "MMON_Main tm sh cfg n w = Inr (s, w1)" "turns k (mmon_turn tm sh cfg) (s, w1) = Inr (s', w2)"
  shows "s \<notin> {MM_STATE_STOPPED, MM_STATE_UNKNOWN} \<and> (s = MM_STATE_RUNNING \<longrightarrow> s' = MM_STATE_FAILED \<longrightarrow> 3 \<le> k)"
proof -
  have "(mm_edge ^^ n) MM_STATE_INIT s"
    using mmon.turns_steps [of n tm sh cfg "(MM_STATE_INIT, w)" "(s, w1)"] assms(1) by (simp add: MMON_Main_def)
  moreover have "(mm_edge ^^ k) s s'" using mmon.turns_steps [OF assms(2)] by simp
  ultimately show ?thesis using mm_reachable mm_give_up by blast
qed

text \<open>
  Giving up is final. In \<open>MM_STATE_FAILED\<close> the daemon only sleeps: after any number of turns it is
  still there, has started no service and asked nothing, even if modem and link work again.
\<close>

theorem mmon_failed_forever:
  "\<exists>w'. turns n (mmon_turn tm sh cfg) (MM_STATE_FAILED, w) = Inr (MM_STATE_FAILED, w') \<and> cmds w' = cmds w \<and> files w' = files w"
proof (induction n arbitrary: w)
  case (Suc n)
  have "mmon_turn tm sh cfg (MM_STATE_FAILED, w) = Inr (MM_STATE_FAILED, nap tm 5 w)"
    by (simp add: mmon_turn_def mmon_switch_def)
  with Suc [of "nap tm 5 w"] show ?case by simp
qed simp

lemma ask_answers:
  "answers sh cmd v \<Longrightarrow> ask tm sh cmd w = (Some (v @ [nl]), w\<lparr>cmds := cmds w @ [cmd], clock := ends tm cmd (clock w)\<rparr>)"
  by (simp add: ask_def popen_answers)

lemma MDM_IsLive_yes:
  assumes "answers sh ''/usr/bin/service mdmctrl is_live'' ''yes''"
  shows "MDM_IsLive tm sh w = Inr (True, w\<lparr>cmds := cmds w @ [''/usr/bin/service mdmctrl is_live''],
    clock := ends tm ''/usr/bin/service mdmctrl is_live'' (clock w)\<rparr>)"
  using ask_answers [OF assms, of tm w] scanf_word_line [of "''yes''" 64]
  by (simp add: MDM_IsLive_def isspace_def)

lemma XP3_Status_running:
  assumes "answers sh ''/usr/bin/service pppd status'' ''running''"
  shows "XP3_Status tm sh w = Inr (XP3_STATE_RUNNING, w\<lparr>cmds := cmds w @ [''/usr/bin/service pppd status''],
    clock := ends tm ''/usr/bin/service pppd status'' (clock w)\<rparr>)"
  using ask_answers [OF assms, of tm w] scanf_word_line [of "''running''" 64]
  by (simp add: XP3_Status_def fscanf_word_def isspace_def)

lemma bring_up_running:
  assumes "answers sh ''/usr/bin/service mdmctrl is_live'' ''yes''"
    and "answers sh ''/usr/bin/service pppd status'' ''running''"
    and "1 \<le> nBootWaitTime cfg"
  shows "\<exists>w'. bring_up tm sh cfg other w = Inr (MM_STATE_RUNNING, w') \<and>
    ((\<forall>cmd t. takes tm cmd t = 0) \<longrightarrow> clock w' = clock w) \<and>
    cmds w' = cmds w @ [''/usr/bin/service mdmctrl is_live'', ''/usr/bin/service pppd start'', ''/usr/bin/service pppd status'']"
  using assms(3)
  by (simp add: bring_up_def boot_wait.simps [of tm sh "nBootWaitTime cfg" w] MDM_IsLive_yes [OF assms(1)]
      XP3_Start_def XP3_Status_running [OF assms(2)] ends_def)

text \<open>
  C27. Recovery. When the modem answers and the link comes up, a turn from the initial state, after a
  lost link or after a first failure ends in \<open>MM_STATE_RUNNING\<close> with exactly the commands start or
  restart of the modem, one live check, start of the link and its status, whatever time they take. With no delays and
  no signal it takes the 5 seconds at its end.
\<close>

theorem mmon_recovers:
  assumes "answers sh ''/usr/bin/service mdmctrl is_live'' ''yes''"
    and "answers sh ''/usr/bin/service pppd status'' ''running''"
    and "cfg_ok cfg" "s \<in> {MM_STATE_INIT, MM_STATE_RESET, MM_STATE_ABNORMAL}"
  shows "\<exists>w'. mmon_turn tm sh cfg (s, w) = Inr (MM_STATE_RUNNING, w') \<and>
    (tm = no_delays \<longrightarrow> clock w' = clock w + 5) \<and>
    cmds w' = cmds w @ [if s = MM_STATE_INIT then ''/usr/bin/service mdmctrl start'' else ''/usr/bin/service mdmctrl restart'',
      ''/usr/bin/service mdmctrl is_live'', ''/usr/bin/service pppd start'', ''/usr/bin/service pppd status'']"
proof -
  let ?c = "if s = MM_STATE_INIT then ''/usr/bin/service mdmctrl start'' else ''/usr/bin/service mdmctrl restart''"
  have boot: "1 \<le> nBootWaitTime cfg" using assms(3) by (simp add: cfg_ok_def)
  have sw: "\<exists>other. mmon_switch tm sh cfg (s, w) = bring_up tm sh cfg other (run_service tm sh ?c w)"
    using assms(4) by (auto simp: mmon_switch_def MDM_Start_def MDM_Restart_def)
  then obtain other where "mmon_switch tm sh cfg (s, w) = bring_up tm sh cfg other (run_service tm sh ?c w)" ..
  with bring_up_running [OF assms(1,2) boot, of tm other "run_service tm sh ?c w"] show ?thesis
    by (auto simp: mmon_turn_def wakes_def ends_def no_delays_def)
qed

theorem mmon_recovers_witness:
  "\<exists>w'. mmon_turn no_delays (plant_shell (\<lambda>t. True) (\<lambda>t. True)) default_config (MM_STATE_RESET, os0) = Inr (MM_STATE_RUNNING, w') \<and>
    clock w' = 5"
  using mmon_recovers [of "plant_shell (\<lambda>t. True) (\<lambda>t. True)" default_config MM_STATE_RESET no_delays os0] cfg_ok_default(2)
  by (auto simp: answers_def plant_shell_def os0_def)

end
