(* ===== verification/Xcom.thy ===== *)
theory Xcom
  imports Tty "HOL-Library.Word"
begin

text \<open>
  \<open>apps/mmon/xcom.c\<close>: the serial port. What the system calls return is part of the world: the
  \<open>n\<close>-th \<open>read\<close> of one byte, the \<open>n\<close>-th \<open>gettimeofday\<close> (in microseconds, as the 32-bit
  \<open>unsigned long\<close> the code computes) and the results of the calls that set up the port.
\<close>

datatype rd = RdChar char | RdNone | RdError

record tty = os +
  input :: "nat \<Rightarrow> rd"
  rpos :: nat
  times :: "nat \<Rightarrow> 32 word"
  tpos :: nat
  sent :: string
  r_open :: int
  r_fcntl :: int
  r_tcgetattr :: int
  r_tcflush :: int
  r_tcsetattr :: int
  line_settings :: termios

record XCOM =
  hPort :: int
  nFrameTimeout :: int
  com_nBaudrate :: int
  com_nParity :: int
  oldtio :: termios

section \<open>Opening\<close>

text \<open>The switch over the baud rates: another number leaves the flag at 0, which is also the flag of \<open>B0\<close>.\<close>

definition nFlagBaudrate :: "int \<Rightarrow> 32 word" where
  "nFlagBaudrate nBaudrate = (case map_of speed_flags nBaudrate of None \<Rightarrow> 0 | Some f \<Rightarrow> f)"

text \<open>The new settings; the complement makes every local flag but four of them a set one.\<close>

definition newtio :: "int \<Rightarrow> termios" where
  "newtio nBaudrate = zero_termios\<lparr>c_cflag := Some (nFlagBaudrate nBaudrate OR CS8 OR CLOCAL OR CREAD),
     c_iflag := Some (IGNPAR OR ICRNL), c_oflag := Some 0, c_lflag := Some (NOT (ICANON OR ECHO OR ECHOE OR ISIG)),
     c_vmin := Some 0, c_vtime := Some 1\<rparr>"

definition XCOM_Open :: "string \<Rightarrow> int \<Rightarrow> int \<Rightarrow> XCOM \<Rightarrow> 'a tty_scheme \<Rightarrow> int \<times> XCOM \<times> 'a tty_scheme" where
  "XCOM_Open lpszDevice nBaudrate nParity phCOM w =
     (let phCOM = phCOM\<lparr>nFrameTimeout := 1000, hPort := r_open w\<rparr> in
      if r_open w \<le> 0 then (1, phCOM, w)
      else if r_fcntl w \<noteq> 0 then (2, phCOM, w)
      else if r_tcgetattr w \<noteq> 0 then (3, phCOM, w)
      else let phCOM = phCOM\<lparr>oldtio := line_settings w\<rparr> in
        if r_tcflush w \<noteq> 0 then (5, phCOM, w)
        else if r_tcsetattr w \<noteq> 0 then (6, phCOM, w)
        else (0, phCOM, w\<lparr>line_settings := newtio nBaudrate\<rparr>))"

text \<open>The old settings come back, the descriptor stays open.\<close>

definition XCOM_Close :: "XCOM \<Rightarrow> 'a tty_scheme \<Rightarrow> int \<times> 'a tty_scheme" where
  "XCOM_Close phCOM w = (0, if hPort phCOM < 0 \<or> r_tcsetattr w \<noteq> 0 then w else w\<lparr>line_settings := oldtio phCOM\<rparr>)"

definition XCOM_Write :: "XCOM \<Rightarrow> string \<Rightarrow> 'a tty_scheme \<Rightarrow> int \<times> 'a tty_scheme" where
  "XCOM_Write phCOM s w = (int (length s), if hPort phCOM < 0 then w else w\<lparr>sent := sent w @ s\<rparr>)"

section \<open>Reading\<close>

definition read1 :: "'a tty_scheme \<Rightarrow> rd \<times> 'a tty_scheme" where
  "read1 w = (input w (rpos w), w\<lparr>rpos := rpos w + 1\<rparr>)"

definition time_of_day :: "'a tty_scheme \<Rightarrow> 32 word \<times> 'a tty_scheme" where
  "time_of_day w = (times w (tpos w), w\<lparr>tpos := tpos w + 1\<rparr>)"

text \<open>
  \<open>if (read(fd, &ch, 1))\<close> is also true for the error value -1; \<open>ch\<close> then keeps its last value, if it
  has one.
\<close>

fun read_byte :: "rd \<Rightarrow> char option \<Rightarrow> char res" where
  "read_byte (RdChar c) ch = Inr c"
| "read_byte RdError (Some c) = Inr c"
| "read_byte RdError None = Inl UninitRead"
| "read_byte RdNone ch = Inl UninitRead"

text \<open>The inner loop: bytes as long as there are any and the buffer is not full.\<close>

function read_burst ::
  "nat \<Rightarrow> string \<Rightarrow> char option \<Rightarrow> 'a tty_scheme \<Rightarrow> (string \<times> char option \<times> bool \<times> 'a tty_scheme) res" where
  "read_burst nMaxBuf buf ch w = (case read1 w of (r, w1) \<Rightarrow>
     if r = RdNone then Inr (buf, ch, False, w1)
     else bindE (read_byte r ch) (\<lambda>c.
       if length buf < nMaxBuf then read_burst nMaxBuf (buf @ [c]) (Some c) w1
       else Inr (buf, Some c, True, w1)))"
  by pat_completeness auto
termination
  by (relation "measure (\<lambda>(n, buf, ch, w). n - length buf)") auto

declare read_burst.simps [simp del]

lemma read_burst_length:
  "read_burst n buf ch w = Inr (buf', ch', stop, w') \<Longrightarrow> length buf \<le> length buf' \<and> (length buf \<le> n \<longrightarrow> length buf' \<le> n)"
proof (induction n buf ch w rule: read_burst.induct)
  case (1 n buf ch w)
  obtain r w1 where r: "read1 w = (r, w1)" by fastforce
  show ?case
  proof (cases "r = RdNone")
    case True
    with "1.prems" r show ?thesis by (simp add: read_burst.simps [of n buf ch w])
  next
    case False
    with "1.prems" r obtain c where c: "read_byte r ch = Inr c"
      "(if length buf < n then read_burst n (buf @ [c]) (Some c) w1 else Inr (buf, Some c, True, w1)) =
        Inr (buf', ch', stop, w')"
      by (auto simp: read_burst.simps [of n buf ch w] bindE_eq_Inr_iff)
    show ?thesis
    proof (cases "length buf < n")
      case True
      with "1.IH" [OF r [symmetric] False c(1) True] c(2) show ?thesis by simp
    next
      case False
      with c(2) show ?thesis by simp
    qed
  qed
qed

text \<open>
  The outer loop: until the time is over, the buffer is full or two reads a frame timeout apart find
  nothing. \<open>usleep\<close> has no effect on the model, the times come from the world.
\<close>

function read_loop ::
  "nat \<Rightarrow> 32 word \<Rightarrow> 32 word \<Rightarrow> string \<Rightarrow> char option \<Rightarrow> 'a tty_scheme \<Rightarrow> (string \<times> 'a tty_scheme) res" where
  "read_loop nMaxBuf start timeout buf ch w = (case time_of_day w of (t, w1) \<Rightarrow>
     if t - start > timeout then Inr (buf, w1)
     else bindE (read_burst nMaxBuf buf ch w1) (\<lambda>(buf1, ch1, stop, w2).
       if stop then Inr (buf1, w2)
       else (case read1 w2 of (r, w3) \<Rightarrow>
         if r = RdNone then Inr (buf1, w3)
         else bindE (read_byte r ch1) (\<lambda>c.
           if length buf1 < nMaxBuf then read_loop nMaxBuf start timeout (buf1 @ [c]) (Some c) w3
           else Inr (buf1, w3)))))"
  by pat_completeness auto
termination
  by (relation "measure (\<lambda>(n, s, t, buf, ch, w). n - length buf)") (auto dest!: read_burst_length)

declare read_loop.simps [simp del]

text \<open>
  The caller's array has \<open>nMaxBuf\<close> bytes; the terminating zero is written behind the bytes read,
  with no room kept for it.
\<close>

definition XCOM_Read :: "nat \<Rightarrow> int \<Rightarrow> 'a tty_scheme \<Rightarrow> (string \<times> 'a tty_scheme) res" where
  "XCOM_Read nMaxBuf nTimeout w = (case time_of_day w of (start, w1) \<Rightarrow>
     bindE (read_loop nMaxBuf start (word_of_int nTimeout) [] None w1) (\<lambda>(buf, w2).
       if length buf < nMaxBuf then Inr (buf, w2) else Inl BufferOverflow))"

lemma read_loop_length:
  "read_loop n s t buf ch w = Inr (buf', w') \<Longrightarrow> length buf \<le> n \<Longrightarrow> length buf' \<le> n"
proof (induction n s t buf ch w rule: read_loop.induct)
  case (1 n s t buf ch w)
  obtain x w1 where x: "time_of_day w = (x, w1)" by fastforce
  show ?case
  proof (cases "t < x - s")
    case True
    with "1.prems" x show ?thesis by (simp add: read_loop.simps [of n s t buf ch w])
  next
    case False
    with "1.prems"(1) x obtain buf1 ch1 stop w2 where b: "read_burst n buf ch w1 = Inr (buf1, ch1, stop, w2)"
      by (auto simp: read_loop.simps [of n s t buf ch w] bindE_eq_Inr_iff)
    have len: "length buf1 \<le> n" using read_burst_length [OF b] "1.prems"(2) by simp
    obtain r w3 where r: "read1 w2 = (r, w3)" by fastforce
    show ?thesis
    proof (cases "stop \<or> r = RdNone")
      case True
      with "1.prems" x False b r len show ?thesis
        by (auto simp: read_loop.simps [of n s t buf ch w] split: if_splits)
    next
      case go: False
      with "1.prems"(1) x False b r obtain c where c: "read_byte r ch1 = Inr c"
        "(if length buf1 < n then read_loop n s t (buf1 @ [c]) (Some c) w3 else Inr (buf1, w3)) = Inr (buf', w')"
        by (auto simp: read_loop.simps [of n s t buf ch w] bindE_eq_Inr_iff)
      show ?thesis
      proof (cases "length buf1 < n")
        case True
        have "\<not> stop" "r \<noteq> RdNone" using go by auto
        with c True "1.IH" [OF x [symmetric] False b refl refl refl _ r [symmetric] _ c(1) True]
        show ?thesis by simp
      next
        case False
        with c len show ?thesis by simp
      qed
    qed
  qed
qed

section \<open>What a read returns\<close>

text \<open>The next bytes of the port are \<open>cs\<close>.\<close>

definition delivers :: "'a tty_scheme \<Rightarrow> string \<Rightarrow> bool" where
  "delivers w cs \<longleftrightarrow> (\<forall>i < length cs. input w (rpos w + i) = RdChar (cs ! i))"

lemma delivers_Cons: "delivers w (c # cs) \<longleftrightarrow> input w (rpos w) = RdChar c \<and> delivers (w\<lparr>rpos := rpos w + 1\<rparr>) cs"
  by (auto simp: delivers_def nth_Cons All_less_Suc2 split: nat.splits)

lemma read_burst_delivers:
  "delivers w cs \<Longrightarrow> length buf + length cs \<le> n \<Longrightarrow>
   read_burst n buf ch w =
     read_burst n (buf @ cs) (if cs = [] then ch else Some (last cs)) (w\<lparr>rpos := rpos w + length cs\<rparr>)"
proof (induction cs arbitrary: buf ch w)
  case Nil
  then show ?case by simp
next
  case (Cons c cs)
  then have c: "input w (rpos w) = RdChar c" "delivers (w\<lparr>rpos := rpos w + 1\<rparr>) cs"
    by (auto simp: delivers_Cons)
  have "read_burst n buf ch w = read_burst n (buf @ [c]) (Some c) (w\<lparr>rpos := rpos w + 1\<rparr>)"
    using c(1) Cons.prems(2) by (simp add: read_burst.simps [of n buf ch w] read1_def)
  also have "\<dots> = read_burst n ((buf @ [c]) @ cs) (if cs = [] then Some c else Some (last cs))
      (w\<lparr>rpos := rpos w + 1, rpos := rpos (w\<lparr>rpos := rpos w + 1\<rparr>) + length cs\<rparr>)"
    using c(2) Cons.prems(2) by (intro Cons.IH) auto
  finally show ?case by simp
qed

lemma read_burst_idle:
  assumes "delivers w cs" "length cs \<le> n" "input w (rpos w + length cs) = RdNone"
  shows "\<exists>ch'. read_burst n [] ch w = Inr (cs, ch', False, w\<lparr>rpos := rpos w + length cs + 1\<rparr>)"
  using read_burst_delivers [OF assms(1), of "[]" n ch] assms(2,3)
  by (simp add: read_burst.simps [of n cs] read1_def)

lemma read_burst_full:
  assumes "delivers w (cs @ [c])" "length cs = n"
  shows "read_burst n [] ch w = Inr (cs, Some c, True, w\<lparr>rpos := rpos w + n + 1\<rparr>)"
proof -
  have "delivers w cs" using assms(1) by (auto simp: delivers_def nth_append split: if_splits)
  moreover have "input w (rpos w + n) = RdChar c"
    using assms by (auto simp: delivers_def nth_append)
  ultimately show ?thesis
    using read_burst_delivers [of w cs "[]" n ch] assms(2)
    by (simp add: read_burst.simps [of n cs] read1_def)
qed

text \<open>A message of fewer than \<open>nMaxBuf\<close> bytes that is followed by a pause is read exactly.\<close>

lemma XCOM_read_message:
  assumes "delivers w cs" "length cs < nMaxBuf"
    and "input w (rpos w + length cs) = RdNone" "input w (rpos w + length cs + 1) = RdNone"
    and "times w (tpos w + 1) - times w (tpos w) \<le> word_of_int nTimeout"
  shows "XCOM_Read nMaxBuf nTimeout w = Inr (cs, w\<lparr>tpos := tpos w + 2, rpos := rpos w + length cs + 2\<rparr>)"
proof -
  let ?w = "w\<lparr>tpos := tpos w + 2\<rparr>"
  obtain ch where "read_burst nMaxBuf [] None ?w = Inr (cs, ch, False, ?w\<lparr>rpos := rpos ?w + length cs + 1\<rparr>)"
    using read_burst_idle [of ?w cs nMaxBuf None] assms(1,2,3) by (auto simp: delivers_def)
  moreover have "\<not> word_of_int nTimeout < times w (tpos w + 1) - times w (tpos w)" using assms(5) by simp
  ultimately show ?thesis using assms(2,4)
    by (simp add: XCOM_Read_def time_of_day_def read_loop.simps [of nMaxBuf] read1_def numeral_2_eq_2)
qed

definition tty0 :: "string \<Rightarrow> tty" where
  "tty0 msg = \<lparr>files = Map.empty, wperm = \<lambda>_. True, cmds = [], out = [], clock = 0,
     input = \<lambda>i. if i < length msg then RdChar (msg ! i) else RdNone, rpos = 0, times = \<lambda>i. of_nat (100 * i), tpos = 0,
     sent = [], r_open = 3, r_fcntl = 0, r_tcgetattr = 0, r_tcflush = 0, r_tcsetattr = 0, line_settings = zero_termios\<rparr>"

lemma delivers_tty0: "delivers (tty0 msg) msg"
  by (simp add: delivers_def tty0_def)

text \<open>
  Overrun. When at least \<open>nMaxBuf\<close> bytes and one more arrive without a pause, \<open>XCOM_Read\<close> fills
  the whole array and writes the terminating zero behind it.
\<close>

theorem XCOM_Read_overruns:
  assumes "delivers w (cs @ [c])" "length cs = nMaxBuf"
    and "times w (tpos w + 1) - times w (tpos w) \<le> word_of_int nTimeout"
  shows "XCOM_Read nMaxBuf nTimeout w = Inl BufferOverflow"
proof -
  have "read_burst nMaxBuf [] None (w\<lparr>tpos := tpos w + 2\<rparr>) =
      Inr (cs, Some c, True, w\<lparr>tpos := tpos w + 2, rpos := rpos w + nMaxBuf + 1\<rparr>)"
    using read_burst_full [of "w\<lparr>tpos := tpos w + 2\<rparr>" cs c nMaxBuf None] assms(1,2) by (simp add: delivers_def)
  moreover have "\<not> word_of_int nTimeout < times w (tpos w + 1) - times w (tpos w)" using assms(3) by simp
  ultimately show ?thesis using assms(2)
    by (simp add: XCOM_Read_def time_of_day_def read_loop.simps [of nMaxBuf] numeral_2_eq_2)
qed

theorem XCOM_Read_overruns_witness:
  "XCOM_Read 64 1000000 (tty0 (replicate 64 (CHR ''x'') @ [CHR ''y''])) = Inl BufferOverflow"
  by (rule XCOM_Read_overruns [OF delivers_tty0]) (simp_all add: tty0_def)

text \<open>
  Open and close. A port that \<open>XCOM_Open\<close> has opened has the settings it had before after \<open>XCOM_Close\<close>; its
  descriptor stays open.
\<close>

theorem XCOM_restores:
  assumes "XCOM_Open dev baud parity com w = (0, com', w')"
  shows "line_settings w' = newtio baud \<and> snd (XCOM_Close com' w') = w \<and> 0 < hPort com'"
  using assms by (auto simp: XCOM_Open_def XCOM_Close_def Let_def split: if_splits)

end
