(* ===== verification/Modem.thy ===== *)
theory Modem
  imports Xcom
begin

text \<open>
  \<open>apps/mmon/modem.c\<close>: the AT command dialogue with the modem. Two of its loops need not end, so
  the functions that contain them have values in \<open>'a run\<close>.
\<close>

datatype MDM_ERROR = MDM_ERROR_OK | MDM_ERROR_INVALID | MDM_ERROR_TIMEOUT | MDM_ERROR_CANT_OPEN_DEVICE
datatype MDM_MODEL = MDM_MODEL_TX200K | MDM_MODEL_UC864_E | MDM_MODEL_UC864_K | MDM_MODEL_UNKNOWN
datatype MDM_TYPE = MDM_TYPE_3G | MDM_TYPE_LTE | MDM_TYPE_UNKNOWN
datatype MDM_MANUFACTURER = MDM_MANU_TELIAN | MDM_MANU_TELIT | MDM_MANU_UNKNOWN

record MDM_MODEM_INFO =
  iModel :: MDM_MODEL
  iType :: MDM_TYPE
  iManufacturer :: MDM_MANUFACTURER

record MDM =
  hCOM :: XCOM
  xModel :: MDM_MODEL
  szDevice :: string
  bEcho :: bool
  nBaudrate :: int
  nTimeout :: int

record MDM_RESP =
  lpszSplits :: "string list"
  bOK :: bool

definition at_AT :: string where "at_AT = ''AT'' @ [cr]"
definition at_GMM :: string where "at_GMM = ''AT+GMM'' @ [cr]"
definition at_E0 :: string where "at_E0 = ''ATE0'' @ [cr]"
definition at_E1 :: string where "at_E1 = ''ATE1'' @ [cr]"

fun MDM_ModelName :: "MDM_MODEL \<Rightarrow> string" where
  "MDM_ModelName MDM_MODEL_TX200K = ''TX200K''"
| "MDM_ModelName MDM_MODEL_UC864_E = ''UC864-E''"
| "MDM_ModelName MDM_MODEL_UC864_K = ''UC864-K''"
| "MDM_ModelName MDM_MODEL_UNKNOWN = ''UNKNOWN''"

fun MDM_TypeName :: "MDM_TYPE \<Rightarrow> string" where
  "MDM_TypeName MDM_TYPE_3G = ''3G/HSDPA''"
| "MDM_TypeName MDM_TYPE_LTE = ''LTE''"
| "MDM_TypeName MDM_TYPE_UNKNOWN = ''UNKNOWN''"

fun MDM_ManufacturereName :: "MDM_MANUFACTURER \<Rightarrow> string" where
  "MDM_ManufacturereName MDM_MANU_TELIAN = ''Telian''"
| "MDM_ManufacturereName MDM_MANU_TELIT = ''Telit''"
| "MDM_ManufacturereName MDM_MANU_UNKNOWN = ''UNKNOWN''"

definition xModemInfos :: "MDM_MODEM_INFO list" where
  "xModemInfos =
    [\<lparr>iModel = MDM_MODEL_TX200K, iType = MDM_TYPE_3G, iManufacturer = MDM_MANU_TELIAN\<rparr>,
     \<lparr>iModel = MDM_MODEL_UC864_E, iType = MDM_TYPE_3G, iManufacturer = MDM_MANU_TELIT\<rparr>,
     \<lparr>iModel = MDM_MODEL_UC864_K, iType = MDM_TYPE_3G, iManufacturer = MDM_MANU_TELIT\<rparr>,
     \<lparr>iModel = MDM_MODEL_UNKNOWN, iType = MDM_TYPE_UNKNOWN, iManufacturer = MDM_MANU_UNKNOWN\<rparr>]"

section \<open>Splitting a response\<close>

text \<open>
  What one line adds to \<open>lpszSplits\<close>, an array of 16 pointers: nothing for an empty line or a lone
  carriage return, otherwise the line without a carriage return at its end.
\<close>

definition split_line :: "string \<Rightarrow> string list" where
  "split_line l = (if length l > 1 then [if last l = cr \<or> last l = nl then butlast l else l]
     else if length l = 1 \<and> last l \<noteq> cr \<and> last l \<noteq> nl then [l] else [])"

definition add_split :: "string \<Rightarrow> string list \<Rightarrow> string list res" where
  "add_split l acc = (let acc' = acc @ split_line l in
     if length acc' \<le> 16 then Inr acc' else Inl BufferOverflow)"

text \<open>
  The loop \<open>while (lpszPos < lpszEnd)\<close>. The position moves only if there is a newline ahead.
\<close>

partial_function (option) parse_lines :: "string \<Rightarrow> string list \<Rightarrow> string list run" where
  "parse_lines s acc = (if s = [] then Some (Inr acc)
     else if nl \<in> set s then
       (case add_split (takeWhile (\<lambda>c. c \<noteq> nl) s) acc of
          Inl f \<Rightarrow> Some (Inl f)
        | Inr acc' \<Rightarrow> parse_lines (tl (dropWhile (\<lambda>c. c \<noteq> nl) s)) acc')
     else parse_lines s acc)"

declare parse_lines.simps [code]

definition resp_of :: "string list \<Rightarrow> MDM_RESP" where
  "resp_of splits = \<lparr>lpszSplits = splits, bOK = (splits \<noteq> [] \<and> strncmp_eq (last splits) ''OK'' 2)\<rparr>"

definition MDM_ParseResponse :: "string \<Rightarrow> MDM_RESP run" where
  "MDM_ParseResponse lpszResp = (let s = cstr lpszResp in
     if 4096 \<le> length s then Some (Inl BufferOverflow)
     else bindR (parse_lines s []) (\<lambda>splits. Some (Inr (resp_of splits))))"

section \<open>Commands\<close>

definition MDM_Send :: "MDM \<Rightarrow> string \<Rightarrow> 'a tty_scheme \<Rightarrow> 'a tty_scheme" where
  "MDM_Send pMDM lpszCmd w = snd (XCOM_Write (hCOM pMDM) lpszCmd w)"

definition recv :: "nat \<Rightarrow> MDM \<Rightarrow> 'a tty_scheme \<Rightarrow> (MDM_ERROR \<times> MDM_RESP option \<times> 'a tty_scheme) run" where
  "recv n pMDM w = bindR (Some (XCOM_Read n (nTimeout pMDM) w)) (\<lambda>(buf, w1).
     if buf = [] then Some (Inr (MDM_ERROR_TIMEOUT, None, w1))
     else bindR (MDM_ParseResponse buf) (\<lambda>r. Some (Inr (MDM_ERROR_OK, Some r, w1))))"

definition MDM_Recv :: "MDM \<Rightarrow> 'a tty_scheme \<Rightarrow> (MDM_ERROR \<times> MDM_RESP option \<times> 'a tty_scheme) run" where
  "MDM_Recv pMDM w = recv 1024 pMDM w"

definition MDM_IsRunning :: "MDM \<Rightarrow> 'a tty_scheme \<Rightarrow> (bool \<times> 'a tty_scheme) run" where
  "MDM_IsRunning pMDM w = bindR (MDM_Recv pMDM (MDM_Send pMDM at_AT w)) (\<lambda>(xRet, resp, w1).
     Some (Inr (case resp of Some r \<Rightarrow> xRet = MDM_ERROR_OK \<and> bOK r | None \<Rightarrow> False, w1)))"

definition MDM_SetEcho :: "bool \<Rightarrow> MDM \<Rightarrow> 'a tty_scheme \<Rightarrow> (MDM_ERROR \<times> MDM \<times> 'a tty_scheme) run" where
  "MDM_SetEcho on pMDM w =
     bindR (recv 64 pMDM (MDM_Send pMDM (if on then at_E1 else at_E0) w)) (\<lambda>(xRet, resp, w1).
       case resp of
         None \<Rightarrow> Some (Inr (MDM_ERROR_TIMEOUT, pMDM, w1))
       | Some r \<Rightarrow> Some (Inr (if bOK r then (MDM_ERROR_OK, pMDM\<lparr>bEcho := on\<rparr>, w1)
           else (MDM_ERROR_INVALID, pMDM, w1))))"

definition MDM_EchoOn :: "MDM \<Rightarrow> 'a tty_scheme \<Rightarrow> (MDM_ERROR \<times> MDM \<times> 'a tty_scheme) run" where
  "MDM_EchoOn pMDM w = MDM_SetEcho True pMDM w"

definition MDM_EchoOff :: "MDM \<Rightarrow> 'a tty_scheme \<Rightarrow> (MDM_ERROR \<times> MDM \<times> 'a tty_scheme) run" where
  "MDM_EchoOff pMDM w = MDM_SetEcho False pMDM w"

text \<open>
  The search of the model name: the response line behind the echo is compared with the names of the
  table. Reading a split that was not set is a read of an uninitialised pointer. \<open>None\<close> in the second
  component: \<open>*pModel\<close> is not written.
\<close>

definition find_model :: "string \<Rightarrow> MDM_MODEL option" where
  "find_model name = map_option iModel (find (\<lambda>i. MDM_ModelName (iModel i) = name)
     (takeWhile (\<lambda>i. iModel i \<noteq> MDM_MODEL_UNKNOWN) xModemInfos))"

definition MDM_GetModel :: "MDM \<Rightarrow> 'a tty_scheme \<Rightarrow> (MDM_ERROR \<times> MDM_MODEL option \<times> 'a tty_scheme) run" where
  "MDM_GetModel pMDM w =
     bindR (MDM_Recv pMDM (MDM_Send pMDM at_GMM w)) (\<lambda>(xRet, resp, w1).
     bindR (if xRet = MDM_ERROR_TIMEOUT then MDM_Recv pMDM (MDM_Send pMDM at_AT w1) else Some (Inr (xRet, resp, w1)))
       (\<lambda>(xRet, resp, w2).
         case resp of
           None \<Rightarrow> Some (Inr (xRet, None, w2))
         | Some r \<Rightarrow> (let k = (if bEcho pMDM then 1 else 0) in
             if k < length (lpszSplits r)
             then Some (Inr (MDM_ERROR_OK, find_model (lpszSplits r ! k), w2))
             else Some (Inl UninitRead))))"

text \<open>\<open>MDM_GetModemInfo\<close> never moves its pointer off the first entry.\<close>

partial_function (option) info_loop :: "MDM_MODEM_INFO \<Rightarrow> MDM_MODEL \<Rightarrow> MDM_MODEM_INFO option" where
  "info_loop p m = (if iModel p = MDM_MODEL_UNKNOWN then Some p
     else if iModel p = m then Some p else info_loop p m)"

declare info_loop.simps [code]

definition MDM_GetModemInfo :: "MDM_MODEL \<Rightarrow> MDM_MODEM_INFO option" where
  "MDM_GetModemInfo m = info_loop (hd xModemInfos) m"

definition MDM_Connect :: "MDM \<Rightarrow> 'a tty_scheme \<Rightarrow> MDM_ERROR \<times> MDM \<times> 'a tty_scheme" where
  "MDM_Connect pMDM w =
     (let pMDM = pMDM\<lparr>bEcho := True\<rparr>; (ret, com, w) = XCOM_Open (szDevice pMDM) (nBaudrate pMDM) 0 (hCOM pMDM) w;
          pMDM = pMDM\<lparr>hCOM := com\<rparr>
      in if ret < 0 then (MDM_ERROR_CANT_OPEN_DEVICE, pMDM, w) else (MDM_ERROR_OK, pMDM, w))"

definition MDM_Disconnect :: "MDM \<Rightarrow> 'a tty_scheme \<Rightarrow> MDM_ERROR \<times> 'a tty_scheme" where
  "MDM_Disconnect pMDM w = (MDM_ERROR_OK, snd (XCOM_Close (hCOM pMDM) w))"

definition link_command :: "MDM_MODEL \<Rightarrow> string option" where
  "link_command m = (case m of
      MDM_MODEL_TX200K \<Rightarrow> Some ''/bin/ln -sf /etc/init.d/tx200kd /etc/init.d/pppd''
    | MDM_MODEL_UC864_E \<Rightarrow> Some ''/bin/ln -sf /etc/init.d/uc864ed /etc/init.d/pppd''
    | MDM_MODEL_UC864_K \<Rightarrow> Some ''/bin/ln -sf /etc/init.d/uc864ed /etc/init.d/pppd''
    | MDM_MODEL_UNKNOWN \<Rightarrow> None)"

text \<open>
  The dialogue of \<open>MDM_Init\<close>: whether the modem was identified. The model that \<open>MDM_GetModel\<close> stored
  in \<open>xModel\<close> is overwritten by \<open>pMDM->xModel\<close>.
\<close>

definition probe :: "MDM \<Rightarrow> 'a tty_scheme \<Rightarrow> (bool \<times> MDM \<times> 'a tty_scheme) run" where
  "probe pMDM w = bindR (MDM_IsRunning pMDM w) (\<lambda>(running, w1).
     if \<not> running then Some (Inr (False, pMDM, w1))
     else bindR (MDM_EchoOn pMDM w1) (\<lambda>(xRet, pMDM, w2).
       if xRet \<noteq> MDM_ERROR_OK then Some (Inr (False, pMDM, w2))
       else bindR (MDM_GetModel pMDM w2) (\<lambda>(xRet, found, w3). Some (Inr (xRet = MDM_ERROR_OK, pMDM, w3)))))"

definition MDM_Init :: "shell \<Rightarrow> string \<Rightarrow> int \<Rightarrow> int \<Rightarrow> MDM \<Rightarrow> 'a tty_scheme \<Rightarrow> (int \<times> MDM \<times> 'a tty_scheme) run" where
  "MDM_Init sh lpszDevice nBaud nTime pMDM w =
     (if 1024 \<le> length lpszDevice then Some (Inl BufferOverflow)
      else let pMDM = pMDM\<lparr>szDevice := lpszDevice, nBaudrate := nBaud, nTimeout := nTime\<rparr>;
               (ret, pMDM, w) = MDM_Connect pMDM w in
      if ret \<noteq> MDM_ERROR_OK then Some (Inr (- 1, pMDM, w))
      else bindR (probe pMDM w) (\<lambda>(found, pMDM, w1).
        let model = xModel pMDM; w1 = snd (MDM_Disconnect pMDM w1) in
        if \<not> found then Some (Inr (- 1, pMDM, w1))
        else case link_command model of
          None \<Rightarrow> Some (Inr (0, pMDM, w1))
        | Some cmd \<Rightarrow> bindR (Some (system_wait sh cmd w1)) (\<lambda>w2. Some (Inr (0, pMDM, w2)))))"

section \<open>Reference definition of the splitting\<close>

text \<open>
  The lines of a text, each without its newline; a line ended by carriage return and newline is the text
  before both; empty lines do not count.
\<close>

fun lines_of :: "string \<Rightarrow> string list" where
  "lines_of [] = []"
| "lines_of (c # s) = (if c = nl then [] # lines_of s
     else case lines_of s of [] \<Rightarrow> [[c]] | l # ls \<Rightarrow> (c # l) # ls)"

definition strip_cr :: "string \<Rightarrow> string" where
  "strip_cr l = (if l \<noteq> [] \<and> last l = cr then butlast l else l)"

definition splits_spec :: "string \<Rightarrow> string list" where
  "splits_spec s = filter (\<lambda>l. l \<noteq> []) (map strip_cr (lines_of s))"

text \<open>The code gets there with three cases on the length of the line.\<close>

lemma split_line_spec:
  assumes "nl \<notin> set l"
  shows "split_line l = filter (\<lambda>l. l \<noteq> []) [strip_cr l]"
proof -
  consider "l = []" | c where "l = [c]" | c d k where "l = c # d # k" by (metis neq_Nil_conv)
  then show ?thesis
  proof cases
    case 3
    with assms have "last l \<noteq> nl" by (metis last_in_set list.distinct(1))
    with 3 show ?thesis by (auto simp: split_line_def strip_cr_def)
  qed (use assms in \<open>auto simp: split_line_def strip_cr_def\<close>)
qed

lemma lines_of_step:
  assumes "nl \<in> set s"
  shows "lines_of s = takeWhile (\<lambda>c. c \<noteq> nl) s # lines_of (tl (dropWhile (\<lambda>c. c \<noteq> nl) s))"
  using assms by (induction s) auto

lemma dropWhile_nl_length: "nl \<in> set s \<Longrightarrow> length (tl (dropWhile (\<lambda>c. c \<noteq> nl) s)) < length s"
  by (induction s) (auto simp: le_imp_less_Suc length_dropWhile_le less_SucI)

lemma ends_nl_tl:
  assumes "s \<noteq> []" "last s = nl" "tl (dropWhile (\<lambda>c. c \<noteq> nl) s) \<noteq> []"
  shows "last (tl (dropWhile (\<lambda>c. c \<noteq> nl) s)) = nl"
  using assms by (induction s) (auto split: if_splits)

text \<open>On a text that ends with a newline the loop ends, with the splits of the reference definition.\<close>

lemma parse_lines_ends:
  "s = [] \<or> last s = nl \<Longrightarrow> length acc \<le> 16 \<Longrightarrow>
   parse_lines s acc = Some (if length (acc @ splits_spec s) \<le> 16 then Inr (acc @ splits_spec s) else Inl BufferOverflow)"
proof (induction "length s" arbitrary: s acc rule: less_induct)
  case less
  show ?case
  proof (cases "s = []")
    case True
    with less.prems show ?thesis by (simp add: parse_lines.simps splits_spec_def)
  next
    case False
    with less.prems(1) have nl: "nl \<in> set s" by (metis last_in_set)
    let ?l = "takeWhile (\<lambda>c. c \<noteq> nl) s" and ?r = "tl (dropWhile (\<lambda>c. c \<noteq> nl) s)"
    have spec: "splits_spec s = split_line ?l @ splits_spec ?r"
    proof -
      have "nl \<notin> set ?l" by (auto dest: set_takeWhileD)
      from split_line_spec [OF this] show ?thesis by (simp add: splits_spec_def lines_of_step [OF nl])
    qed
    have r: "?r = [] \<or> last ?r = nl" using ends_nl_tl [of s] False less.prems(1) by auto
    show ?thesis
    proof (cases "length (acc @ split_line ?l) \<le> 16")
      case True
      then have "parse_lines s acc = parse_lines ?r (acc @ split_line ?l)"
        using False nl by (simp add: parse_lines.simps [of s acc] add_split_def Let_def)
      with less.hyps [OF dropWhile_nl_length [OF nl] r True] spec show ?thesis by simp
    next
      case over: False
      then show ?thesis
        using False nl spec by (simp add: parse_lines.simps [of s acc] add_split_def Let_def)
    qed
  qed
qed

text \<open>On a text that does not end with a newline the loop never gives a result.\<close>

lemma dropWhile_nl_last:
  assumes "nl \<in> set s" "last s \<noteq> nl"
  shows "tl (dropWhile (\<lambda>c. c \<noteq> nl) s) \<noteq> [] \<and> last (tl (dropWhile (\<lambda>c. c \<noteq> nl) s)) = last s"
  using assms by (induction s) (auto split: if_splits)

lemma parse_lines_hangs:
  "parse_lines s acc = Some r \<Longrightarrow> s \<noteq> [] \<Longrightarrow> last s \<noteq> nl \<Longrightarrow> r = Inl BufferOverflow"
proof -
  assume "parse_lines s acc = Some r"
  then have "s \<noteq> [] \<longrightarrow> last s \<noteq> nl \<longrightarrow> r = Inl BufferOverflow"
  proof (rule parse_lines.raw_induct [of "\<lambda>s acc r. s \<noteq> [] \<longrightarrow> last s \<noteq> nl \<longrightarrow> r = Inl BufferOverflow", rotated], intro impI)
    fix parse :: "string \<Rightarrow> string list \<Rightarrow> string list run" and s acc r
    assume IH: "\<And>s acc r. parse s acc = Some r \<Longrightarrow> s \<noteq> [] \<longrightarrow> last s \<noteq> nl \<longrightarrow> r = Inl BufferOverflow"
      and body: "(if s = [] then Some (Inr acc)
        else if nl \<in> set s then
          (case add_split (takeWhile (\<lambda>c. c \<noteq> nl) s) acc of
             Inl f \<Rightarrow> Some (Inl f)
           | Inr acc' \<Rightarrow> parse (tl (dropWhile (\<lambda>c. c \<noteq> nl) s)) acc')
        else parse s acc) = Some r" and s: "s \<noteq> []" "last s \<noteq> nl"
    show "r = Inl BufferOverflow"
    proof (cases "nl \<in> set s")
      case True
      note r = dropWhile_nl_last [OF True s(2)]
      show ?thesis
      proof (cases "add_split (takeWhile (\<lambda>c. c \<noteq> nl) s) acc")
        case (Inl f)
        with body s True show ?thesis by (auto simp: add_split_def Let_def split: if_splits)
      next
        case (Inr acc')
        with body s True have "parse (tl (dropWhile (\<lambda>c. c \<noteq> nl) s)) acc' = Some r" by simp
        from IH [OF this] r s(2) show ?thesis by simp
      qed
    next
      case False
      with body s IH [of s acc r] show ?thesis by simp
    qed
  qed
  then show "s \<noteq> [] \<Longrightarrow> last s \<noteq> nl \<Longrightarrow> r = Inl BufferOverflow" by blast
qed

lemma info_loop_hangs:
  assumes "info_loop p m = Some q"
  shows "iModel p = MDM_MODEL_UNKNOWN \<or> iModel p = m"
  using assms
  by (rule info_loop.raw_induct [of "\<lambda>p m q. iModel p = MDM_MODEL_UNKNOWN \<or> iModel p = m", rotated])
    (auto split: if_splits)

section \<open>Frame facts\<close>

text \<open>Talking to the modem starts no command and changes no file and no setting of the port.\<close>

definition untouched :: "'a tty_scheme \<Rightarrow> 'a tty_scheme \<Rightarrow> bool" where
  "untouched w w' \<longleftrightarrow> cmds w' = cmds w \<and> files w' = files w \<and> line_settings w' = line_settings w \<and> r_tcsetattr w' = r_tcsetattr w"

lemma read1_frame: "read1 w = (r, w') \<Longrightarrow> untouched w w'"
  by (auto simp: read1_def untouched_def)

lemma read_burst_frame:
  "read_burst n buf ch w = Inr (buf', ch', stop, w') \<Longrightarrow> untouched w w'"
proof (induction n buf ch w rule: read_burst.induct)
  case (1 n buf ch w)
  obtain r w1 where r: "read1 w = (r, w1)" by fastforce
  with "1.prems" "1.IH" [OF r [symmetric]] read1_frame [OF r] show ?case
    by (auto simp: read_burst.simps [of n buf ch w] bindE_eq_Inr_iff untouched_def split: if_splits)
qed

lemma read_loop_frame:
  "read_loop n s t buf ch w = Inr (buf', w') \<Longrightarrow> untouched w w'"
proof (induction n s t buf ch w rule: read_loop.induct)
  case (1 n s t buf ch w)
  obtain x w1 where x: "time_of_day w = (x, w1)" by fastforce
  then have w1: "untouched w w1" by (auto simp: time_of_day_def untouched_def)
  show ?case
  proof (cases "t < x - s")
    case True
    with "1.prems" x w1 show ?thesis by (simp add: read_loop.simps [of n s t buf ch w])
  next
    case False
    with "1.prems" x obtain buf1 ch1 stop w2 where b: "read_burst n buf ch w1 = Inr (buf1, ch1, stop, w2)"
      by (auto simp: read_loop.simps [of n s t buf ch w] bindE_eq_Inr_iff)
    obtain r w3 where r: "read1 w2 = (r, w3)" by fastforce
    note fr = read_burst_frame [OF b] read1_frame [OF r] w1
    note IH = "1.IH" [OF x [symmetric] False b refl refl refl _ r [symmetric]]
    show ?thesis using "1.prems" x False b r fr IH
      by (auto simp: read_loop.simps [of n s t buf ch w] bindE_eq_Inr_iff untouched_def split: if_splits)
  qed
qed

lemma recv_frame: "recv n m w = Some (Inr (e, r, w')) \<Longrightarrow> untouched w w'"
proof -
  assume a: "recv n m w = Some (Inr (e, r, w'))"
  then obtain buf w1 where rd: "XCOM_Read n (nTimeout m) w = Inr (buf, w1)"
    by (cases "XCOM_Read n (nTimeout m) w") (auto simp: recv_def)
  then have "untouched w w1"
    by (auto simp: XCOM_Read_def time_of_day_def bindE_eq_Inr_iff untouched_def split: if_splits dest!: read_loop_frame)
  with a rd show ?thesis
    by (cases "MDM_ParseResponse buf") (auto simp: recv_def bindR_def split: if_splits sum.splits)
qed

lemma connect_frame:
  "MDM_Connect m w = (e, m', w') \<Longrightarrow> xModel m' = xModel m \<and> cmds w' = cmds w \<and> files w' = files w"
  by (auto simp: MDM_Connect_def XCOM_Open_def Let_def split: prod.splits if_splits)

lemma disconnect_frame [simp]: "cmds (snd (MDM_Disconnect m w)) = cmds w" "files (snd (MDM_Disconnect m w)) = files w"
  by (simp_all add: MDM_Disconnect_def XCOM_Close_def)

lemma send_frame [simp]: "untouched (MDM_Send m c w) w' \<longleftrightarrow> untouched w w'"
  by (simp add: MDM_Send_def XCOM_Write_def untouched_def)

lemma untouched_refl [simp]: "untouched w w"
  by (simp add: untouched_def)

lemma untouched_trans: "untouched a b \<Longrightarrow> untouched b c \<Longrightarrow> untouched a c"
  by (simp add: untouched_def)

lemma GetModel_frame:
  assumes "MDM_GetModel m w = Some (Inr (e, x, w'))"
  shows "untouched w w'"
proof -
  from assms obtain e1 r1 w1 where 1: "recv 1024 m (MDM_Send m at_GMM w) = Some (Inr (e1, r1, w1))"
    by (auto simp: MDM_GetModel_def MDM_Recv_def bindR_eq_Inr_iff)
  let ?second = "if e1 = MDM_ERROR_TIMEOUT then recv 1024 m (MDM_Send m at_AT w1) else Some (Inr (e1, r1, w1))"
  let ?rest = "\<lambda>(xRet, resp, w2). case resp of None \<Rightarrow> Some (Inr (xRet, None, w2))
         | Some r \<Rightarrow> (let k = (if bEcho m then 1 else 0) in
             if k < length (lpszSplits r)
             then Some (Inr (MDM_ERROR_OK, find_model (lpszSplits r ! k), w2))
             else Some (Inl UninitRead))"
  from assms 1 have "bindR ?second ?rest = Some (Inr (e, x, w'))"
    by (simp only: MDM_GetModel_def MDM_Recv_def bindR_simps prod.case)
  then obtain y where y: "?second = Some (Inr y)" "?rest y = Some (Inr (e, x, w'))"
    unfolding bindR_eq_Inr_iff by (elim exE conjE) (rule that)
  obtain e2 r2 w2 where y': "y = (e2, r2, w2)" by (cases y)
  note 2 = y(1) [unfolded y'] and 3 = y(2) [unfolded y' prod.case]
  from 3 have w': "w' = w2" by (cases r2) (auto simp: Let_def split: if_splits)
  from 2 have "untouched w1 w2"
    by (cases "e1 = MDM_ERROR_TIMEOUT") (auto dest!: recv_frame)
  with recv_frame [OF 1] w' show ?thesis by (auto intro: untouched_trans)
qed

lemma probe_frame:
  assumes "probe m w = Some (Inr (ok, m', w'))"
  shows "untouched w w' \<and> xModel m' = xModel m \<and> hCOM m' = hCOM m"
proof -
  from assms obtain b w1 where 1: "MDM_IsRunning m w = Some (Inr (b, w1))"
    by (auto simp: probe_def bindR_eq_Inr_iff)
  then have f1: "untouched w w1"
    by (auto simp: MDM_IsRunning_def MDM_Recv_def bindR_eq_Inr_iff dest!: recv_frame)
  show ?thesis
  proof (cases b)
    case False
    with assms 1 f1 show ?thesis by (simp add: probe_def)
  next
    case True
    with assms 1 obtain e m2 w2 where 2: "MDM_EchoOn m w1 = Some (Inr (e, m2, w2))"
      by (auto simp: probe_def bindR_eq_Inr_iff)
    then have f2: "untouched w1 w2" "xModel m2 = xModel m \<and> hCOM m2 = hCOM m"
      by (auto simp: MDM_EchoOn_def MDM_SetEcho_def bindR_eq_Inr_iff split: option.splits if_splits dest!: recv_frame)
    from assms 1 True 2 have "untouched w2 w' \<and> m' = m2"
      by (auto simp: probe_def bindR_eq_Inr_iff untouched_def split: if_splits dest!: GetModel_frame)
    with f1 f2 show ?thesis by (auto intro: untouched_trans)
  qed
qed

section \<open>Properties of the modem dialogue\<close>

text \<open>
  C28. Splitting a response. For a response that ends with a newline, \<open>MDM_ParseResponse\<close> returns its lines
  as the reference definition has them (split at newlines, a carriage return at the end of a line removed,
  empty lines dropped) and \<open>bOK\<close> exactly if the last of them starts with \<open>OK\<close>. Of more than 16 such lines the last ones are
  written outside of the array.
\<close>

theorem ParseResponse_lines:
  assumes "nul \<notin> set s" "length s < 4096" "s = [] \<or> last s = nl"
  shows "MDM_ParseResponse s = Some (
    if length (splits_spec s) \<le> 16
    then Inr \<lparr>lpszSplits = splits_spec s, bOK = (splits_spec s \<noteq> [] \<and> take 2 (last (splits_spec s)) = ''OK'')\<rparr>
    else Inl BufferOverflow)"
  using parse_lines_ends [OF assms(3), of "[]"] assms
  by (simp add: MDM_ParseResponse_def cstr_id resp_of_def strncmp_eq_def Let_def)

theorem ParseResponse_lines_witness:
  "MDM_ParseResponse (''AT'' @ [cr, nl, cr, nl] @ ''OK'' @ [cr, nl]) = Some (Inr \<lparr>lpszSplits = [''AT'', ''OK''], bOK = True\<rparr>)"
  using ParseResponse_lines [of "''AT'' @ [cr, nl, cr, nl] @ ''OK'' @ [cr, nl]"]
  by (simp add: splits_spec_def strip_cr_def)

text \<open>
  A response that is cut off before its newline never gives a result: the loop of
  \<open>MDM_ParseResponse\<close> spins for ever (or runs over its array of 16 pointers first).
\<close>

theorem ParseResponse_hangs:
  assumes "nul \<notin> set s" "s \<noteq> []" "last s \<noteq> nl"
  shows "MDM_ParseResponse s = None \<or> MDM_ParseResponse s = Some (Inl BufferOverflow)"
  using parse_lines_hangs [of s "[]"] assms
  by (cases "parse_lines s []") (auto simp: MDM_ParseResponse_def cstr_id Let_def)

theorem ParseResponse_hangs_witness:
  "\<not> (\<exists>r. MDM_ParseResponse ''OK'' = Some (Inr r))"
  using ParseResponse_hangs [of "''OK''"] by auto

text \<open>
  \<open>MDM_GetModemInfo\<close> returns only for the first model of its table; for every other model it
  loops for ever, since the pointer is not advanced.
\<close>

theorem GetModemInfo_only_first:
  "MDM_GetModemInfo m = (if m = MDM_MODEL_TX200K then Some (hd xModemInfos) else None)"
proof (cases "m = MDM_MODEL_TX200K")
  case True
  then show ?thesis by (simp add: MDM_GetModemInfo_def info_loop.simps xModemInfos_def)
next
  case False
  have "info_loop (hd xModemInfos) m \<noteq> Some q" for q
    using info_loop_hangs [of "hd xModemInfos" m q] False by (auto simp: xModemInfos_def)
  then have "info_loop (hd xModemInfos) m = None" by (cases "info_loop (hd xModemInfos) m") auto
  with False show ?thesis by (simp add: MDM_GetModemInfo_def)
qed

text \<open>
  C29. The live check over the port. If the port is open and the modem answers \<open>AT\<close> with a text that ends with a newline,
  \<open>MDM_IsRunning\<close> returns and says whether the last line of the answer with text starts with \<open>OK\<close>.
\<close>

theorem IsRunning_answer:
  fixes w :: "'a tty_scheme"
  assumes "delivers w s" "length s < 1024" "s \<noteq> []" "last s = nl" "nul \<notin> set s" "length (splits_spec s) \<le> 16"
    and "input w (rpos w + length s) = RdNone" "input w (rpos w + length s + 1) = RdNone"
    and "times w (tpos w + 1) - times w (tpos w) \<le> word_of_int (nTimeout m)" "0 \<le> hPort (hCOM m)"
  shows "\<exists>w'. MDM_IsRunning m w =
    Some (Inr (splits_spec s \<noteq> [] \<and> take 2 (last (splits_spec s)) = ''OK'', w')) \<and> sent w' = sent w @ ''AT'' @ [cr]"
proof -
  let ?w = "MDM_Send m at_AT w"
  let ?w' = "?w\<lparr>tpos := tpos ?w + 2, rpos := rpos ?w + length s + 2\<rparr>"
  have send: "input ?w = input w" "rpos ?w = rpos w" "times ?w = times w" "tpos ?w = tpos w"
    "sent ?w = sent w @ at_AT"
    using assms(10) by (simp_all add: MDM_Send_def XCOM_Write_def)
  have "XCOM_Read 1024 (nTimeout m) ?w = Inr (s, ?w')"
    by (rule XCOM_read_message) (use assms send in \<open>simp_all add: delivers_def\<close>)
  moreover have "MDM_ParseResponse s = Some (Inr (resp_of (splits_spec s)))"
    using parse_lines_ends [of s "[]"] assms by (simp add: MDM_ParseResponse_def cstr_id Let_def)
  ultimately show ?thesis using assms(3) send(5)
    by (simp add: MDM_IsRunning_def MDM_Recv_def recv_def resp_of_def strncmp_eq_def at_AT_def)
qed

definition mdm0 :: MDM where
  "mdm0 = \<lparr>hCOM = \<lparr>hPort = 3, nFrameTimeout = 1000, com_nBaudrate = 0, com_nParity = 0, oldtio = zero_termios\<rparr>, 
     xModel = MDM_MODEL_UNKNOWN, szDevice = [], bEcho = True, nBaudrate = 115200, nTimeout = 1000000\<rparr>"

theorem IsRunning_answer_witness:
  "\<exists>w'. MDM_IsRunning mdm0 (tty0 (''AT'' @ [cr, nl] @ ''OK'' @ [cr, nl])) = Some (Inr (True, w'))"
  using IsRunning_answer [OF delivers_tty0, of "''AT'' @ [cr, nl] @ ''OK'' @ [cr, nl]" mdm0]
  by (auto simp: tty0_def mdm0_def splits_spec_def strip_cr_def)

text \<open>
  The identified model is thrown away. Whenever \<open>MDM_Init\<close> succeeds, the link to the PPP script
  it makes is the one of \<open>pMDM->xModel\<close> as it was before the call, whatever model the modem named.
\<close>

theorem Init_ignores_model:
  fixes w :: "'a tty_scheme"
  assumes "MDM_Init sh dev baud tmo m w = Some (Inr (0, m', w'))"
  shows "cmds w' = cmds w @ (case link_command (xModel m) of None \<Rightarrow> [] | Some c \<Rightarrow> [c])"
proof -
  let ?m = "m\<lparr>szDevice := dev, nBaudrate := baud, nTimeout := tmo\<rparr>"
  obtain e m1 w1 where c: "MDM_Connect ?m w = (e, m1, w1)" by (metis prod_cases3)
  note x1 = connect_frame [OF c, simplified]
  from assms c obtain ok m2 w2 where p: "probe m1 w1 = Some (Inr (ok, m2, w2))"
    by (auto simp: MDM_Init_def Let_def bindR_eq_Inr_iff split: if_splits)
  note f = probe_frame [OF p, unfolded untouched_def]
  have "cmds w4 = cmds w3 @ [cc]" if "system_wait sh cc w3 = Inr w4" for cc w4 and w3 :: "'a tty_scheme"
    using that by (auto simp: system_wait_def split: prod.splits option.splits dest: popen_cmds)
  with assms c p f x1 show ?thesis
    by (auto simp: MDM_Init_def Let_def bindR_eq_Inr_iff split: if_splits option.splits)
qed

text \<open>A modem that says it is a \<open>TX200K\<close>, with \<open>pMDM->xModel\<close> left at another value.\<close>

definition dialogue_input :: "rd list" where
  "dialogue_input = map RdChar (''OK'' @ [nl]) @ [RdNone, RdNone] @ map RdChar (''OK'' @ [nl]) @ [RdNone, RdNone] @
     map RdChar (''AT+GMM'' @ [nl] @ ''TX200K'' @ [nl] @ ''OK'' @ [nl]) @ [RdNone, RdNone]"

definition dialogue :: tty where
  "dialogue = (tty0 [])\<lparr>input := \<lambda>i. if i < length dialogue_input then dialogue_input ! i else RdNone\<rparr>"

definition stale_mdm :: MDM where
  "stale_mdm = mdm0\<lparr>xModel := MDM_MODEL_UC864_E\<rparr>"

definition quiet_shell :: shell where
  "quiet_shell cmd t fs = Some ([], fs)"

definition dialogue_result :: "int option" where
  "dialogue_result = (case MDM_Init quiet_shell ''/dev/ttyS1'' 115200 1000000 stale_mdm dialogue of
     Some (Inr (r, _)) \<Rightarrow> Some r | _ \<Rightarrow> None)"

lemma dialogue_runs: "dialogue_result = Some 0"
  by code_simp

theorem Init_ignores_model_witness:
  "\<exists>m' w'. MDM_Init quiet_shell ''/dev/ttyS1'' 115200 1000000 stale_mdm dialogue = Some (Inr (0, m', w')) \<and>
    cmds w' = [''/bin/ln -sf /etc/init.d/uc864ed /etc/init.d/pppd'']"
proof -
  from dialogue_runs obtain m' w' where
    "MDM_Init quiet_shell ''/dev/ttyS1'' 115200 1000000 stale_mdm dialogue = Some (Inr (0, m', w'))"
    by (auto simp: dialogue_result_def split: option.splits sum.splits prod.splits)
  with Init_ignores_model [OF this] show ?thesis
    by (auto simp: stale_mdm_def dialogue_def tty0_def link_command_def)
qed

text \<open>
  The settings of the port come back. When the port can be opened, \<open>MDM_Init\<close> leaves it with the settings it found,
  whatever the modem answers.
\<close>

theorem Init_restores_port:
  fixes w :: "'a tty_scheme"
  assumes "MDM_Init sh dev baud tmo m w = Some (Inr (r, m', w'))"
    and "0 < r_open w" "r_fcntl w = 0" "r_tcgetattr w = 0" "r_tcflush w = 0" "r_tcsetattr w = 0"
  shows "line_settings w' = line_settings w"
proof -
  let ?m = "m\<lparr>szDevice := dev, nBaudrate := baud, nTimeout := tmo\<rparr>"
  obtain m1 where c: "MDM_Connect ?m w = (MDM_ERROR_OK, m1, w\<lparr>line_settings := newtio baud\<rparr>)"
    "hPort (hCOM m1) = r_open w" "oldtio (hCOM m1) = line_settings w"
    using assms(2-6) by (auto simp: MDM_Connect_def XCOM_Open_def Let_def)
  from assms(1) c(1) obtain ok m2 w2 where p: "probe m1 (w\<lparr>line_settings := newtio baud\<rparr>) = Some (Inr (ok, m2, w2))"
    by (auto simp: MDM_Init_def Let_def bindR_eq_Inr_iff split: if_splits)
  note f = probe_frame [OF p, unfolded untouched_def]
  have d: "line_settings (snd (MDM_Disconnect m2 w2)) = line_settings w"
    using f c(2,3) assms(2,6) by (simp add: MDM_Disconnect_def XCOM_Close_def)
  have "line_settings w4 = line_settings w3" if "system_wait sh cc w3 = Inr w4" for cc w4 and w3 :: "'a tty_scheme"
    using that by (auto simp: system_wait_def popen_def Let_def split: prod.splits option.splits)
  with assms(1) c(1) p d show ?thesis
    by (auto simp: MDM_Init_def Let_def bindR_eq_Inr_iff split: if_splits option.splits)
qed

end
