(* ===== verification/Xshared.thy ===== *)
theory Xshared
  imports Os
begin

text \<open>
  \<open>xshared.c\<close> (in \<open>apps/mmon\<close>, and with another table in \<open>apps/ftmbcc\<close>): System V shared memory. A
  segment is the list of its bytes, found by its key; an address is the key of the attached segment.
  \<open>shmat\<close> is taken to succeed on an existing segment; it reports a failure as -1 and not as the null
  pointer the code tests for.
\<close>

type_synonym segments = "int \<Rightarrow> string option"

record XSD_INFO =
  xKey :: int
  nSize :: nat

definition XSD_Create :: "bool \<Rightarrow> int \<Rightarrow> nat \<Rightarrow> segments \<Rightarrow> int option \<times> segments" where
  "XSD_Create can_create key sz m =
     (if m key \<noteq> None \<or> \<not> can_create then (None, m) else (Some key, m(key \<mapsto> replicate sz nul)))"

definition XSD_Open :: "int \<Rightarrow> nat \<Rightarrow> segments \<Rightarrow> int option" where
  "XSD_Open key sz m = (case m key of None \<Rightarrow> None | Some seg \<Rightarrow> if sz \<le> length seg then Some key else None)"

definition lpSharedMemInfo :: "XSD_INFO list" where
  "lpSharedMemInfo = [\<lparr>xKey = 0x1234, nSize = 1024\<rparr>]"

definition XSD_IsExist :: "XSD_INFO list \<Rightarrow> nat \<Rightarrow> segments \<Rightarrow> int" where
  "XSD_IsExist table nID m = (if nID < length table then
     (if XSD_Open (xKey (table ! nID)) (nSize (table ! nID)) m \<noteq> None then 0 else - 1) else - 1)"

text \<open>The loop of \<open>XSD_Init\<close> over the table fills \<open>lpSharedMemBase\<close>.\<close>

definition init_one :: "bool \<Rightarrow> XSD_INFO \<Rightarrow> segments \<Rightarrow> int option \<times> segments" where
  "init_one can_create i m = (if XSD_Open (xKey i) (nSize i) m \<noteq> None then (XSD_Open (xKey i) (nSize i) m, m)
     else XSD_Create can_create (xKey i) (nSize i) m)"

fun XSD_Init :: "bool \<Rightarrow> XSD_INFO list \<Rightarrow> segments \<Rightarrow> int option list \<times> segments" where
  "XSD_Init c [] m = ([], m)"
| "XSD_Init c (i # is) m = (case init_one c i m of (a, m1) \<Rightarrow>
     (case XSD_Init c is m1 of (as, m2) \<Rightarrow> (a # as, m2)))"

definition XSD_GetMemAddr :: "int option list \<Rightarrow> nat \<Rightarrow> int option" where
  "XSD_GetMemAddr base nID = (if length base \<le> nID then None else base ! nID)"

text \<open>
  \<open>XSD_Delete\<close> (in \<open>apps/fwmng\<close>) passes the key where \<open>shmctl\<close> takes an identifier; \<open>key_of\<close> is the key of the segment
  with an identifier.
\<close>

definition XSD_Delete :: "(int \<Rightarrow> int option) \<Rightarrow> int \<Rightarrow> segments \<Rightarrow> int \<times> segments" where
  "XSD_Delete key_of key m = (case key_of key of
      None \<Rightarrow> (- 1, m)
    | Some k \<Rightarrow> if m k = None then (- 1, m) else (0, m(k := None)))"

section \<open>Record locks\<close>

datatype lock_type = F_WRLCK | F_UNLCK

record flock =
  l_type :: lock_type
  l_start :: nat
  l_len :: nat

text \<open>
  \<open>held\<close> is the set of locked bytes of the file; \<open>F_SETLKW\<close> waits until the byte is free, so the
  locks of other processes do not appear.
\<close>

definition XSD_OpenLock :: "nat \<Rightarrow> nat set \<Rightarrow> flock \<times> nat set" where
  "XSD_OpenLock index held =
     (let l = \<lparr>l_type = F_WRLCK, l_start = index, l_len = 1\<rparr>
      in (l, held \<union> {l_start l..<l_start l + l_len l}))"

definition XSD_CloseLock :: "nat \<Rightarrow> nat set \<Rightarrow> flock \<times> nat set" where
  "XSD_CloseLock index held =
     (let l = \<lparr>l_type = F_UNLCK, l_start = index, l_len = 1\<rparr>
      in (l, held - {l_start l..<l_start l + l_len l}))"

definition XSD_InitLock :: flock where
  "XSD_InitLock = \<lparr>l_type = F_WRLCK, l_start = 0, l_len = 1\<rparr>"

definition XSD_InitUnlock :: flock where
  "XSD_InitUnlock = \<lparr>l_type = F_UNLCK, l_start = 0, l_len = 1\<rparr>"

section \<open>Facts\<close>

lemma init_one_addr:
  "m (xKey i) = None \<Longrightarrow> init_one True i m = (Some (xKey i), m(xKey i \<mapsto> replicate (nSize i) nul))"
  by (simp add: init_one_def XSD_Open_def XSD_Create_def)

lemma init_one_kept: "m k = Some s \<Longrightarrow> init_one c i m = (a, m') \<Longrightarrow> m' k = Some s"
  by (auto simp: init_one_def XSD_Create_def split: if_splits)

lemma XSD_Init_kept: "XSD_Init c is m = (as, m') \<Longrightarrow> m k = Some s \<Longrightarrow> m' k = Some s"
proof (induction "is" arbitrary: m as m')
  case (Cons i "is")
  obtain a m1 where 1: "init_one c i m = (a, m1)" by fastforce
  obtain bs m2 where 2: "XSD_Init c is m1 = (bs, m2)" by fastforce
  from Cons.prems 1 2 have "m' = m2" by simp
  with Cons.IH [OF 2 init_one_kept [OF Cons.prems(2) 1]] show ?case by simp
qed simp

lemma XSD_Init_length: "XSD_Init c is m = (as, m') \<Longrightarrow> length as = length is"
  by (induction "is" arbitrary: m as m') (auto split: prod.splits)

lemma lock_roundtrip: "index \<notin> held \<Longrightarrow> snd (XSD_CloseLock index (snd (XSD_OpenLock index held))) = held"
  by (auto simp: XSD_CloseLock_def XSD_OpenLock_def)

end
