(* ===== verification/Xutil.thy ===== *)
theory Xutil
  imports Os
begin

text \<open>
  \<open>xutil.c\<close> (the same file in \<open>apps/mmon\<close> and \<open>apps/ftmbcc\<close>): looking up processes in \<open>/proc\<close>. The
  directory is the list of its entries in the order of \<open>readdir\<close>, each with the target of its
  \<open>exe\<close> link, if it can be read.
\<close>

type_synonym proc_dir = "(string \<times> string option) list"

text \<open>\<open>strspn(name, "0123456789") == strlen(name)\<close>.\<close>

definition numeric_name :: "string \<Rightarrow> bool" where
  "numeric_name n \<longleftrightarrow> list_all isdigit n"

text \<open>
  Whether an entry belongs to the program: the link, cut to the 251 bytes \<open>readlink\<close> is given, contains
  the name. The path is built in an array of 40 bytes.
\<close>

definition entry_matches :: "string \<Rightarrow> string \<times> string option \<Rightarrow> bool res" where
  "entry_matches pname e =
     (if \<not> numeric_name (fst e) then Inr False
      else if 40 \<le> length (''/proc/'' @ fst e @ ''/'') then Inl BufferOverflow
      else case snd e of
        None \<Rightarrow> Inr False
      | Some target \<Rightarrow> Inr (target \<noteq> [] \<and> strstr (cstr (take 251 target)) pname))"

fun getProcessID :: "string \<Rightarrow> proc_dir \<Rightarrow> int res" where
  "getProcessID pname [] = Inr 0"
| "getProcessID pname (e # es) = bindE (entry_matches pname e) (\<lambda>b.
     if b then Inr (atoi (fst e)) else getProcessID pname es)"

text \<open>The loop of \<open>getProcessIDList\<close>; \<open>pids\<close> are the entries of \<open>lpPIDs\<close> so far, \<open>result\<close> of them.\<close>

fun list_loop :: "string \<Rightarrow> int \<Rightarrow> proc_dir \<Rightarrow> int list \<Rightarrow> int list res" where
  "list_loop pname nMaxCount [] pids = Inr pids"
| "list_loop pname nMaxCount (e # es) pids = bindE (entry_matches pname e) (\<lambda>b.
     list_loop pname nMaxCount es
       (if b \<and> int (length pids) < nMaxCount then pids @ [atoi (fst e)] else pids))"

definition getProcessIDList :: "string \<Rightarrow> int \<Rightarrow> proc_dir \<Rightarrow> int list res" where
  "getProcessIDList pname nMaxCount d = list_loop pname nMaxCount d []"

text \<open>The state letter of a process, \<open>U\<close> if it is not known.\<close>

fun state_loop :: "string list \<Rightarrow> char res" where
  "state_loop [] = Inr (CHR ''U'')"
| "state_loop (l # ls) = bindE (sscanf_ss 32 128 (cstr l)) (\<lambda>r. case r of
      Some (tag, value) \<Rightarrow> if tag = ''State:'' then Inr (hd value) else state_loop ls
    | None \<Rightarrow> state_loop ls)"

definition getProcessState :: "int \<Rightarrow> files \<Rightarrow> char res" where
  "getProcessState nPID fs = (case fs (''/proc/'' @ show_int nPID @ ''/status'') of
      None \<Rightarrow> Inr (CHR ''U'')
    | Some c \<Rightarrow> state_loop (fgets_all 512 c))"

section \<open>The list of process numbers\<close>

definition is_match :: "string \<Rightarrow> string \<times> string option \<Rightarrow> bool" where
  "is_match pname e \<longleftrightarrow> numeric_name (fst e) \<and>
     (case snd e of None \<Rightarrow> False | Some t \<Rightarrow> t \<noteq> [] \<and> strstr (cstr (take 251 t)) pname)"

definition names_fit :: "proc_dir \<Rightarrow> bool" where
  "names_fit d \<longleftrightarrow> (\<forall>e \<in> set d. numeric_name (fst e) \<longrightarrow> length (fst e) \<le> 32)"

lemma entry_matches_eq: "numeric_name (fst e) \<longrightarrow> length (fst e) \<le> 32 \<Longrightarrow> entry_matches pname e = Inr (is_match pname e)"
  by (auto simp: entry_matches_def is_match_def split: option.splits)

lemma list_loop_eq:
  "names_fit d \<Longrightarrow> list_loop pname n d pids =
    Inr (pids @ take (nat n - length pids) (map (\<lambda>e. atoi (fst e)) (filter (is_match pname) d)))"
proof (induction d arbitrary: pids)
  case (Cons e d)
  then have e: "entry_matches pname e = Inr (is_match pname e)" "names_fit d"
    by (auto simp: names_fit_def entry_matches_eq)
  show ?case
  proof (cases "is_match pname e \<and> int (length pids) < n")
    case True
    then have "nat n - length pids = Suc (nat n - Suc (length pids))" by linarith
    with True e Cons.IH [OF e(2)] show ?thesis by simp
  next
    case False
    with e Cons.IH [OF e(2)] show ?thesis by (cases "is_match pname e") auto
  qed
qed simp

text \<open>
  \<open>getProcessIDList\<close> stores the process numbers of the matching entries of \<open>/proc\<close> in directory
  order, never more than the caller's array holds, and \<open>getProcessID\<close> returns the first of them, or 0.
\<close>

theorem process_list:
  assumes "names_fit d"
  shows "getProcessIDList pname n d = Inr (take (nat n) (map (\<lambda>e. atoi (fst e)) (filter (is_match pname) d))) \<and>
    getProcessID pname d = Inr (case filter (is_match pname) d of [] \<Rightarrow> 0 | e # _ \<Rightarrow> atoi (fst e))"
proof
  show "getProcessIDList pname n d = Inr (take (nat n) (map (\<lambda>e. atoi (fst e)) (filter (is_match pname) d)))"
    using list_loop_eq [OF assms, of pname n "[]"] by (simp add: getProcessIDList_def)
  show "getProcessID pname d = Inr (case filter (is_match pname) d of [] \<Rightarrow> 0 | e # _ \<Rightarrow> atoi (fst e))"
    using assms by (induction d) (auto simp: names_fit_def entry_matches_eq)
qed

theorem process_list_witness:
  "getProcessIDList ''ftmbcc'' 1 [(''self'', None), (''17'', Some ''/bin/ftmbcc''), (''23'', Some ''/bin/ftmbcc'')] = Inr [17] \<and>
   getProcessID ''ftmbcc'' [(''self'', None), (''17'', Some ''/bin/ftmbcc''), (''23'', Some ''/bin/ftmbcc'')] = Inr 17"
proof -
  let ?d = "[(''self'', None), (''17'', Some ''/bin/ftmbcc''), (''23'', Some ''/bin/ftmbcc'')]"
  have "names_fit ?d" by (simp add: names_fit_def)
  moreover have "filter (is_match ''ftmbcc'') ?d = [(''17'', Some ''/bin/ftmbcc''), (''23'', Some ''/bin/ftmbcc'')]"
    by (simp add: is_match_def numeric_name_def isdigit_def cstr_def)
  moreover have "atoi ''17'' = 17" by code_simp
  ultimately show ?thesis using process_list [of ?d "''ftmbcc''" 1] by simp
qed

end
