(* ===== verification/Ftmbcc.thy ===== *)
theory Ftmbcc
  imports Xutil Tty
begin

text \<open>
  \<open>apps/ftmbcc\<close>: the task daemon. \<open>xftmbcc.c\<close> starts it once and keeps a table of tasks in shared
  memory; its only task, \<open>tx200k.c\<close>, checks the modem on the serial port and starts \<open>pppd\<close>. The
  serial port is the sequence of texts that successive \<open>read\<close> calls return (empty: nothing to read or
  an error); the signal of the task at each turn comes from outside.
\<close>

section \<open>Data\<close>

datatype XFTMBCC_TASK_SIGNAL = XFTC_NONE | XFTC_START | XFTC_STOP

datatype XFTMBCC_TASK_STAT = XFTS_UNINITIALIZED | XFTS_INITIALIZING | XFTS_INITIALIZED | XFTS_START
  | XFTS_RESTART | XFTS_RUNNING | XFTS_STOPPING | XFTS_STOPPED | XFTS_WAIT_FOR_REINIT

definition TX200K_STAT_UNINITIALIZED :: int where "TX200K_STAT_UNINITIALIZED = 0"
definition TX200K_STAT_MODEM_CHECKED :: int where "TX200K_STAT_MODEM_CHECKED = 1"
definition TX200K_STAT_INITIALIZING :: int where "TX200K_STAT_INITIALIZING = 2"
definition TX200K_STAT_RUNNING :: int where "TX200K_STAT_RUNNING = 3"
definition TX200K_STAT_STOPPED :: int where "TX200K_STAT_STOPPED = 4"

lemmas tx_stats = TX200K_STAT_UNINITIALIZED_def TX200K_STAT_MODEM_CHECKED_def TX200K_STAT_INITIALIZING_def
  TX200K_STAT_RUNNING_def TX200K_STAT_STOPPED_def

record TX200K_DATA =
  tx_stat :: int
  nTimer :: int
  nPID :: int

record XFTMBCC_TASK =
  task_name :: string
  task_stat :: XFTMBCC_TASK_STAT
  task_pid :: int
  szPrivateData :: TX200K_DATA

record XFTMBCC_SHARED_MEM =
  nDaemonID :: int
  lpTasks :: "XFTMBCC_TASK list"

record bcc = os +
  reads :: "nat \<Rightarrow> string"
  rdpos :: nat
  wrote :: string
  serial_fd :: int
  open_fds :: nat
  sigs :: "nat \<Rightarrow> XFTMBCC_TASK_SIGNAL"
  turn :: nat
  nWaitFlag :: bool
  sigio_handler :: bool
  fd_flags :: "32 word"
  port_settings :: termios

section \<open>The serial port\<close>

definition SERIAL_CONTROL :: "32 word" where "SERIAL_CONTROL = CS8 OR CREAD"

definition PMUC_SignalHandler :: "bcc \<Rightarrow> bcc" where
  "PMUC_SignalHandler w = w\<lparr>nWaitFlag := False\<rparr>"

datatype poll_code = POLL_IN | POLL_OUT | POLL_OTHER

definition PMUC_SignalIOHandler :: "poll_code \<Rightarrow> bcc \<Rightarrow> bcc" where
  "PMUC_SignalIOHandler si_code w = (case si_code of POLL_IN \<Rightarrow> w\<lparr>nWaitFlag := False\<rparr> | _ \<Rightarrow> w)"

text \<open>
  \<open>F_SETFL\<close> with \<open>FASYNC\<close> alone also clears \<open>O_NONBLOCK\<close>; the access mode stays. The output and local flags of
  \<open>newtio\<close> are never assigned. The handler that is installed is the one without the signal information.
\<close>

definition serialConfiguration :: "string \<Rightarrow> 32 word \<Rightarrow> bool \<Rightarrow> bcc \<Rightarrow> int \<times> bcc" where
  "serialConfiguration device baudrate parity w = (if serial_fd w < 0 then (serial_fd w, w)
     else (serial_fd w, w\<lparr>open_fds := open_fds w + 1, sigio_handler := True, fd_flags := O_RDWR OR FASYNC,
       port_settings := \<lparr>c_iflag = Some (if \<not> parity then IGNPAR OR PARMRK else PARMRK), c_oflag = None,
         c_cflag = Some (baudrate OR CLOCAL OR SERIAL_CONTROL), c_lflag = None, c_vmin = Some 0, c_vtime = Some 0\<rparr>\<rparr>))"

text \<open>\<open>open_serial\<close> opens \<open>/dev/ttyS1\<close> at 115200 baud whatever device and speed it is given.\<close>

definition open_serial :: "string \<Rightarrow> int \<Rightarrow> bcc \<Rightarrow> int \<times> bcc" where
  "open_serial dev_name baud w = serialConfiguration ''/dev/ttyS1'' B115200 False w"

definition close_serial :: "bcc \<Rightarrow> bcc" where
  "close_serial w = w\<lparr>open_fds := open_fds w - 1\<rparr>"

text \<open>The inner loop of the check: read until nothing comes, or until a text contains \<open>OK\<close>.\<close>

partial_function (option) read_until_ok :: "(nat \<Rightarrow> string) \<Rightarrow> nat \<Rightarrow> (bool \<times> nat) option" where
  "read_until_ok rd i = (if rd i = [] then Some (False, i + 1)
     else if strstr (cstr (take 127 (rd i))) ''OK'' then Some (True, i + 1)
     else read_until_ok rd (i + 1))"

declare read_until_ok.simps [code]

fun check_loop :: "nat \<Rightarrow> bcc \<Rightarrow> (bool \<times> bcc) option" where
  "check_loop 0 w = Some (False, w)"
| "check_loop (Suc n) w = (case read_until_ok (reads w) (rdpos w) of
      None \<Rightarrow> None
    | Some (ok, i) \<Rightarrow> (let w1 = w\<lparr>wrote := wrote w @ ''AT'' @ [nl], rdpos := i\<rparr> in
        if ok then Some (True, w1) else check_loop n w1))"

text \<open>On success the port is left open.\<close>

definition TX200K_ConnectionCheck :: "string \<Rightarrow> bcc \<Rightarrow> (int \<times> bcc) option" where
  "TX200K_ConnectionCheck lpszDeviceName w = (case open_serial lpszDeviceName 115200 w of
     (fd, w1) \<Rightarrow> if fd < 0 then Some (- 2, w1)
       else (case check_loop 5 w1 of
           None \<Rightarrow> None
         | Some (ok, w2) \<Rightarrow> if ok then Some (0, w2) else Some (- 1, close_serial w2)))"

section \<open>The task\<close>

definition TX200K_IsTaskAlive :: "XFTMBCC_TASK \<Rightarrow> XFTMBCC_TASK_STAT" where
  "TX200K_IsTaskAlive pTask = (let s = tx_stat (szPrivateData pTask) in
     if s = TX200K_STAT_MODEM_CHECKED \<or> s = TX200K_STAT_INITIALIZING then XFTS_INITIALIZING
     else if s = TX200K_STAT_RUNNING then XFTS_RUNNING
     else if s = TX200K_STAT_UNINITIALIZED \<or> s = TX200K_STAT_STOPPED then XFTS_STOPPED
     else XFTS_UNINITIALIZED)"

definition TX200K_Init :: "shell \<Rightarrow> TX200K_DATA \<Rightarrow> bcc \<Rightarrow> (int \<times> TX200K_DATA \<times> bcc) res" where
  "TX200K_Init sh pData w = bindE (system_wait sh ''pppd call tx200k'' w) (\<lambda>w.
     Inr (0, pData\<lparr>tx_stat := TX200K_STAT_INITIALIZING, nTimer := 10\<rparr>, w))"

text \<open>
  \<open>fscanf(fp, "%d", &nPID) != 0\<close> is also true at the end of the file, when \<open>nPID\<close> is not set.
\<close>

definition read_pid :: "string \<Rightarrow> int option res" where
  "read_pid c = (case scanf_d c of
      Some (n, _) \<Rightarrow> Inr (Some n)
    | None \<Rightarrow> if dropWhile isspace c = [] then Inl UninitRead else Inr None)"

definition watch_init :: "TX200K_DATA \<Rightarrow> bcc \<Rightarrow> TX200K_DATA res" where
  "watch_init pData w = (case files w ''/var/run/ppp0.pid'' of
      None \<Rightarrow> Inr pData
    | Some c \<Rightarrow> bindE (read_pid c) (\<lambda>r. case r of
        None \<Rightarrow> Inr pData
      | Some n \<Rightarrow> bindE (getProcessState n (files w)) (\<lambda>st.
          Inr (if st = CHR ''R'' \<or> st = CHR ''S''
            then pData\<lparr>nPID := n, nTimer := 10, tx_stat := TX200K_STAT_RUNNING\<rparr> else pData))))"

definition watch_run :: "TX200K_DATA \<Rightarrow> bcc \<Rightarrow> TX200K_DATA res" where
  "watch_run pData w = (let pData = pData\<lparr>nTimer := nTimer pData - 1\<rparr> in
     if 0 < nTimer pData then Inr pData
     else bindE (getProcessState (nPID pData) (files w)) (\<lambda>st.
       Inr (if st = CHR ''Z'' \<or> st = CHR ''U'' then pData\<lparr>tx_stat := TX200K_STAT_STOPPED\<rparr> else pData)))"

text \<open>The second switch of the loop.\<close>

definition tx_watch :: "TX200K_DATA \<Rightarrow> bcc \<Rightarrow> (TX200K_DATA \<times> bcc) run" where
  "tx_watch pData w =
     (if tx_stat pData = TX200K_STAT_UNINITIALIZED then
        (case TX200K_ConnectionCheck ''/dev/ttyS1'' w of
           None \<Rightarrow> None
         | Some (r, w1) \<Rightarrow> Some (Inr (if r = 0 then pData\<lparr>tx_stat := TX200K_STAT_MODEM_CHECKED\<rparr> else pData, w1)))
      else if tx_stat pData = TX200K_STAT_INITIALIZING then Some (bindE (watch_init pData w) (\<lambda>d. Inr (d, w)))
      else if tx_stat pData = TX200K_STAT_RUNNING then Some (bindE (watch_run pData w) (\<lambda>d. Inr (d, w)))
      else Some (Inr (pData, w)))"

text \<open>
  One turn of the loop of \<open>TX200K_Main\<close>: \<open>Inl\<close> the data for the next turn, or \<open>Inr\<close> the value the
  function returns.
\<close>

definition tx_turn :: "shell \<Rightarrow> TX200K_DATA \<times> bcc \<Rightarrow> (TX200K_DATA \<times> bcc + int \<times> TX200K_DATA \<times> bcc) run" where
  "tx_turn sh c = (case c of (pData, w) \<Rightarrow>
     (let signal = sigs w (turn w); w = w\<lparr>turn := turn w + 1\<rparr> in
      if signal = XFTC_START \<and> (tx_stat pData = TX200K_STAT_MODEM_CHECKED \<or> tx_stat pData = TX200K_STAT_STOPPED)
      then bindR (Some (TX200K_Init sh pData w)) (\<lambda>r. Some (Inr (Inr r)))
      else if signal = XFTC_STOP then Some (Inr (Inr (0, pData, w)))
      else bindR (tx_watch pData w) (\<lambda>(d, w1). Some (Inr (Inl (d, sleep 1 w1))))))"

text \<open>\<open>TX200K_Main\<close>, at most \<open>n\<close> turns.\<close>

fun tx_loop :: "nat \<Rightarrow> shell \<Rightarrow> TX200K_DATA \<times> bcc \<Rightarrow> (TX200K_DATA \<times> bcc + int \<times> TX200K_DATA \<times> bcc) run" where
  "tx_loop 0 sh c = Some (Inr (Inl c))"
| "tx_loop (Suc n) sh c = bindR (tx_turn sh c) (\<lambda>x. case x of
      Inl c' \<Rightarrow> tx_loop n sh c' | Inr r \<Rightarrow> Some (Inr (Inr r)))"

definition TX200K_Main :: "nat \<Rightarrow> shell \<Rightarrow> bcc \<Rightarrow> (TX200K_DATA \<times> bcc + int \<times> TX200K_DATA \<times> bcc) run" where
  "TX200K_Main n sh w = tx_loop n sh (\<lparr>tx_stat = TX200K_STAT_UNINITIALIZED, nTimer = 5, nPID = 0\<rparr>, w)"

text \<open>The forked child marks the task and runs \<open>TX200K_Main\<close>; the parent notes its process number.\<close>

definition TX200K_TaskInit :: "int \<Rightarrow> XFTMBCC_TASK \<Rightarrow> int \<times> XFTMBCC_TASK" where
  "TX200K_TaskInit fork_pid pTask = (if fork_pid = - 1 then (- 1, pTask\<lparr>task_stat := XFTS_STOPPED\<rparr>)
     else (0, pTask\<lparr>task_stat := XFTS_INITIALIZING, task_pid := fork_pid\<rparr>))"

text \<open>The process that gets \<open>SIGTERM\<close>, if any, and the task.\<close>

definition TX200K_Reset :: "XFTMBCC_TASK \<Rightarrow> int option \<times> XFTMBCC_TASK" where
  "TX200K_Reset pTask = (if task_pid pTask \<noteq> 0 then Some (task_pid pTask) else None, pTask\<lparr>task_pid := 0\<rparr>)"

section \<open>The daemon\<close>

definition XFTMBCC_Init :: "XFTMBCC_SHARED_MEM \<Rightarrow> TX200K_DATA \<Rightarrow> XFTMBCC_SHARED_MEM" where
  "XFTMBCC_Init m old = m\<lparr>lpTasks := [\<lparr>task_name = ''TX200K'', task_stat = XFTS_UNINITIALIZED, task_pid = 0,
     szPrivateData = old\<rparr>]\<rparr>"

text \<open>One turn over the tasks; \<open>fork_pid\<close> is what \<open>fork\<close> returns in it.\<close>

definition daemon_turn :: "int \<Rightarrow> XFTMBCC_SHARED_MEM \<Rightarrow> XFTMBCC_SHARED_MEM" where
  "daemon_turn fork_pid m = m\<lparr>lpTasks := map (\<lambda>t. case task_stat t of
      XFTS_UNINITIALIZED \<Rightarrow> snd (TX200K_TaskInit fork_pid t) | _ \<Rightarrow> t) (lpTasks m)\<rparr>"

text \<open>
  \<open>XFTMBCC_StartDaemon\<close> in the process \<open>self\<close>: return value, shared memory, and whether a child was
  forked that enters \<open>XFTMBCC_Main\<close>.
\<close>

definition other_daemon :: "int \<Rightarrow> proc_dir \<Rightarrow> XFTMBCC_SHARED_MEM \<Rightarrow> bool res" where
  "other_daemon self procs m =
     bindE (if nDaemonID m \<noteq> 0 then getProcessIDList ''ftmbcc'' 8 procs else Inr []) (\<lambda>lpPIDs.
       Inr (\<exists>p \<in> set lpPIDs. p \<noteq> self))"

definition XFTMBCC_StartDaemon ::
  "int \<Rightarrow> int \<Rightarrow> proc_dir \<Rightarrow> XFTMBCC_SHARED_MEM option \<Rightarrow> (int \<times> XFTMBCC_SHARED_MEM option \<times> bool) res" where
  "XFTMBCC_StartDaemon self fork_pid procs shm = (case shm of
      None \<Rightarrow> Inr (- 1, None, False)
    | Some m \<Rightarrow>
       bindE (other_daemon self procs m) (\<lambda>found.
         if found then Inr (0, Some m, False)
         else if fork_pid = - 1 then Inr (- 1, Some m, False)
         else Inr (0, Some (m\<lparr>nDaemonID := fork_pid\<rparr>), True)))"

text \<open>
  \<open>main\<close>: the options in the order of \<open>getopt_long\<close>, then \<open>XSD_Init\<close>, which attaches the segment or creates
  it with zeros, and the daemon if \<open>-d\<close> was among the options. The result has the exit status, the text
  printed, the shared memory and whether a daemon was forked.
\<close>

datatype bcc_opt = BccLong | BccDaemon | BccInvalid

fun bcc_options :: "string \<Rightarrow> bcc_opt list \<Rightarrow> string \<Rightarrow> bool \<Rightarrow> string \<times> bool option" where
  "bcc_options prog [] outp onDaemon = (outp, Some onDaemon)"
| "bcc_options prog (BccLong # os) outp onDaemon = bcc_options prog os (outp @ ''Long option : daemon'' @ [nl]) onDaemon"
| "bcc_options prog (BccDaemon # os) outp onDaemon = bcc_options prog os outp True"
| "bcc_options prog (BccInvalid # os) outp onDaemon = (outp @ ''Usage : '' @ prog @ '' [-d]'' @ [nl], None)"

definition bcc_shared :: "bool \<Rightarrow> XFTMBCC_SHARED_MEM option \<Rightarrow> XFTMBCC_SHARED_MEM option" where
  "bcc_shared can_create shm = (case shm of Some m \<Rightarrow> Some m
    | None \<Rightarrow> if can_create then Some \<lparr>nDaemonID = 0, lpTasks = []\<rparr> else None)"

definition bcc_main ::
  "string \<Rightarrow> bcc_opt list \<Rightarrow> bool \<Rightarrow> int \<Rightarrow> int \<Rightarrow> proc_dir \<Rightarrow> XFTMBCC_SHARED_MEM option \<Rightarrow>
   (int \<times> string \<times> XFTMBCC_SHARED_MEM option \<times> bool) res" where
  "bcc_main prog opts can_create self fork_pid procs shm = (case bcc_options prog opts [] False of
      (outp, None) \<Rightarrow> Inr (1, outp, shm, False)
    | (outp, Some onDaemon) \<Rightarrow> (let shm = bcc_shared can_create shm in
        if onDaemon then bindE (XFTMBCC_StartDaemon self fork_pid procs shm) (\<lambda>(_, m, forked). Inr (0, outp, m, forked))
        else Inr (0, outp, shm, False)))"

section \<open>The check of the port returns\<close>

text \<open>The first read from \<open>i\<close> on that is empty or contains \<open>OK\<close> ends the inner loop.\<close>

definition is_ok :: "string \<Rightarrow> bool" where
  "is_ok s \<longleftrightarrow> strstr (cstr (take 127 s)) ''OK''"

lemma is_ok_Nil [simp]: "\<not> is_ok []"
  by (simp add: is_ok_def)

lemma read_until_ok_stop:
  "rd j = [] \<or> is_ok (rd j) \<Longrightarrow> \<forall>k. i \<le> k \<longrightarrow> k < j \<longrightarrow> rd k \<noteq> [] \<and> \<not> is_ok (rd k) \<Longrightarrow> i \<le> j \<Longrightarrow>
   read_until_ok rd i = Some (rd j \<noteq> [], j + 1)"
proof (induction "j - i" arbitrary: i)
  case 0
  then have ij: "i = j" by simp
  from 0(2) show ?case unfolding ij by (auto simp: read_until_ok.simps [of rd j] is_ok_def)
next
  case (Suc d)
  then have "rd i \<noteq> []" "\<not> is_ok (rd i)" by auto
  moreover have "read_until_ok rd (Suc i) = Some (rd j \<noteq> [], j + 1)" using Suc by (intro Suc.hyps) auto
  ultimately show ?case by (simp add: read_until_ok.simps [of rd i] is_ok_def)
qed

lemma read_until_ok_returns:
  assumes "\<forall>i. \<exists>j \<ge> i. rd j = []"
  obtains ok j where "read_until_ok rd i = Some (ok, j)" "ok \<longrightarrow> is_ok (rd (j - 1))"
proof -
  define j where "j = (LEAST k. i \<le> k \<and> (rd k = [] \<or> is_ok (rd k)))"
  have ex: "\<exists>k. i \<le> k \<and> (rd k = [] \<or> is_ok (rd k))" using assms by blast
  have j: "i \<le> j \<and> (rd j = [] \<or> is_ok (rd j))" unfolding j_def by (rule LeastI_ex [OF ex])
  have "\<forall>k. i \<le> k \<longrightarrow> k < j \<longrightarrow> rd k \<noteq> [] \<and> \<not> is_ok (rd k)"
    unfolding j_def using not_less_Least by blast
  with j have "read_until_ok rd i = Some (rd j \<noteq> [], j + 1)" by (intro read_until_ok_stop) auto
  with j show thesis by (intro that) auto
qed

lemma check_loop_returns:
  assumes "\<forall>i. \<exists>j \<ge> i. reads w j = []"
  shows "\<exists>ok w'. check_loop n w = Some (ok, w') \<and> (ok \<longrightarrow> (\<exists>i. is_ok (reads w i))) \<and>
    open_fds w' = open_fds w \<and> cmds w' = cmds w \<and> files w' = files w"
  using assms
proof (induction n arbitrary: w)
  case (Suc n)
  obtain ok j where r: "read_until_ok (reads w) (rdpos w) = Some (ok, j)" "ok \<longrightarrow> is_ok (reads w (j - 1))"
    by (rule read_until_ok_returns [OF Suc.prems, of "rdpos w"])
  let ?w = "w\<lparr>wrote := wrote w @ ''AT'' @ [nl], rdpos := j\<rparr>"
  show ?case
  proof (cases ok)
    case True
    with r show ?thesis by (auto simp: Let_def)
  next
    case False
    with r Suc.IH [of ?w] Suc.prems show ?thesis by (auto simp: Let_def)
  qed
qed auto

section \<open>Properties of the task daemon\<close>

text \<open>
  C36. The modem check ends. If the port keeps falling silent, \<open>TX200K_ConnectionCheck\<close> returns; it
  returns 0 only if some text read contained \<open>OK\<close>, and then leaves one more descriptor open, while a
  failed check closes the port again.
\<close>

theorem ConnectionCheck_returns:
  assumes "\<forall>i. \<exists>j \<ge> i. reads w j = []" "0 \<le> serial_fd w"
  shows "\<exists>r w'. TX200K_ConnectionCheck dev w = Some (r, w') \<and> (r = 0 \<or> r = - 1) \<and>
    (r = 0 \<longrightarrow> (\<exists>i. strstr (cstr (take 127 (reads w i))) ''OK'') \<and> open_fds w' = open_fds w + 1) \<and>
    (r = - 1 \<longrightarrow> open_fds w' = open_fds w)"
proof -
  obtain v where o: "open_serial dev 115200 w = (serial_fd w, v)" "open_fds v = open_fds w + 1" "reads v = reads w"
    using assms(2) by (simp add: open_serial_def serialConfiguration_def)
  obtain ok w' where c: "check_loop 5 v = Some (ok, w')" "ok \<longrightarrow> (\<exists>i. is_ok (reads v i))"
    "open_fds w' = open_fds v"
    using check_loop_returns [of v 5] assms(1) o(3) by auto
  have "TX200K_ConnectionCheck dev w = (if ok then Some (0, w') else Some (- 1, close_serial w'))"
    using assms(2) c(1) o(1) by (simp add: TX200K_ConnectionCheck_def)
  with c(2,3) o(2,3) show ?thesis by (cases ok) (auto simp: is_ok_def close_serial_def)
qed

definition bcc0 :: "string \<Rightarrow> (nat \<Rightarrow> XFTMBCC_TASK_SIGNAL) \<Rightarrow> bcc" where
  "bcc0 answer sg = \<lparr>files = Map.empty, wperm = \<lambda>_. True, cmds = [], out = [], clock = 0,
     reads = \<lambda>i. if i = 0 then answer else [], rdpos = 0, wrote = [], serial_fd = 3, open_fds = 0, sigs = sg, turn = 0,
     nWaitFlag = True, sigio_handler = False, fd_flags = 0, port_settings = indeterminate\<rparr>"

lemma bcc0_silent: "\<forall>i. \<exists>j \<ge> i. reads (bcc0 answer sg) j = []"
proof
  fix i show "\<exists>j \<ge> i. reads (bcc0 answer sg) j = []" by (rule exI [of _ "Suc i"]) (simp add: bcc0_def)
qed

theorem ConnectionCheck_returns_witness:
  "\<exists>r w'. TX200K_ConnectionCheck ''/dev/ttyS1'' (bcc0 (''OK'' @ [nl]) (\<lambda>_. XFTC_NONE)) = Some (r, w') \<and> (r = 0 \<or> r = - 1)"
  using ConnectionCheck_returns [OF bcc0_silent, of "''OK'' @ [nl]" "\<lambda>_. XFTC_NONE" "''/dev/ttyS1''"]
  by (auto simp: bcc0_def)

lemma tx_turn_stat:
  assumes "tx_turn sh (d, w) = Some (Inr (Inl (d', w')))"
    and "tx_stat d \<in> {TX200K_STAT_UNINITIALIZED, TX200K_STAT_MODEM_CHECKED}"
  shows "tx_stat d' \<in> {TX200K_STAT_UNINITIALIZED, TX200K_STAT_MODEM_CHECKED}"
  using assms
  by (auto simp: tx_turn_def tx_watch_def Let_def bindR_eq_Inr_iff tx_stats split: if_splits option.splits prod.splits)

lemma tx_loop_stat:
  "tx_loop n sh (d, w) = Some (Inr (Inl (d', w'))) \<Longrightarrow>
   tx_stat d \<in> {TX200K_STAT_UNINITIALIZED, TX200K_STAT_MODEM_CHECKED} \<Longrightarrow>
   tx_stat d' \<in> {TX200K_STAT_UNINITIALIZED, TX200K_STAT_MODEM_CHECKED}"
proof (induction n arbitrary: d w)
  case (Suc n)
  from Suc.prems(1) obtain x where x: "tx_turn sh (d, w) = Some (Inr x)"
    "(case x of Inl c' \<Rightarrow> tx_loop n sh c' | Inr r \<Rightarrow> Some (Inr (Inr r))) = Some (Inr (Inl (d', w')))"
    by (auto simp: bindR_eq_Inr_iff)
  then obtain d1 w1 where "x = Inl (d1, w1)" "tx_loop n sh (d1, w1) = Some (Inr (Inl (d', w')))"
    by (cases x) auto
  with Suc.IH [of d1 w1] tx_turn_stat [of sh d w d1 w1] x(1) Suc.prems(2) show ?case by simp
qed simp

text \<open>
  The link is never watched. While \<open>TX200K_Main\<close> runs, its status is uninitialised or modem checked,
  whatever the signals, the port and the processes do: the branches that watch \<open>pppd\<close> are not reached,
  because the function returns as soon as it has started \<open>pppd\<close>.
\<close>

theorem link_never_watched:
  assumes "TX200K_Main n sh w = Some (Inr (Inl (d, w')))"
  shows "tx_stat d \<in> {TX200K_STAT_UNINITIALIZED, TX200K_STAT_MODEM_CHECKED}"
  using tx_loop_stat [OF assms [unfolded TX200K_Main_def]] by simp

theorem link_never_watched_witness:
  "\<exists>d w'. TX200K_Main 1 (\<lambda>_ _ fs. Some ([], fs)) (bcc0 ''OK'' (\<lambda>_. XFTC_NONE)) = Some (Inr (Inl (d, w'))) \<and>
    tx_stat d \<in> {TX200K_STAT_UNINITIALIZED, TX200K_STAT_MODEM_CHECKED}"
proof -
  have "strstr (cstr (take 127 ''OK'')) ''OK''" by (simp add: cstr_def)
  then have "\<exists>d w'. TX200K_Main 1 (\<lambda>_ _ fs. Some ([], fs)) (bcc0 ''OK'' (\<lambda>_. XFTC_NONE)) = Some (Inr (Inl (d, w')))"
    by (simp add: TX200K_Main_def tx_turn_def tx_watch_def TX200K_ConnectionCheck_def open_serial_def
        serialConfiguration_def bcc0_def
        numeral_eq_Suc read_until_ok.simps Let_def)
  with link_never_watched show ?thesis by blast
qed

text \<open>
  Starting the link. In the turn that sees the start signal after a successful modem check,
  \<open>TX200K_Main\<close> runs \<open>pppd call tx200k\<close> and returns 0 with the status initialising.
\<close>

theorem start_runs_pppd:
  assumes "tx_stat d = TX200K_STAT_MODEM_CHECKED" "sigs w (turn w) = XFTC_START" "shell_up sh"
  shows "\<exists>d' w'. tx_turn sh (d, w) = Some (Inr (Inr (0, d', w'))) \<and> tx_stat d' = TX200K_STAT_INITIALIZING \<and>
    cmds w' = cmds w @ [''pppd call tx200k'']"
proof -
  let ?w = "w\<lparr>turn := turn w + 1\<rparr>"
  obtain a w' where p: "popen sh ''pppd call tx200k'' ?w = (Some a, w')" by (rule shell_up_popen [OF assms(3)])
  then have "cmds w' = cmds w @ [''pppd call tx200k'']" using popen_cmds [OF p] by simp
  with p assms(1,2) show ?thesis by (simp add: tx_turn_def Let_def TX200K_Init_def system_wait_def)
qed

theorem start_runs_pppd_witness:
  "\<exists>d' w'. tx_turn (\<lambda>_ _ fs. Some ([], fs)) (\<lparr>tx_stat = TX200K_STAT_MODEM_CHECKED, nTimer = 5, nPID = 0\<rparr>,
      bcc0 [] (\<lambda>_. XFTC_START)) = Some (Inr (Inr (0, d', w'))) \<and> cmds w' = [''pppd call tx200k'']"
  using start_runs_pppd [of "\<lparr>tx_stat = TX200K_STAT_MODEM_CHECKED, nTimer = 5, nPID = 0\<rparr>"
      "bcc0 [] (\<lambda>_. XFTC_START)" "\<lambda>_ _ fs. Some ([], fs)"]
  by (auto simp: bcc0_def shell_up_def)

text \<open>
  One daemon. If the shared memory names a daemon and one of the first eight processes of the
  program is another one, \<open>XFTMBCC_StartDaemon\<close> forks nothing and changes nothing; if there is no other
  process, it forks and records the new daemon.
\<close>

theorem single_daemon:
  assumes "names_fit procs" "fork_pid \<noteq> - 1"
  shows "XFTMBCC_StartDaemon self fork_pid procs (Some m) =
    (if nDaemonID m \<noteq> 0 \<and> (\<exists>e \<in> set (take 8 (filter (is_match ''ftmbcc'') procs)). atoi (fst e) \<noteq> self)
     then Inr (0, Some m, False) else Inr (0, Some (m\<lparr>nDaemonID := fork_pid\<rparr>), True))"
  using assms list_loop_eq [OF assms(1), of "''ftmbcc''" 8 "[]"]
  by (auto simp: XFTMBCC_StartDaemon_def other_daemon_def getProcessIDList_def take_map)

theorem single_daemon_witness:
  "XFTMBCC_StartDaemon 5 9 [(''self'', None)] (Some \<lparr>nDaemonID = 3, lpTasks = []\<rparr>) =
    Inr (0, Some \<lparr>nDaemonID = 9, lpTasks = []\<rparr>, True)"
  using single_daemon [of "[(''self'', None)]" 9 5 "\<lparr>nDaemonID = 3, lpTasks = []\<rparr>"]
  by (simp add: names_fit_def is_match_def)

text \<open>
  A task is started at most once. After one turn of the daemon over its table every further turn
  leaves the table as it is, also when the task's process could not be forked or has ended.
\<close>

theorem tasks_started_once:
  "daemon_turn f (daemon_turn g m) = daemon_turn g m"
  by (simp add: daemon_turn_def TX200K_TaskInit_def split: XFTMBCC_TASK_STAT.splits)

end
