(* ===== verification/Daemon.thy ===== *)
theory Daemon
  imports Ftmbcc
begin

text \<open>
  Several calls of \<open>ftmbcc -d\<close> and the processes they leave, as a step relation. A state has the shared memory
  and the stage of every process of the program: a starter before and after its look at \<open>/proc\<close>, a starter that
  has forked and not yet recorded its child, a daemon before and in its loop, and the child of a task. The steps
  are the accesses to shared memory and the system calls of \<open>XFTMBCC_StartDaemon\<close> and \<open>XFTMBCC_Main\<close>, which
  other processes can come between; the first argument says whether starts are serial.
\<close>

section \<open>Steps\<close>

datatype stage = Starting | Checked | Forked int | Booting | Serving | Task

type_synonym bcc_system = "XFTMBCC_SHARED_MEM \<times> (int \<rightharpoonup> stage)"

fun starts :: "stage option \<Rightarrow> bool" where
  "starts (Some Starting) = True" | "starts (Some Checked) = True" | "starts (Some (Forked c)) = True" | "starts _ = False"

fun serves :: "stage option \<Rightarrow> bool" where
  "serves (Some Booting) = True" | "serves (Some Serving) = True" | "serves _ = False"

text \<open>A listing of \<open>/proc\<close> in which the entries of the program are the processes of the state, in any order.\<close>

definition lists :: "proc_dir \<Rightarrow> (int \<rightharpoonup> stage) \<Rightarrow> bool" where
  "lists d P \<longleftrightarrow> names_fit d \<and> (let pids = map (\<lambda>e. atoi (fst e)) (filter (is_match ''ftmbcc'') d) in
     distinct pids \<and> set pids = dom P)"

definition pending :: "XFTMBCC_SHARED_MEM \<Rightarrow> bool" where
  "pending m \<longleftrightarrow> list_ex (\<lambda>t. task_stat t = XFTS_UNINITIALIZED) (lpTasks m)"

inductive bcc_step :: "bool \<Rightarrow> bcc_system \<Rightarrow> bcc_system \<Rightarrow> bool" for serial where
  spawn: "P p = None \<Longrightarrow> 0 < p \<Longrightarrow> serial \<longrightarrow> (\<forall>q. \<not> starts (P q)) \<Longrightarrow> bcc_step serial (m, P) (m, P(p \<mapsto> Starting))"
| found: "P p = Some Starting \<Longrightarrow> lists d P \<Longrightarrow> other_daemon p d m = Inr True \<Longrightarrow> bcc_step serial (m, P) (m, P(p := None))"
| alone: "P p = Some Starting \<Longrightarrow> lists d P \<Longrightarrow> other_daemon p d m = Inr False \<Longrightarrow> bcc_step serial (m, P) (m, P(p \<mapsto> Checked))"
| fork: "P p = Some Checked \<Longrightarrow> P c = None \<Longrightarrow> 0 < c \<Longrightarrow> bcc_step serial (m, P) (m, P(p \<mapsto> Forked c, c \<mapsto> Booting))"
| no_fork: "P p = Some Checked \<Longrightarrow> bcc_step serial (m, P) (m, P(p := None))"
| record_child: "P p = Some (Forked c) \<Longrightarrow> bcc_step serial (m, P) (m\<lparr>nDaemonID := c\<rparr>, P(p := None))"
| table: "P c = Some Booting \<Longrightarrow> bcc_step serial (m, P) (XFTMBCC_Init m old, P(c \<mapsto> Serving))"
| start_task: "P c = Some Serving \<Longrightarrow> pending m \<Longrightarrow> P t = None \<Longrightarrow> 0 < t \<Longrightarrow>
    bcc_step serial (m, P) (daemon_turn t m, P(t \<mapsto> Task))"
| no_task: "P c = Some Serving \<Longrightarrow> bcc_step serial (m, P) (daemon_turn (- 1) m, P)"
| died: "serves (P c) \<or> P c = Some Task \<Longrightarrow> bcc_step serial (m, P) (m, P(c := None))"

inductive bcc_reach :: "bool \<Rightarrow> bcc_system \<Rightarrow> bool" for serial where
  boot: "bcc_reach serial (\<lparr>nDaemonID = 0, lpTasks = []\<rparr>, Map.empty)"
| step: "bcc_reach serial c \<Longrightarrow> bcc_step serial c c' \<Longrightarrow> bcc_reach serial c'"

section \<open>Serial starts\<close>

lemma nDaemonID_kept [simp]: "nDaemonID (XFTMBCC_Init m old) = nDaemonID m" "nDaemonID (daemon_turn t m) = nDaemonID m"
  by (simp_all add: XFTMBCC_Init_def daemon_turn_def)

text \<open>A starter that sees no other process is alone, or no daemon was ever recorded.\<close>

lemma distinct_take_two:
  assumes "distinct xs" "\<forall>x \<in> set (take 8 xs). x = p"
  shows "set xs \<subseteq> {p}"
proof (cases xs)
  case (Cons x ys)
  then show ?thesis using assms by (cases ys) auto
qed simp

lemma alone_sees:
  assumes "lists d P" "other_daemon p d m = Inr False"
  shows "nDaemonID m = 0 \<or> dom P \<subseteq> {p}"
proof (rule disjCI)
  assume "\<not> dom P \<subseteq> {p}"
  let ?l = "map (\<lambda>e. atoi (fst e)) (filter (is_match ''ftmbcc'') d)"
  have l: "distinct ?l" "set ?l = dom P" "names_fit d" using assms(1) by (simp_all add: lists_def Let_def)
  then have "\<not> (\<forall>x \<in> set (take 8 ?l). x = p)" using distinct_take_two [of ?l p] \<open>\<not> dom P \<subseteq> {p}\<close> by auto
  then show "nDaemonID m = 0"
    using assms(2) list_loop_eq [OF l(3), of "''ftmbcc''" 8 "[]"]
    by (auto simp: other_daemon_def getProcessIDList_def split: if_splits)
qed

text \<open>The starters are at most one, and the daemons are at most the one given.\<close>

definition lone :: "(int \<rightharpoonup> stage) \<Rightarrow> bool" where
  "lone P \<longleftrightarrow> (\<forall>p q. starts (P p) \<and> starts (P q) \<longrightarrow> p = q)"

definition only :: "(int \<rightharpoonup> stage) \<Rightarrow> int \<Rightarrow> bool" where
  "only P c \<longleftrightarrow> (\<forall>q. serves (P q) \<longrightarrow> q = c)"

lemma loneD: "lone P \<Longrightarrow> starts (P p) \<Longrightarrow> starts (P q) \<Longrightarrow> p = q"
  by (auto simp: lone_def)

lemma lone_upd: "lone P \<Longrightarrow> starts x \<longrightarrow> starts (P p) \<or> (\<forall>q. \<not> starts (P q)) \<Longrightarrow> lone (P(p := x))"
  unfolding lone_def by (metis fun_upd_apply)

lemma only_upd: "only P c \<Longrightarrow> serves x \<longrightarrow> p = c \<Longrightarrow> only (P(p := x)) c"
  unfolding only_def by (metis fun_upd_apply)

text \<open>
  The daemon of a state: none may run while a starter is about to fork, the child while it is not recorded, and
  otherwise the process that the shared memory names.
\<close>

fun daemon_of :: "XFTMBCC_SHARED_MEM \<Rightarrow> stage option \<Rightarrow> int" where
  "daemon_of m (Some Checked) = 0"
| "daemon_of m (Some (Forked c)) = c"
| "daemon_of m _ = nDaemonID m"

definition daemon_inv :: "bcc_system \<Rightarrow> bool" where
  "daemon_inv c \<longleftrightarrow> (case c of (m, P) \<Rightarrow> lone P \<and> (\<forall>p \<in> dom P. 0 < p) \<and>
     (\<forall>p. starts (P p) \<longrightarrow> only P (daemon_of m (P p))) \<and> (\<forall>p c. P p = Some (Forked c) \<longrightarrow> 0 < c) \<and>
     ((\<forall>p. \<not> starts (P p)) \<longrightarrow> only P (nDaemonID m)))"

lemma daemon_invI:
  assumes "lone P" "\<And>p. p \<in> dom P \<Longrightarrow> 0 < p" "\<And>p. starts (P p) \<Longrightarrow> only P (daemon_of m (P p))"
    and "\<And>p c. P p = Some (Forked c) \<Longrightarrow> 0 < c" "(\<And>p. \<not> starts (P p)) \<Longrightarrow> only P (nDaemonID m)"
  shows "daemon_inv (m, P)"
  using assms by (auto simp: daemon_inv_def)

lemma starter_only:
  assumes "daemon_inv (m, P)" "P p = Some s" "starts (Some s)"
  shows "only P (daemon_of m (Some s))"
proof -
  have "starts (P p) \<longrightarrow> only P (daemon_of m (P p))" using assms(1) unfolding daemon_inv_def prod.case by blast
  with assms(2,3) show ?thesis by simp
qed

lemma serves_pos: "daemon_inv (m, P) \<Longrightarrow> serves (P q) \<Longrightarrow> 0 < q"
  by (cases "P q") (auto simp: daemon_inv_def dom_def)

lemma checked_none:
  assumes "daemon_inv (m, P)" "P p = Some Checked" shows "only P c"
proof -
  have "only P 0" using starter_only [OF assms] by simp
  then have "\<not> serves (P q)" for q using serves_pos [OF assms(1), of q] by (auto simp: only_def)
  then show ?thesis by (simp add: only_def)
qed

text \<open>
  After a step of the starter \<open>p\<close> to the stage \<open>x\<close> only the condition of that stage has to be shown.
\<close>

lemma starter_step:
  assumes "daemon_inv (m, P)" "starts (P p)" "starts x \<longrightarrow> only P (daemon_of m' x)" "\<not> starts x \<longrightarrow> only P (nDaemonID m')"
    and "\<And>c. x = Some (Forked c) \<Longrightarrow> 0 < c" "\<not> serves x"
  shows "daemon_inv (m', P(p := x))"
proof (rule daemon_invI)
  have i: "lone P" "\<And>p. p \<in> dom P \<Longrightarrow> 0 < p" "\<And>p c. P p = Some (Forked c) \<Longrightarrow> 0 < c"
    using assms(1) by (auto simp: daemon_inv_def)
  have p: "q = p" if "starts (P q)" for q using loneD [OF i(1) that assms(2)] .
  show "lone (P(p := x))" using i(1) assms(2) by (simp add: lone_upd)
  show "0 < q" if "q \<in> dom (P(p := x))" for q using that i(2) [of q] i(2) [of p] assms(2) by (cases "P p") (auto split: if_splits)
  show "only (P(p := x)) (daemon_of m' ((P(p := x)) q))" if "starts ((P(p := x)) q)" for q
    using that p assms(3,6) by (cases "q = p") (auto intro: only_upd)
  show "0 < c" if "(P(p := x)) q = Some (Forked c)" for q c
    using that i(3) assms(5) by (auto split: if_splits)
  show "only (P(p := x)) (nDaemonID m')" if "\<And>q. \<not> starts ((P(p := x)) q)"
    using that [of p] assms(4,6) by (auto intro: only_upd)
qed

text \<open>A process that is no starter changes to a stage in which it is none.\<close>

lemma other_step:
  assumes "daemon_inv (m, P)" "\<not> starts (P p)" "\<not> starts x" "serves x \<longrightarrow> serves (P p)" "x \<noteq> None \<longrightarrow> 0 < p"
    and "nDaemonID m' = nDaemonID m"
  shows "daemon_inv (m', P(p := x))"
proof -
  have "daemon_of m' = daemon_of m"
  proof
    fix s show "daemon_of m' s = daemon_of m s" using assms(6) by (cases "(m, s)" rule: daemon_of.cases) auto
  qed
  moreover have "starts ((P(p := x)) q) = starts (P q)" for q using assms(2,3) by simp
  moreover have "only (P(p := x)) c" if "only P c" for c using that assms(4) unfolding only_def by (metis fun_upd_apply)
  moreover have "(P(p := x)) q = P q" if "starts (P q)" for q using that assms(2) by auto
  ultimately show ?thesis using assms(1,3,5,6)
    by (auto simp: daemon_inv_def lone_def split: if_splits)
qed

lemma fork_inv:
  assumes "daemon_inv (m, P)" "P p = Some Checked" "P c = None" "0 < c"
  shows "daemon_inv (m, P(p \<mapsto> Forked c, c \<mapsto> Booting))"
proof -
  have "only P c" by (rule checked_none [OF assms(1,2)])
  then have i: "daemon_inv (m, P(p \<mapsto> Forked c))" "only (P(p \<mapsto> Forked c)) c" using assms by (auto intro!: starter_step only_upd)
  let ?Q = "P(p \<mapsto> Forked c)"
  have Q: "lone ?Q" "\<And>q. q \<in> dom ?Q \<Longrightarrow> 0 < q" "\<And>q d. ?Q q = Some (Forked d) \<Longrightarrow> 0 < d" "starts (?Q p)" "p \<noteq> c"
    using i(1) assms(2,3) by (auto simp: daemon_inv_def)
  have only: "only (?Q(c \<mapsto> Booting)) c" using i(2) by (simp add: only_upd)
  show ?thesis
  proof (rule daemon_invI)
    show "lone (?Q(c \<mapsto> Booting))" using Q(1) by (simp add: lone_upd)
    show "0 < q" if "q \<in> dom (?Q(c \<mapsto> Booting))" for q using that Q(2) [of q] assms(4) by (auto split: if_splits)
    show "0 < d" if "(?Q(c \<mapsto> Booting)) q = Some (Forked d)" for q d using that Q(3) [of q d] by (auto split: if_splits)
    show "only (?Q(c \<mapsto> Booting)) (daemon_of m ((?Q(c \<mapsto> Booting)) q))" if "starts ((?Q(c \<mapsto> Booting)) q)" for q
    proof -
      have "starts (?Q q)" "q \<noteq> c" using that by (auto split: if_splits)
      then have "q = p" using loneD [OF Q(1) _ Q(4)] by blast
      with only Q(5) show ?thesis by simp
    qed
    show "only (?Q(c \<mapsto> Booting)) (nDaemonID m)" if "\<And>q. \<not> starts ((?Q(c \<mapsto> Booting)) q)"
      using that [of p] Q(5) by simp
  qed
qed

lemma daemon_inv_step: "bcc_step True c c' \<Longrightarrow> daemon_inv c \<Longrightarrow> daemon_inv c'"
proof (induction rule: bcc_step.induct)
  case (spawn P p m)
  then have n: "\<And>q. \<not> starts (P q)" "only P (nDaemonID m)" by (auto simp: daemon_inv_def)
  show ?case
    by (rule daemon_invI) (use spawn n in \<open>auto simp: daemon_inv_def intro!: lone_upd only_upd split: if_splits\<close>)
next
  case (found P p d m)
  have "only P (nDaemonID m)" using starter_only [OF found(4,1)] by simp
  with found show ?case by (intro starter_step) auto
next
  case (alone P p d m)
  have o: "only P (nDaemonID m)" using starter_only [OF alone(4,1)] by simp
  have "0 < q \<and> q \<noteq> p \<and> q \<in> dom P" if "serves (P q)" for q
    using that alone(1) serves_pos [OF alone(4) that] by (cases "P q") auto
  then have "only P 0" using o alone_sees [OF alone(2,3)] unfolding only_def by fastforce
  with alone show ?case by (intro starter_step) auto
next
  case (fork P p c m) then show ?case by (rule_tac fork_inv)
next
  case (no_fork P p m)
  have "only P (nDaemonID m)" by (rule checked_none [OF no_fork(2,1)])
  with no_fork show ?case by (intro starter_step) auto
next
  case (record_child P p c m)
  have "only P c" using starter_only [OF record_child(2,1)] by simp
  with record_child show ?case by (intro starter_step) auto
next
  case (table P c m old)
  then have "0 < c" by (auto simp: daemon_inv_def)
  with table show ?case by (intro other_step) auto
next
  case (start_task P c m t) then show ?case by (intro other_step) auto
next
  case (no_task P c m)
  then have "0 < c" by (auto simp: daemon_inv_def)
  with no_task other_step [of m P c "P c" "daemon_turn (- 1) m"] show ?case by (simp add: map_upd_triv)
next
  case (died P c m)
  then have "\<not> starts (P c)" by (cases "P c" rule: serves.cases) auto
  with died show ?case by (intro other_step) auto
qed

lemma serial_reach_inv: "bcc_reach True c \<Longrightarrow> daemon_inv c"
proof (induction rule: bcc_reach.induct)
  case boot show ?case by (simp add: daemon_inv_def lone_def only_def)
next
  case (step c c') then show ?case by (rule_tac daemon_inv_step)
qed

section \<open>Properties of the start\<close>

text \<open>
  C35. One daemon. Whatever the processes do and in whatever order \<open>/proc\<close> lists them, as long as no call of
  \<open>ftmbcc -d\<close> begins while another is in progress, no two daemons run; and when no start is in progress the
  shared memory names the daemon that runs.
\<close>

theorem one_daemon:
  assumes "bcc_reach True (m, P)" "serves (P p)"
  shows "(\<forall>q. serves (P q) \<longrightarrow> q = p) \<and> ((\<forall>r. \<not> starts (P r)) \<longrightarrow> nDaemonID m = p)"
proof -
  have i: "daemon_inv (m, P)" by (rule serial_reach_inv [OF assms(1)])
  then obtain c where "only P c" unfolding daemon_inv_def prod.case by blast
  moreover have "only P (nDaemonID m)" if "\<forall>r. \<not> starts (P r)" using i that by (auto simp: daemon_inv_def)
  ultimately show ?thesis using assms(2) unfolding only_def by metis
qed

lemma ftmbcc_entry: "numeric_name n \<Longrightarrow> is_match ''ftmbcc'' (n, Some ''/bin/ftmbcc'')"
  by (simp add: is_match_def cstr_def)

lemma first_start:
  assumes "bcc_reach s (m, P)" "P p = Some Starting" "lists d P" "nDaemonID m = 0" "P c = None" "0 < c"
  shows "bcc_reach s (m, P(p \<mapsto> Forked c, c \<mapsto> Booting))"
proof -
  have "other_daemon p d m = Inr False" using assms(4) by (simp add: other_daemon_def)
  then have "bcc_reach s (m, P(p \<mapsto> Checked))" using bcc_step.alone bcc_reach.step assms(1-3) by metis
  moreover have "bcc_step s (m, P(p \<mapsto> Checked)) (m, (P(p \<mapsto> Checked))(p \<mapsto> Forked c, c \<mapsto> Booting))"
    using assms(2,5,6) by (intro bcc_step.fork) auto
  ultimately show ?thesis using bcc_reach.step by force
qed

lemma demo_listing: "lists [(''5'', Some ''/bin/ftmbcc'')] [5 \<mapsto> x]"
proof -
  have "atoi ''5'' = 5" by code_simp
  then show ?thesis by (simp add: lists_def names_fit_def ftmbcc_entry numeric_name_def isdigit_def)
qed

theorem one_daemon_witness:
  "bcc_reach True (\<lparr>nDaemonID = 7, lpTasks = []\<rparr>, [7 \<mapsto> Booting]) \<and>
   nDaemonID \<lparr>nDaemonID = 7, lpTasks = []\<rparr> = 7"
proof -
  let ?m = "\<lparr>nDaemonID = 0, lpTasks = []\<rparr>"
  have "bcc_step True (?m, Map.empty) (?m, [5 \<mapsto> Starting])" by (rule bcc_step.spawn) simp_all
  then have "bcc_reach True (?m, [5 \<mapsto> Starting])" using bcc_reach.boot bcc_reach.step by blast
  then have "bcc_reach True (?m, [5 \<mapsto> Forked 7, 7 \<mapsto> Booting])"
    using first_start [OF _ _ demo_listing, of True ?m Starting 5 7] by simp
  moreover have "bcc_step True (?m, [5 \<mapsto> Forked 7, 7 \<mapsto> Booting])
      (?m\<lparr>nDaemonID := 7\<rparr>, [5 \<mapsto> Forked 7, 7 \<mapsto> Booting](5 := None))"
    by (rule bcc_step.record_child) simp
  moreover have "[5 \<mapsto> Forked 7, 7 \<mapsto> Booting](5 := None) = [7 :: int \<mapsto> Booting]" by auto
  ultimately have "bcc_reach True (\<lparr>nDaemonID = 7, lpTasks = []\<rparr>, [7 \<mapsto> Booting])" using bcc_reach.step by fastforce
  with one_daemon [OF this, of 7] show ?thesis by simp
qed

text \<open>
  A race. When two calls of \<open>ftmbcc -d\<close> overlap before the first daemon is recorded, neither looks at
  \<open>/proc\<close>, and both fork a daemon.
\<close>

theorem overlapping_starts_race:
  "\<exists>m P. bcc_reach False (m, P) \<and> serves (P 7) \<and> serves (P 8)"
proof -
  let ?m = "\<lparr>nDaemonID = 0, lpTasks = []\<rparr>" and ?P = "[5 \<mapsto> Starting, 6 \<mapsto> Starting] :: int \<rightharpoonup> stage"
  let ?Q = "?P(5 \<mapsto> Forked 7, 7 \<mapsto> Booting)"
  let ?f = "\<lambda>n. (n, Some ''/bin/ftmbcc'')"
  have "bcc_reach False (?m, [5 \<mapsto> Starting])"
    using bcc_step.spawn [of Map.empty 5 False ?m] bcc_reach.boot bcc_reach.step by fastforce
  moreover have "bcc_step False (?m, [5 \<mapsto> Starting]) (?m, ?P)" by (rule bcc_step.spawn) simp_all
  ultimately have 1: "bcc_reach False (?m, ?P)" using bcc_reach.step by blast
  have a: "atoi ''5'' = 5" "atoi ''6'' = 6" "atoi ''7'' = 7" by code_simp+
  then have "lists (map ?f [''5'', ''6'']) ?P" "lists (map ?f [''5'', ''6'', ''7'']) ?Q"
    by (auto simp: lists_def names_fit_def ftmbcc_entry numeric_name_def isdigit_def)
  note l = this
  have "bcc_reach False (?m, ?Q)" using first_start [OF 1 _ l(1), of 5 7] by simp
  from first_start [OF this _ l(2), of 6 8] have "bcc_reach False (?m, ?Q(6 \<mapsto> Forked 8, 8 \<mapsto> Booting))" by simp
  then show ?thesis by (intro exI conjI) auto
qed

end
