(* ===== verification/Spec2Isabelle.thy ===== *)
theory Spec2Isabelle
  imports Web Iot Qsess Mmon Modem Xshared Fwmng Daemon
begin

text \<open>
  \<^bold>\<open>The software of the FTM-50S cellular router.\<close> The repository is the RAM disk of a small Linux router with a
  3G modem. Its own programs, all in C, are the subject of this development; the rest are packages of other
  projects.

  \<^bold>\<open>The program and its parts.\<close>
  \<^item> \<open>req.cgi\<close> (\<open>www/cgi-src\<close>) is the web interface. The web server starts it once for every request, under the name of
    the command. It decodes the request with the bundled library \<open>qdecoder\<close>, checks the session in a pool
    in shared memory, and runs the handler of the command: login, pages, network, firewall, DHCP, VPN, log,
    system (profile, password, firmware, reboot) and modem registration.
  \<^item> \<open>iot.cgi\<close>, \<open>upload.cgi\<close> and \<open>rssi\<close> (\<open>uitool\<close>) are the modem pages, the restoring of a configuration and a
    watcher of the signal strength.
  \<^item> \<open>mmon\<close> (\<open>apps/mmon\<close>) keeps modem and link alive and talks to the modem through a serial port.
  \<^item> \<open>fwmng\<close> (\<open>apps/fwmng\<close>) writes a firmware image to flash. \<open>ftmbcc\<close> (\<open>apps/ftmbcc\<close>) is an older daemon that starts a task
    per modem.
  The parts meet in files (\<open>/etc/httpd.conf\<close>, \<open>/tmp/new_fw\<close>), in shared memory (the session pool, the progress of an
  upgrade), in the modem port and in the scripts that one starts and another reports on.

  \<^bold>\<open>Theories.\<close>
  \<^item> \<open>Prelude\<close>: faults, results and runs (\<open>res\<close> is a value or undefined behaviour of C, \<open>run\<close> in addition \<open>None\<close> for a run
    that never ends), loops as repeated turns, list lemmas. \<open>Clib\<close>: the functions of the C library on strings.
    \<open>Os\<close>: files, started commands, output, time; other programs are a parameter \<open>shell\<close>. \<open>Forms\<close>: numbered
    fields, lines of output, configuration files. \<open>Tty\<close>: terminal settings. \<open>Port\<close>: polling the modem port.
  \<^item> \<open>Query\<close> and \<open>Multipart\<close>: \<open>qcgireq.c\<close> and \<open>internal.c\<close> of \<open>qdecoder\<close>, from environment and input to the list of fields.
    \<open>Cgi\<close>: this list, the replies (\<open>qcgires.c\<close>, \<open>xml.c\<close>) and services (\<open>util.c\<close>). \<open>Qentry\<close>: the linked list of
    \<open>qentry.c\<close> with its pointers, which implements the list that \<open>Cgi\<close> works on. \<open>Cookie\<close>: cookies with their
    dates, redirection and downloads (\<open>qcgires.c\<close>). \<open>Qsess\<close>: the sessions that the library keeps in files
    (\<open>qcgisess.c\<close>) and the options of the parser.
  \<^item> \<open>Md5\<close> (\<open>md5.c\<close>), \<open>Ssid\<close> (\<open>ssid.c\<close>), \<open>Profile\<close> (\<open>profile.c\<close>), \<open>Public\<close> (\<open>public.c\<close> and the making of identifiers),
    \<open>Gate\<close> (\<open>main.c\<close>, \<open>page.c\<close>, \<open>login.c\<close>), \<open>System\<close> (\<open>system.c\<close>), \<open>Netfilter\<close> (\<open>netfilter.c\<close>), \<open>Network\<close> (\<open>network.c\<close>,
    \<open>syslog.c\<close>), \<open>Dhcp\<close> (\<open>dhcp.c\<close>), \<open>Ssl\<close> (\<open>ssl.c\<close>, \<open>sslplus.c\<close>, \<open>secuwayssl.c\<close>), \<open>Ota\<close> (\<open>ota.c\<close>), \<open>Web\<close> (the command table
    and what holds across handlers).
  \<^item> \<open>Iot\<close> (\<open>uitool\<close>). \<open>Xconfig\<close>, \<open>Mmon\<close>, \<open>Xcom\<close>, \<open>Modem\<close>, \<open>Xshared\<close>, \<open>Xutil\<close> (\<open>apps/mmon\<close>), \<open>Fwmng\<close> (\<open>apps/fwmng\<close>), \<open>Ftmbcc\<close>
    (\<open>apps/ftmbcc\<close>), \<open>Daemon\<close> (the interleaving of several starts of \<open>ftmbcc\<close>, as a step relation).
    This theory has the properties that span programs.

  \<^bold>\<open>How code is represented.\<close> A struct is a record with the fields of the source, except where the code writes
  across fields: the profile is the bytes of its adjacent arrays. The session pool lies in pages of shared memory: what is left of the
  last page behind the pool (\<open>page_rest\<close>) takes a write, and a write beyond it is a fault.
  Unsigned and wrapping values are 32-bit words. A function is a definition of the same name on the state it
  changes: the world \<open>cgi\<close> of a request (files, commands, output, request list, session pool, time, settings and output of the modem port), the world \<open>os\<close>
  of a daemon, the session pool alone. Each branch and early return is a branch of the definition, and what C
  leaves undefined (null pointers, writes and reads outside of an array, uninitialised data, a format
  string from data, a second \<open>free\<close>) is a fault. The interfaces are locales: \<open>message_digest\<close> (interpreted by the MD5
  functions), \<open>session_store\<close> (by the pool), \<open>simulation\<close> (by the monitor), \<open>line_printer\<close> (by the
  functions that print one line of a report), \<open>entry_map\<close> (by the list of a request and by that of a file session).

  \<^bold>\<open>What is shown.\<close> Sessions: each operation on the pool, with its result, is the operation of a table of identifiers with
  expiry, whose places a deletion clears from the found one on; a login opens all pages for 600 seconds and nothing else does; a client that stays within them
  keeps its session among the requests of others as long as no deletion or displacement reaches its place; a logout closes the session,
  and from the fourth place on the deletion leaves the page and kills the process. The digest equals a reference MD5 for any splitting of the message.
  Requests: encoded forms and uploaded files are decoded to exactly what was sent, and the linked list
  keeps them; a saved file session is resumed until its time is over, and dates follow the calendar. Configuration: profile (with the serial number in its file of its own) and VPN settings are read back as written, the firewall and DHCP files have the posted rules, a changed password is the
  one that logs in. Firmware: the bytes that a browser posts are the bytes in flash, up to the size of the device. Monitor: the loop follows
  a state machine with guards and times, each turn is bounded in time, and with a working modem it reaches the running state.
  Daemon: serial starts leave at most one running, and shared memory names it.
  Modem: responses are split into their lines, commands reach the port as the parameters describe them, and the port
  gets its settings back. Some
  theorems state what the code does although it can hardly be meant.

  \<^bold>\<open>Bounds and fuel.\<close> Daemons are \<open>n\<close> turns for any \<open>n\<close> (\<open>turns\<close>, \<open>rssi_main\<close>), so that statements hold at every time.
  Loops that may not end (\<open>poll\<close>, \<open>parts\<close>, \<open>parse_lines\<close>, \<open>info_loop\<close>, \<open>read_until_ok\<close>, the loops over linked objects) are partial functions and
  the statements about them say when there is a result. All other loops have termination proofs. The free
  space for an upload (\<open>room\<close>), the modem port, the names in a directory (\<open>sess_env\<close>) and the environment of
  the process are parameters. So are, where the code has a branch for them or misses one: how many bytes of a write a file or device takes
  (\<open>sink\<close>, in the copying to flash and in uploads to disk), \<open>mkstemp\<close> and the sizes \<open>malloc\<close> grants in the parser
  (\<open>platform\<close>), and the times of the monitor (\<open>timing\<close>: how long a signal lets it sleep and how long a command takes).
  Configuration files and the file of \<open>upload.cgi\<close> are on a file system that does not run full.

  \<^bold>\<open>Not modelled.\<close> Debug traces; sources that no Makefile
  names (\<open>netfilter_bak.c\<close>, \<open>wwan.c\<close>, \<open>fw_upgrade.c\<close>, the earlier web interface in \<open>www/cgi-src/old\<close>); \<open>chatchat\<close>, a sample of the ppp package; the packages under
  \<open>apps\<close> (busybox, iptables, net-snmp, ppp and others); the shell scripts, whose effect is the parameter \<open>shell\<close>.
\<close>

section \<open>Properties across programs\<close>

text \<open>A request for a session with a user and a password.\<close>

definition login_request :: "cgi \<Rightarrow> string \<Rightarrow> string \<Rightarrow> bool" where
  "login_request v user pw \<longleftrightarrow> getstr v ''cmd'' = Some ''get_ssid'' \<and> getstr v ''id'' = Some user \<and>
     getstr v ''pw'' = Some pw \<and> getstr v ''seed'' \<noteq> None"

text \<open>
  C4. A changed password. After \<open>chg_passwd\<close> with the current password, every login of the user with the new
  password is answered with an identifier of 32 characters, which is stored in the pool; every login with
  another password, the old one included, is answered with an error and leaves the pool as it is.
\<close>

theorem new_password_logs_in:
  assumes "cp_law sh" "wperm w ''/tmp/httpd.conf''" "getstr w ''cmd'' = Some ''chg_passwd''"
    and "FTMC_LoadProfileConfig (files w) = Inr (Some c)" "profile_ok c"
    and "model_file_ok (files w)" "sn_file_ok (files w)"
    and "getstr w ''passwd'' = Some (szPasswd c)" "getstr w ''new_passwd'' = Some new" "value_ok 32 new"
    and "shell_up sh" "\<forall>t fs fs'. sh ''uptime'' t fs \<noteq> Some ([], fs')"
  shows "\<exists>w'. FTMC_System sh room w = Inr (0, w') \<and>
    (\<forall>v. files v = files w' \<and> login_request v (szUserID c) new \<longrightarrow>
       (\<exists>u tag. FTMC_Public sh v = Inr (0, u) \<and> length tag = 32 \<and>
          pool u = snd (FTMC_SaveSSID (can_create v) tag (now v) (pool v)) \<and>
          out u = out (XML_PutHeader v) @ concat (map line [''<FTM-50>'', ''<SSID>'' @ tag @ ''</SSID>'', ''</FTM-50>'']))) \<and>
    (\<forall>v pw. files v = files w' \<and> login_request v (szUserID c) pw \<and> pw \<noteq> new \<longrightarrow>
       (\<exists>u. FTMC_Public sh v = Inr (0, u) \<and> pool u = pool v \<and>
          out u = out (XML_PutHeader v) @ concat (map line [''<FTM-50>'', ''<RET>ERROR</RET>'', ''</FTM-50>''])))"
proof -
  obtain w' q where w': "FTMC_System sh room w = Inr (0, w')" "FTMC_LoadProfileConfig (files w') = Inr (Some q)"
    "szUserID q = szUserID c" "szPasswd q = new"
    using chg_passwd_effective [OF assms(1-10)] by metis
  have "\<exists>u tag. FTMC_Public sh v = Inr (0, u) \<and> length tag = 32 \<and>
      pool u = snd (FTMC_SaveSSID (can_create v) tag (now v) (pool v)) \<and>
      out u = out (XML_PutHeader v) @ concat (map line [''<FTM-50>'', ''<SSID>'' @ tag @ ''</SSID>'', ''</FTM-50>''])"
    if "files v = files w'" "login_request v (szUserID c) new" for v
  proof -
    let ?v = "XML_PutHeader v"
    have i: "getstr v ''cmd'' = Some ''get_ssid''" "getstr v ''id'' = Some (szUserID q)" "getstr v ''pw'' = Some (szPasswd q)"
      "getstr v ''seed'' \<noteq> None" using that(2) w'(3,4) by (simp_all add: login_request_def)
    have l: "FTMC_LoadProfileConfig (files v) = Inr (Some q)" using that(1) w'(2) by simp
    obtain tag u where g: "get_ssid sh ?v = Inr (0, u)" "length tag = 32"
      "out u = out ?v @ concat (map line [open_tag ''FTM-50'', elem ''SSID'' tag, close_tag ''FTM-50''])"
      "pool u = snd (FTMC_SaveSSID (can_create ?v) tag (now ?v) (pool ?v))"
      by (rule get_ssid_granted [of ?v q sh]) (use i l assms(11,12) in \<open>simp_all add: login_ok_def\<close>)
    have "FTMC_Public sh v = Inr (0, u)" using g(1) i(1) by (simp add: FTMC_Public_def Let_def)
    moreover have "pool u = snd (FTMC_SaveSSID (can_create v) tag (now v) (pool v))" using g(4) by simp
    moreover have "out u = out ?v @ concat (map line [''<FTM-50>'', ''<SSID>'' @ tag @ ''</SSID>'', ''</FTM-50>''])"
      using g(3) by (simp add: elem_def open_tag_def close_tag_def)
    ultimately show ?thesis using g(2) by blast
  qed
  moreover have "\<exists>u. FTMC_Public sh v = Inr (0, u) \<and> pool u = pool v \<and>
      out u = out (XML_PutHeader v) @ concat (map line [''<FTM-50>'', ''<RET>ERROR</RET>'', ''</FTM-50>''])"
    if "files v = files w'" "login_request v (szUserID c) pw" "pw \<noteq> new" for v pw
    using that w'(2-4)
    by (simp add: login_request_def FTMC_Public_def get_ssid_def login_ok_def Let_def line_def elem_def open_tag_def close_tag_def)
  ultimately show ?thesis using w'(1) by blast
qed

theorem new_password_logs_in_witness:
  "\<exists>w' u tag. FTMC_System web_shell 0 (web_world demo_files
      [(''cmd'', ''chg_passwd''), (''passwd'', ''pw''), (''new_passwd'', ''secret'')]) = Inr (0, w') \<and> length tag = 32 \<and>
    FTMC_Public web_shell (web_world (files w')
      [(''cmd'', ''get_ssid''), (''id'', ''admin''), (''pw'', ''secret''), (''seed'', ''42'')]) = Inr (0, u) \<and>
    pool u = snd (FTMC_SaveSSID True tag 1000 None)"
proof -
  let ?w = "web_world demo_files [(''cmd'', ''chg_passwd''), (''passwd'', ''pw''), (''new_passwd'', ''secret'')]"
  let ?v = "\<lambda>fs. web_world fs [(''cmd'', ''get_ssid''), (''id'', ''admin''), (''pw'', ''secret''), (''seed'', ''42'')]"
  obtain c where c: "FTMC_LoadProfileConfig demo_files = Inr (Some c)" "profile_ok c" "szUserID c = ''admin''" "szPasswd c = ''pw''"
    by (rule demo_files_profile)
  have w: "wperm ?w ''/tmp/httpd.conf''" "getstr ?w ''cmd'' = Some ''chg_passwd''"
    "FTMC_LoadProfileConfig (files ?w) = Inr (Some c)" "model_file_ok (files ?w)" "sn_file_ok (files ?w)"
    "getstr ?w ''passwd'' = Some (szPasswd c)" "getstr ?w ''new_passwd'' = Some ''secret''" "value_ok 32 ''secret''"
    using c by (simp_all add: demo_files_def model_file_ok_def sn_file_ok_def value_ok_def isspace_def cstr_def)
  have v: "files (?v fs) = fs" "login_request (?v fs) (szUserID c) ''secret''" "can_create (?v fs)" "now (?v fs) = 1000"
    "pool (?v fs) = None" for fs
    using c(3) by (simp_all add: login_request_def cstr_def) (simp_all add: web_world_def)
  obtain w' where w': "FTMC_System web_shell 0 ?w = Inr (0, w')" and "\<And>v. files v = files w' \<Longrightarrow>
      login_request v (szUserID c) ''secret'' \<Longrightarrow> \<exists>u tag. FTMC_Public web_shell v = Inr (0, u) \<and> length tag = 32 \<and>
        pool u = snd (FTMC_SaveSSID (can_create v) tag (now v) (pool v))"
    using new_password_logs_in [OF web_shell_cp w(1,2,3) c(2) w(4-8) web_shell_up, of 0] web_shell_uptime by blast
  from this(2) [OF v(1,2)] obtain u tag where "FTMC_Public web_shell (?v (files w')) = Inr (0, u)" "length tag = 32"
    "pool u = snd (FTMC_SaveSSID True tag 1000 None)" using v(3-5) by auto
  with w' show ?thesis by blast
qed

text \<open>
  C3. From the browser to the flash. A browser posts an image to \<open>system\<close> with \<open>fw_upload\<close> and a live session;
  then \<open>fwmng -i /tmp/new_fw -o\<close> with a device of fixed size, run on the files the request left, ends with 0. If the
  image fits the device, the device starts with exactly the bytes the browser sent, the rest of it and every other
  file as they were. If it does not fit, the device is full of the first bytes of the image, the tail is lost, and
  the result is 0 nevertheless.
\<close>

theorem browser_to_flash:
  assumes "shm_wf (pool w)" "\<not> exited w" "live_session (pool w) tag (now w)" "nul \<notin> set tag"
    and "browser_sends getenv [] [(''ssid'', tag), (''cmd'', ''fw_upload'')]"
    and "getenv ''CONTENT_TYPE'' = Some (multipart_type bound)" "plain_boundary bound"
    and "field_name filename" "header_text ctype" "length ctype < 256" "delimits (''--'' @ bound) data"
    and "data \<noteq> []" "length (upload_body bound ''file'' filename ctype data) < 2 ^ 30" "length data \<le> room" "wperm w ''/tmp/new_fw''"
    and "files w dst = Some old" "dst \<noteq> ''/tmp/new_fw''"
    and "\<forall>t fs. \<exists>a. sh ''sync;sync'' t fs = Some (a, fs)" "open_status c s = Some st"
    and "takes_what_fits taken (length old)" "memory_for (pf_malloc pf) (length (upload_body bound ''file'' filename ctype data))"
  shows "\<exists>w'. req_process pf getenv (upload_body bound ''file'' filename ctype data) sh room port ''system'' w = Some (Inr w') \<and>
    (\<forall>v :: os. files v = files w' \<and> wperm v dst \<longrightarrow>
       (\<exists>st' v'. fw_main sh taken c [FwInput ''/tmp/new_fw'', FwOutput dst] (None, None) s v = Inr (0, Some st', v') \<and>
          files v' = (files w)(''/tmp/new_fw'' \<mapsto> data,
            dst \<mapsto> (if length data \<le> length old then data @ drop (length data) old else take (length old) data))))"
proof -
  obtain w' where w': "req_process pf getenv (upload_body bound ''file'' filename ctype data) sh room port ''system'' w = Some (Inr w')"
    "files w' = (files w)(''/tmp/new_fw'' \<mapsto> data)"
    using upload_stored [OF assms(1-15,21), of sh port] by blast
  have "\<exists>st' v'. fw_main sh taken c [FwInput ''/tmp/new_fw'', FwOutput dst] (None, None) s v = Inr (0, Some st', v') \<and>
      files v' = (files w)(''/tmp/new_fw'' \<mapsto> data,
        dst \<mapsto> (if length data \<le> length old then data @ drop (length data) old else take (length old) data))"
    if v: "files v = files w'" "wperm v dst" for v :: os
  proof -
    have "files v ''/tmp/new_fw'' = Some data" "files v dst = Some old" using v(1) w'(2) assms(16,17) by simp_all
    then obtain st' v' where "upgradeFirmware sh taken c ''/tmp/new_fw'' dst s v = Inr (0, Some st', v')"
      "files v' = (files v)(dst \<mapsto> take (length old) data @ drop (length data) old)"
      using upgrade_writes_image [of v "''/tmp/new_fw''" data dst old taken sh c s st] assms(12,18-20) v(2) by blast
    with v(1) w'(2) show ?thesis by simp
  qed
  with w'(1) show ?thesis by blast
qed

theorem browser_to_flash_witness:
  "\<exists>w' st' v'. req_process (roomy None) fw_env (upload_body ''XyZ'' ''file'' ''fw.img'' ''a/b'' [nul, CHR ''-'', nl, cr])
      (\<lambda>cmd t fs. Some ([], fs)) 100 (demo_port None) ''system''
      ((web_world [''/dev/mtd3'' \<mapsto> ''old firmware''] [])\<lparr>pool := one_session\<rparr>) = Some (Inr w') \<and>
    fw_main (\<lambda>cmd t fs. Some ([], fs)) (mtd_sink 12) True [FwInput ''/tmp/new_fw'', FwOutput ''/dev/mtd3''] (None, None) None
      (fw_world\<lparr>files := files w'\<rparr>) = Inr (0, Some st', v') \<and>
    files v' ''/dev/mtd3'' = Some ([nul, CHR ''-'', nl, cr] @ ''firmware'')"
proof -
  let ?w = "(web_world [''/dev/mtd3'' \<mapsto> ''old firmware''] [])\<lparr>pool := one_session\<rparr>" and ?sh = "\<lambda>cmd t fs. Some ([], fs)"
  let ?data = "[nul, CHR ''-'', nl, cr]"
  have e: "browser_sends fw_env [] [(''ssid'', tag_a), (''cmd'', ''fw_upload'')]" "fw_env ''CONTENT_TYPE'' = Some (multipart_type ''XyZ'')"
    by (simp_all add: browser_sends_def plain_form_def tag_a_def multipart_type_def fw_env_def)
  have w: "shm_wf (pool ?w)" "\<not> exited ?w" "live_session (pool ?w) tag_a (now ?w)" "nul \<notin> set tag_a"
    "wperm ?w ''/tmp/new_fw''" "files ?w ''/dev/mtd3'' = Some ''old firmware''"
    by (simp_all add: one_session_facts live_session_def VALID_TIME_def tag_a_def web_world_def)
  have "length ''old firmware'' = 12" by simp
  then have fits: "takes_what_fits (mtd_sink 12) (length ''old firmware'')" using mtd_sink_fits [of 12] by metis
  have o: "open_status True None = Some zero_status" by (simp add: open_status_def)
  obtain w' where w': "req_process (roomy None) fw_env (upload_body ''XyZ'' ''file'' ''fw.img'' ''a/b'' ?data) ?sh 100 (demo_port None)
      ''system'' ?w = Some (Inr w')" "\<And>v :: os. files v = files w' \<Longrightarrow> wperm v ''/dev/mtd3'' \<Longrightarrow>
        \<exists>st' v'. fw_main ?sh (mtd_sink 12) True [FwInput ''/tmp/new_fw'', FwOutput ''/dev/mtd3''] (None, None) None v = Inr (0, Some st', v') \<and>
          files v' = (files ?w)(''/tmp/new_fw'' \<mapsto> ?data, ''/dev/mtd3'' \<mapsto> ?data @ drop (length ?data) ''old firmware'')"
    using browser_to_flash [OF w(1-4) e demo_upload_facts(3,5,6) _ demo_upload_facts(7) _ demo_upload_size _ w(5,6) _ _ o fits,
        of 100 ?sh "roomy None" "demo_port None"] by auto
  have "\<exists>st' v'. fw_main ?sh (mtd_sink 12) True [FwInput ''/tmp/new_fw'', FwOutput ''/dev/mtd3''] (None, None) None (fw_world\<lparr>files := files w'\<rparr>) =
        Inr (0, Some st', v') \<and>
      files v' = (files ?w)(''/tmp/new_fw'' \<mapsto> ?data, ''/dev/mtd3'' \<mapsto> ?data @ drop (length ?data) ''old firmware'')"
    by (rule w'(2)) (simp_all add: fw_world_def)
  then obtain st' v' where "fw_main ?sh (mtd_sink 12) True [FwInput ''/tmp/new_fw'', FwOutput ''/dev/mtd3''] (None, None) None
      (fw_world\<lparr>files := files w'\<rparr>) = Inr (0, Some st', v')" "files v' ''/dev/mtd3'' = Some (?data @ ''firmware'')"
    by auto
  with w'(1) show ?thesis by blast
qed

end
